theory Spec2Isabelle
  imports Main "HOL-Library.Char_ord" "HOL-Library.List_Lexorder" "HOL-Library.AList"
begin

section \<open>Python exceptions as values\<close>

text \<open>
  Every function of the repository that can raise is modelled with a result of type
  \<open>error + 'a\<close>: \<open>Inl e\<close> is the exception \<open>e\<close>, \<open>Inr v\<close> the returned value.
  \<open>and_then\<close> sequences two computations and stops at the first exception, as Python's
  statement order does. Strings are lists of 8-bit characters, compared by code point; on
  these, \<open>str.isdecimal\<close> holds exactly for nonempty runs of the digits 0 to 9.
\<close>

datatype error = AssertionError | IndexError | KeyError | ValueError | AttributeError

definition and_then :: "error + 'a \<Rightarrow> ('a \<Rightarrow> error + 'b) \<Rightarrow> error + 'b" where
  "and_then r k = (case r of Inl e \<Rightarrow> Inl e | Inr v \<Rightarrow> k v)"

lemma and_then_cong [fundef_cong]:
  "r = r' \<Longrightarrow> (\<And>v. r' = Inr v \<Longrightarrow> k v = k' v) \<Longrightarrow> and_then r k = and_then r' k'"
  by (auto simp: and_then_def split: sum.splits)

lemma and_then_Inr [simp]: "and_then (Inr v) k = k v"
  by (simp add: and_then_def)

lemma and_then_Inl [simp]: "and_then (Inl e) k = Inl e"
  by (simp add: and_then_def)

lemma and_then_eq_Inr:
  "and_then r k = Inr y \<longleftrightarrow> (\<exists>v. r = Inr v \<and> k v = Inr y)"
  by (cases r) auto

section \<open>Token classifiers (propositions/syntax.py)\<close>

definition isdecimal_char :: "char \<Rightarrow> bool" where
  "isdecimal_char c = (CHR ''0'' \<le> c \<and> c \<le> CHR ''9'')"

definition str_isdecimal :: "string \<Rightarrow> bool" where
  "str_isdecimal s = (s \<noteq> [] \<and> list_all isdecimal_char s)"

text \<open>\<open>is_variable\<close> reads \<open>string[0]\<close> first, which raises IndexError on the empty string.\<close>

definition is_variable :: "string \<Rightarrow> error + bool" where
  "is_variable string =
     (case string of
        [] \<Rightarrow> Inl IndexError
      | c # cs \<Rightarrow> Inr (c \<ge> CHR ''p'' \<and> c \<le> CHR ''z'' \<and>
                      (length string = 1 \<or> str_isdecimal cs)))"

definition is_constant :: "string \<Rightarrow> bool" where
  "is_constant string = (string = ''T'' \<or> string = ''F'')"

definition is_unary :: "string \<Rightarrow> bool" where
  "is_unary string = (string = ''~'')"

definition is_binary :: "string \<Rightarrow> bool" where
  "is_binary string = (string \<in> {''&'', ''|'', ''->'', ''+'', ''<->'', ''-&'', ''-|''})"

section \<open>Formula trees (class Formula)\<close>

text \<open>
  A \<open>Formula\<close> object has the attribute \<open>root\<close> and, when \<open>__init__\<close> set them, the
  attributes \<open>first\<close> and \<open>second\<close>; an attribute that was never set is \<open>None\<close> here and
  reading it is an AttributeError.
\<close>

datatype Formula = Formula string "Formula option" "Formula option"

abbreviation Atom :: "string \<Rightarrow> Formula" where
  "Atom r \<equiv> Formula r None None"

abbreviation Neg :: "Formula \<Rightarrow> Formula" where
  "Neg a \<equiv> Formula ''~'' (Some a) None"

abbreviation Binary :: "string \<Rightarrow> Formula \<Rightarrow> Formula \<Rightarrow> Formula" where
  "Binary r a b \<equiv> Formula r (Some a) (Some b)"

text \<open>\<open>Formula.__init__\<close>, with its assertions.\<close>

definition Formula_init :: "string \<Rightarrow> Formula option \<Rightarrow> Formula option \<Rightarrow> error + Formula" where
  "Formula_init root first second =
     and_then (is_variable root) (\<lambda>v.
       if v \<or> is_constant root then
         (if first = None \<and> second = None then Inr (Formula root None None)
          else Inl AssertionError)
       else if is_unary root then
         (if first \<noteq> None \<and> second = None then Inr (Formula root first None)
          else Inl AssertionError)
       else if \<not> is_binary root then Inl AssertionError
       else if first \<noteq> None \<and> second \<noteq> None then Inr (Formula root first second)
       else Inl AssertionError)"

text \<open>The formulas that the public constructor can build: every node passed \<open>__init__\<close>.\<close>

fun constructed :: "Formula \<Rightarrow> bool" where
  "constructed (Formula r a b) =
     (Formula_init r a b = Inr (Formula r a b) \<and>
      (case a of None \<Rightarrow> True | Some f \<Rightarrow> constructed f) \<and>
      (case b of None \<Rightarrow> True | Some g \<Rightarrow> constructed g))"

text \<open>\<open>Formula.__repr__\<close>.\<close>

fun repr :: "Formula \<Rightarrow> error + string" where
  "repr (Formula root first second) =
     and_then (is_variable root) (\<lambda>v.
       if v \<or> is_constant root then Inr root
       else if is_unary root then
         (case first of None \<Rightarrow> Inl AttributeError
          | Some f \<Rightarrow> and_then (repr f) (\<lambda>s. Inr (root @ s)))
       else if \<not> is_binary root then Inl AssertionError
       else
         (case first of None \<Rightarrow> Inl AttributeError
          | Some f \<Rightarrow> and_then (repr f) (\<lambda>s1.
              (case second of None \<Rightarrow> Inl AttributeError
               | Some g \<Rightarrow> and_then (repr g) (\<lambda>s2.
                   Inr (''('' @ s1 @ root @ s2 @ '')''))))))"

text \<open>\<open>Formula.__eq__\<close>: two formulas are equal when their string representations are.\<close>

definition Formula_eq :: "Formula \<Rightarrow> Formula \<Rightarrow> error + bool" where
  "Formula_eq self other =
     and_then (repr self) (\<lambda>s. and_then (repr other) (\<lambda>t. Inr (s = t)))"

text \<open>\<open>Formula.variables\<close> and \<open>Formula.operators\<close>.\<close>

fun variables :: "Formula \<Rightarrow> error + string set" where
  "variables (Formula root first second) =
     and_then (is_variable root) (\<lambda>v.
       if v then Inr {root}
       else if is_constant root then Inr {}
       else if is_unary root then
         (case first of None \<Rightarrow> Inl AttributeError | Some f \<Rightarrow> variables f)
       else if \<not> is_binary root then Inl AssertionError
       else
         (case first of None \<Rightarrow> Inl AttributeError
          | Some f \<Rightarrow> and_then (variables f) (\<lambda>A.
              (case second of None \<Rightarrow> Inl AttributeError
               | Some g \<Rightarrow> and_then (variables g) (\<lambda>B. Inr (A \<union> B))))))"

fun operators :: "Formula \<Rightarrow> error + string set" where
  "operators (Formula root first second) =
     and_then (is_variable root) (\<lambda>v.
       if v then Inr {}
       else if is_constant root then Inr {root}
       else if is_unary root then
         (case first of None \<Rightarrow> Inl AttributeError
          | Some f \<Rightarrow> and_then (operators f) (\<lambda>A. Inr ({root} \<union> A)))
       else if \<not> is_binary root then Inl AssertionError
       else
         (case first of None \<Rightarrow> Inl AttributeError
          | Some f \<Rightarrow> and_then (operators f) (\<lambda>A.
              (case second of None \<Rightarrow> Inl AttributeError
               | Some g \<Rightarrow> and_then (operators g) (\<lambda>B. Inr ({root} \<union> A \<union> B))))))"

text \<open>\<open>Formula.polish\<close>.\<close>

fun polish :: "Formula \<Rightarrow> error + string" where
  "polish (Formula root first second) =
     and_then (is_variable root) (\<lambda>v.
       if v \<or> is_constant root then Inr root
       else if is_unary root then
         (case first of None \<Rightarrow> Inl AttributeError
          | Some f \<Rightarrow> and_then (polish f) (\<lambda>s. Inr (root @ s)))
       else if \<not> is_binary root then Inl AssertionError
       else
         (case first of None \<Rightarrow> Inl AttributeError
          | Some f \<Rightarrow> and_then (polish f) (\<lambda>s1.
              (case second of None \<Rightarrow> Inl AttributeError
               | Some g \<Rightarrow> and_then (polish g) (\<lambda>s2. Inr (root @ s1 @ s2))))))"

section \<open>The parsers\<close>

text \<open>
  The scanning loop \<open>while index < len(string) and string[index].isdecimal(): index += 1\<close>
  of both parsers.
\<close>

function scan_decimal :: "string \<Rightarrow> nat \<Rightarrow> nat" where
  "scan_decimal string index =
     (if index < length string \<and> isdecimal_char (string ! index)
      then scan_decimal string (index + 1) else index)"
  by pat_completeness auto
termination
  by (relation "measure (\<lambda>(string, index). length string - index)") auto

declare scan_decimal.simps [simp del]

text \<open>
  The variable branch of both parsers (\<open>if string[0] >= 'p' and string[0] <= 'z': ...\<close>),
  for a nonempty string: \<open>Some\<close> of the returned pair, or \<open>None\<close> when control falls through
  to the branches below it.
\<close>

definition parse_variable :: "string \<Rightarrow> error + (Formula \<times> string) option" where
  "parse_variable string =
     (if hd string \<ge> CHR ''p'' \<and> hd string \<le> CHR ''z'' then
        (let index = scan_decimal string 1; variable = take index string in
         and_then (is_variable variable) (\<lambda>v.
           if v then and_then (Formula_init variable None None)
                       (\<lambda>f. Inr (Some (f, drop index string)))
           else Inr None))
      else Inr None)"

text \<open>
  The loop \<open>for length in range(max_op_length, 0, -1)\<close> of both parsers, from the candidate
  length \<open>n\<close> downwards: \<open>Some\<close> of the operator and the rest of the string at the first
  candidate that is a binary operator, \<open>None\<close> when the loop ends with \<open>operator is None\<close>.
\<close>

fun match_operator :: "string \<Rightarrow> nat \<Rightarrow> (string \<times> string) option" where
  "match_operator remainder 0 = None"
| "match_operator remainder (Suc n) =
     (let candidate = take (Suc n) remainder in
      if is_binary candidate then Some (candidate, drop (Suc n) remainder)
      else match_operator remainder n)"

text \<open>
  \<open>Formula._parse_prefix\<close>: the pair of the parsed formula and the unparsed suffix, or of
  \<open>None\<close> and an error message.
\<close>

function parse_prefix :: "string \<Rightarrow> error + (Formula option \<times> string)" where
  "parse_prefix [] = Inr (None, ''Unexpected end of input'')"
| "parse_prefix (c # cs) =
     (if is_constant [c] then
        and_then (Formula_init [c] None None) (\<lambda>f. Inr (Some f, cs))
      else and_then (parse_variable (c # cs)) (\<lambda>var.
        case var of Some (f, rest) \<Rightarrow> Inr (Some f, rest)
        | None \<Rightarrow>
          if is_unary [c] then
            and_then (parse_prefix cs) (\<lambda>(formula, remainder).
              case formula of None \<Rightarrow> Inr (None, remainder)
              | Some g \<Rightarrow> and_then (Formula_init [c] (Some g) None)
                           (\<lambda>f. Inr (Some f, remainder)))
          else if c = CHR ''('' then
            and_then (parse_prefix cs) (\<lambda>(first, remainder).
              case first of None \<Rightarrow> Inr (None, remainder)
              | Some a \<Rightarrow>
                if remainder = [] then Inr (None, ''Expected binary operator'')
                else
                  (case match_operator remainder (min 3 (length remainder)) of
                     None \<Rightarrow> Inr (None, ''Expected binary operator'')
                   | Some (operator, remainder1) \<Rightarrow>
                       and_then (parse_prefix remainder1) (\<lambda>(second, remainder2).
                         case second of None \<Rightarrow> Inr (None, remainder2)
                         | Some b \<Rightarrow>
                           if remainder2 = [] \<or> hd remainder2 \<noteq> CHR '')''
                           then Inr (None, ''Expected closing parenthesis'')
                           else and_then (Formula_init operator (Some a) (Some b))
                                  (\<lambda>f. Inr (Some f, tl remainder2)))))
          else Inr (None, ''Invalid formula'')))"
  by pat_completeness auto

lemma scan_decimal_ge: "index \<le> scan_decimal string index"
proof (induction string index rule: scan_decimal.induct)
  case (1 string index)
  show ?case
  proof (cases "index < length string \<and> isdecimal_char (string ! index)")
    case True
    with "1.IH" have "index + 1 \<le> scan_decimal string (index + 1)" by simp
    with True show ?thesis by (simp add: scan_decimal.simps [of string index])
  next
    case False
    then show ?thesis by (auto simp: scan_decimal.simps [of string index])
  qed
qed

lemma parse_variable_shorter:
  assumes "parse_variable (c # cs) = Inr (Some (f, rest))"
  shows "length rest < length (c # cs)"
proof -
  have "1 \<le> scan_decimal (c # cs) 1" by (rule scan_decimal_ge)
  with assms show ?thesis
    by (auto simp: parse_variable_def Let_def and_then_eq_Inr split: if_splits)
qed

lemma match_operator_shorter:
  "match_operator remainder n = Some (operator, rest) \<Longrightarrow> length rest < length remainder"
proof (induction n)
  case 0
  then show ?case by simp
next
  case (Suc n)
  show ?case
  proof (cases "is_binary (take (Suc n) remainder)")
    case True
    then have "remainder \<noteq> []" by (auto simp: is_binary_def)
    with True Suc.prems show ?thesis by (auto simp: Let_def)
  next
    case False
    with Suc show ?thesis by (simp add: Let_def)
  qed
qed

lemma parse_prefix_shorter:
  "parse_prefix_dom string \<Longrightarrow> parse_prefix string = Inr (Some f, rest)
     \<Longrightarrow> length rest < length string"
proof (induction string arbitrary: f rest rule: parse_prefix.pinduct)
  case 1
  then show ?case by (simp add: parse_prefix.psimps)
next
  case (2 c cs)
  show ?case
  proof (cases "is_constant [c]")
    case True
    with "2.prems" "2.hyps" show ?thesis
      by (auto simp: parse_prefix.psimps and_then_eq_Inr)
  next
    case nc: False
    from "2.prems" "2.hyps" nc obtain var where var: "parse_variable (c # cs) = Inr var"
      by (auto simp: parse_prefix.psimps and_then_eq_Inr)
    show ?thesis
    proof (cases var)
      case (Some p)
      with "2.prems" "2.hyps" nc var parse_variable_shorter [of c cs "fst p" "snd p"]
      show ?thesis
        by (cases p) (auto simp: parse_prefix.psimps and_then_eq_Inr)
    next
      case None
      show ?thesis
      proof (cases "is_unary [c]")
        case True
        with "2.prems" "2.hyps" nc var None "2.IH"(1) [OF nc var None True]
        show ?thesis
          by (fastforce simp: parse_prefix.psimps and_then_eq_Inr split: option.splits)
      next
        case nu: False
        show ?thesis
        proof (cases "c = CHR ''(''")
          case False
          with "2.prems" "2.hyps" nc var None nu show ?thesis
            by (auto simp: parse_prefix.psimps)
        next
          case True
          from "2.prems" "2.hyps" nc var None nu True
          have eq: "and_then (parse_prefix cs) (\<lambda>(first, remainder).
              case first of None \<Rightarrow> Inr (None, remainder)
              | Some a \<Rightarrow>
                if remainder = [] then Inr (None, ''Expected binary operator'')
                else
                  (case match_operator remainder (min 3 (length remainder)) of
                     None \<Rightarrow> Inr (None, ''Expected binary operator'')
                   | Some (operator, remainder1) \<Rightarrow>
                       and_then (parse_prefix remainder1) (\<lambda>(second, remainder2).
                         case second of None \<Rightarrow> Inr (None, remainder2)
                         | Some b \<Rightarrow>
                           if remainder2 = [] \<or> hd remainder2 \<noteq> CHR '')''
                           then Inr (None, ''Expected closing parenthesis'')
                           else and_then (Formula_init operator (Some a) (Some b))
                                  (\<lambda>f. Inr (Some f, tl remainder2))))) = Inr (Some f, rest)"
            by (simp add: parse_prefix.psimps)
          then obtain first r1 where p1': "parse_prefix cs = Inr (first, r1)"
            by (cases "parse_prefix cs") auto
          with eq obtain a where a: "first = Some a"
            by (cases first) auto
          from eq p1' a have ne: "r1 \<noteq> []"
            by (auto split: if_splits)
          from eq p1' a ne obtain operator r2 where
            m: "match_operator r1 (min 3 (length r1)) = Some (operator, r2)"
            by (cases "match_operator r1 (min 3 (length r1))") auto
          from eq p1' a ne m obtain second r3 where p2': "parse_prefix r2 = Inr (second, r3)"
            by (cases "parse_prefix r2") auto
          from eq p1' a ne m p2' obtain b where b: "second = Some b"
            by (cases second) auto
          from eq p1' a ne m p2' b have r3: "r3 \<noteq> []" and rest: "rest = tl r3"
            by (auto split: if_splits simp: and_then_eq_Inr)
          note p1 = p1' [unfolded a] and p2 = p2' [unfolded b]
          have "length r1 < length cs"
            using "2.IH"(2) [OF nc var None nu True p1] .
          moreover have "length r2 < length r1"
            using m by (rule match_operator_shorter)
          moreover have "length r3 < length r2"
            using "2.IH"(3) [OF nc var None nu True p1 _ _ ne m _ p2] by simp
          ultimately show ?thesis using rest by simp
        qed
      qed
    qed
  qed
qed

termination parse_prefix
proof (relation "measure length", goal_cases)
  case 1
  then show ?case by simp
next
  case (2 c cs v)
  then show ?case by simp
next
  case (3 c cs v)
  then show ?case by simp
next
  case (4 c cs v va x y x2 x2a xa ya)
  then have "length y < length cs"
    using parse_prefix_shorter [of cs x2 y] by simp
  moreover from 4 have "length ya < length y"
    using match_operator_shorter [of y "min 3 (length y)" xa ya] by simp
  ultimately show ?case by simp
qed

declare parse_prefix.simps [simp del]

text \<open>\<open>Formula.is_formula\<close> and \<open>Formula.parse\<close>.\<close>

definition is_formula :: "string \<Rightarrow> error + bool" where
  "is_formula string =
     and_then (parse_prefix string) (\<lambda>(formula, remainder).
       Inr (formula \<noteq> None \<and> remainder = []))"

definition parse :: "string \<Rightarrow> error + Formula" where
  "parse string =
     and_then (is_formula string) (\<lambda>ok.
       if \<not> ok then Inl AssertionError
       else and_then (parse_prefix string) (\<lambda>(formula, remainder).
         case formula of None \<Rightarrow> Inl AssertionError
         | Some f \<Rightarrow> if remainder = [] then Inr f else Inl AssertionError))"

text \<open>The local function \<open>parse_prefix\<close> of \<open>Formula.parse_polish\<close>.\<close>

function polish_parse_prefix :: "string \<Rightarrow> error + (Formula option \<times> string)" where
  "polish_parse_prefix [] = Inr (None, ''Unexpected end of input'')"
| "polish_parse_prefix (c # cs) =
     (if is_constant [c] then
        and_then (Formula_init [c] None None) (\<lambda>f. Inr (Some f, cs))
      else and_then (parse_variable (c # cs)) (\<lambda>var.
        case var of Some (f, rest) \<Rightarrow> Inr (Some f, rest)
        | None \<Rightarrow>
          if is_unary [c] then
            and_then (polish_parse_prefix cs) (\<lambda>(formula, remainder).
              case formula of None \<Rightarrow> Inr (None, remainder)
              | Some g \<Rightarrow> and_then (Formula_init [c] (Some g) None)
                           (\<lambda>f. Inr (Some f, remainder)))
          else
            (case match_operator (c # cs) (min 3 (length (c # cs))) of
               None \<Rightarrow> Inr (None, ''Invalid formula'')
             | Some (operator, remainder) \<Rightarrow>
                 and_then (polish_parse_prefix remainder) (\<lambda>(first, remainder1).
                   case first of None \<Rightarrow> Inr (None, remainder1)
                   | Some a \<Rightarrow>
                       and_then (polish_parse_prefix remainder1) (\<lambda>(second, remainder2).
                         case second of None \<Rightarrow> Inr (None, remainder2)
                         | Some b \<Rightarrow>
                             and_then (Formula_init operator (Some a) (Some b))
                               (\<lambda>f. Inr (Some f, remainder2)))))))"
  by pat_completeness auto


lemma polish_parse_prefix_shorter:
  "polish_parse_prefix_dom string \<Longrightarrow> polish_parse_prefix string = Inr (Some f, rest)
     \<Longrightarrow> length rest < length string"
proof (induction string arbitrary: f rest rule: polish_parse_prefix.pinduct)
  case 1
  then show ?case by (simp add: polish_parse_prefix.psimps)
next
  case (2 c cs)
  show ?case
  proof (cases "is_constant [c]")
    case True
    with "2.prems" "2.hyps" show ?thesis
      by (auto simp: polish_parse_prefix.psimps and_then_eq_Inr)
  next
    case nc: False
    from "2.prems" "2.hyps" nc obtain var where var: "parse_variable (c # cs) = Inr var"
      by (auto simp: polish_parse_prefix.psimps and_then_eq_Inr)
    show ?thesis
    proof (cases var)
      case (Some p)
      with "2.prems" "2.hyps" nc var parse_variable_shorter [of c cs "fst p" "snd p"]
      show ?thesis
        by (cases p) (auto simp: polish_parse_prefix.psimps and_then_eq_Inr)
    next
      case None
      show ?thesis
      proof (cases "is_unary [c]")
        case True
        with "2.prems" "2.hyps" nc var None "2.IH"(1) [OF nc var None True]
        show ?thesis
          by (fastforce simp: polish_parse_prefix.psimps and_then_eq_Inr split: option.splits)
      next
        case nu: False
        from "2.prems" "2.hyps" nc var None nu
        have eq: "(case match_operator (c # cs) (min 3 (length (c # cs))) of
               None \<Rightarrow> Inr (None, ''Invalid formula'')
             | Some (operator, remainder) \<Rightarrow>
                 and_then (polish_parse_prefix remainder) (\<lambda>(first, remainder1).
                   case first of None \<Rightarrow> Inr (None, remainder1)
                   | Some a \<Rightarrow>
                       and_then (polish_parse_prefix remainder1) (\<lambda>(second, remainder2).
                         case second of None \<Rightarrow> Inr (None, remainder2)
                         | Some b \<Rightarrow>
                             and_then (Formula_init operator (Some a) (Some b))
                               (\<lambda>f. Inr (Some f, remainder2))))) = Inr (Some f, rest)"
          by (simp add: polish_parse_prefix.psimps)
        then obtain operator r1 where
          m: "match_operator (c # cs) (min 3 (length (c # cs))) = Some (operator, r1)"
          by (cases "match_operator (c # cs) (min 3 (length (c # cs)))") auto
        from eq m obtain first r2 where p1': "polish_parse_prefix r1 = Inr (first, r2)"
          by (cases "polish_parse_prefix r1") auto
        from eq m p1' obtain a where a: "first = Some a"
          by (cases first) auto
        from eq m p1' a obtain second r3 where p2': "polish_parse_prefix r2 = Inr (second, r3)"
          by (cases "polish_parse_prefix r2") auto
        from eq m p1' a p2' obtain b where b: "second = Some b"
          by (cases second) auto
        from eq m p1' a p2' b have rest: "rest = r3"
          by (auto simp: and_then_eq_Inr)
        note p1 = p1' [unfolded a] and p2 = p2' [unfolded b]
        have "length r1 < length (c # cs)"
          using m by (rule match_operator_shorter)
        moreover have "length r2 < length r1"
          using "2.IH"(2) [OF nc var None nu m _ p1] by simp
        moreover have "length r3 < length r2"
          using "2.IH"(3) [OF nc var None nu m _ p1 _ _ p2] by simp
        ultimately show ?thesis using rest by simp
      qed
    qed
  qed
qed

termination polish_parse_prefix
proof (relation "measure length", goal_cases)
  case 1
  then show ?case by simp
next
  case (2 c cs v)
  then show ?case by simp
next
  case (3 c cs v x2 x y)
  then show ?case
    using match_operator_shorter [of "c # cs" "min 3 (length (c # cs))" x y] by simp
next
  case (4 c cs v x2 x y va xa ya x2a)
  then have "length y < length (c # cs)"
    using match_operator_shorter [of "c # cs" "min 3 (length (c # cs))" x y] by simp
  moreover from 4 have "length ya < length y"
    using polish_parse_prefix_shorter [of y x2a ya] by simp
  ultimately show ?case by simp
qed

declare polish_parse_prefix.simps [simp del]

text \<open>\<open>Formula.parse_polish\<close>.\<close>

definition parse_polish :: "string \<Rightarrow> error + Formula" where
  "parse_polish string =
     and_then (polish_parse_prefix string) (\<lambda>(formula, remainder).
       case formula of None \<Rightarrow> Inl AssertionError
       | Some f \<Rightarrow> if remainder = [] then Inr f else Inl AssertionError)"

section \<open>Substitution\<close>

text \<open>
  A substitution map is a Python dictionary from strings to formulas: an association list
  in insertion order, read with \<open>map_of\<close>. The loop
  \<open>for variable in substitution_map: assert is_variable(variable)\<close> runs over its keys.
\<close>

fun assert_variables :: "string list \<Rightarrow> error + unit" where
  "assert_variables [] = Inr ()"
| "assert_variables (variable # rest) =
     and_then (is_variable variable) (\<lambda>v.
       if v then assert_variables rest else Inl AssertionError)"

text \<open>\<open>Formula.substitute_variables\<close>.\<close>

fun substitute_variables :: "Formula \<Rightarrow> (string \<times> Formula) list \<Rightarrow> error + Formula" where
  "substitute_variables (Formula root first second) substitution_map =
     and_then (assert_variables (map fst substitution_map)) (\<lambda>_.
     and_then (is_variable root) (\<lambda>v.
       if v then
         (case map_of substitution_map root of
            Some replacement \<Rightarrow> Inr replacement
          | None \<Rightarrow> Formula_init root None None)
       else if is_constant root then Formula_init root None None
       else if is_unary root then
         (case first of None \<Rightarrow> Inl AttributeError
          | Some f \<Rightarrow> and_then (substitute_variables f substitution_map) (\<lambda>f'.
              Formula_init root (Some f') None))
       else if \<not> is_binary root then Inl AssertionError
       else
         (case first of None \<Rightarrow> Inl AttributeError
          | Some f \<Rightarrow> and_then (substitute_variables f substitution_map) (\<lambda>f'.
              (case second of None \<Rightarrow> Inl AttributeError
               | Some g \<Rightarrow> and_then (substitute_variables g substitution_map) (\<lambda>g'.
                   Formula_init root (Some f') (Some g')))))))"

text \<open>
  The loop at the head of \<open>Formula.substitute_operators\<close>, over the keys of the map:
  each key is a constant or an operator, and the variables of its template are among
  \<open>p\<close> and \<open>q\<close>.
\<close>

fun assert_operators :: "(string \<times> Formula) list \<Rightarrow> string list \<Rightarrow> error + unit" where
  "assert_operators substitution_map [] = Inr ()"
| "assert_operators substitution_map (operator # rest) =
     (if \<not> (is_constant operator \<or> is_unary operator \<or> is_binary operator)
      then Inl AssertionError
      else
        (case map_of substitution_map operator of None \<Rightarrow> Inl KeyError
         | Some template \<Rightarrow> and_then (variables template) (\<lambda>vs.
             if vs \<subseteq> {''p'', ''q''} then assert_operators substitution_map rest
             else Inl AssertionError)))"

text \<open>\<open>Formula.substitute_operators\<close>.\<close>

fun substitute_operators :: "Formula \<Rightarrow> (string \<times> Formula) list \<Rightarrow> error + Formula" where
  "substitute_operators (Formula root first second) substitution_map =
     and_then (assert_operators substitution_map (map fst substitution_map)) (\<lambda>_.
     and_then (is_variable root) (\<lambda>v.
       if v then Formula_init root None None
       else if is_constant root then
         (case map_of substitution_map root of
            Some template \<Rightarrow> Inr template
          | None \<Rightarrow> Formula_init root None None)
       else if is_unary root then
         (case first of None \<Rightarrow> Inl AttributeError
          | Some f \<Rightarrow> and_then (substitute_operators f substitution_map) (\<lambda>substituted_first.
              (case map_of substitution_map root of
                 Some template \<Rightarrow>
                   substitute_variables template [(''p'', substituted_first)]
               | None \<Rightarrow> Formula_init root (Some substituted_first) None)))
       else if \<not> is_binary root then Inl AssertionError
       else
         (case first of None \<Rightarrow> Inl AttributeError
          | Some f \<Rightarrow> and_then (substitute_operators f substitution_map) (\<lambda>substituted_first.
              (case second of None \<Rightarrow> Inl AttributeError
               | Some g \<Rightarrow>
                   and_then (substitute_operators g substitution_map) (\<lambda>substituted_second.
                     (case map_of substitution_map root of
                        Some template \<Rightarrow>
                          substitute_variables template
                            [(''p'', substituted_first), (''q'', substituted_second)]
                      | None \<Rightarrow>
                          Formula_init root (Some substituted_first)
                            (Some substituted_second))))))))"

section \<open>Semantics (propositions/semantics.py)\<close>

text \<open>
  A model is a Python dictionary from variable names to truth values: an association
  list in insertion order. \<open>model[key]\<close> raises KeyError on a missing key.
\<close>

type_synonym Model = "(string \<times> bool) list"

fun is_model_keys :: "string list \<Rightarrow> error + bool" where
  "is_model_keys [] = Inr True"
| "is_model_keys (key # rest) =
     and_then (is_variable key) (\<lambda>v. if \<not> v then Inr False else is_model_keys rest)"

definition is_model :: "Model \<Rightarrow> error + bool" where
  "is_model model = is_model_keys (map fst model)"

text \<open>The module-level function \<open>variables(model)\<close>.\<close>

definition model_variables :: "Model \<Rightarrow> error + string set" where
  "model_variables model =
     and_then (is_model model) (\<lambda>ok.
       if \<not> ok then Inl AssertionError else Inr (set (map fst model)))"

definition getitem :: "('k \<times> 'v) list \<Rightarrow> 'k \<Rightarrow> error + 'v" where
  "getitem d key = (case map_of d key of None \<Rightarrow> Inl KeyError | Some v \<Rightarrow> Inr v)"

text \<open>\<open>evaluate\<close>.\<close>

fun evaluate :: "Formula \<Rightarrow> Model \<Rightarrow> error + bool" where
  "evaluate (Formula root first second) model =
     and_then (is_model model) (\<lambda>ok.
     if \<not> ok then Inl AssertionError else
     and_then (variables (Formula root first second)) (\<lambda>vs.
     and_then (model_variables model) (\<lambda>keys.
     if \<not> vs \<subseteq> keys then Inl AssertionError
     else if is_constant root then Inr (root = ''T'')
     else and_then (is_variable root) (\<lambda>v.
       if v then getitem model root
       else if is_unary root then
         (case first of None \<Rightarrow> Inl AttributeError
          | Some f \<Rightarrow> and_then (evaluate f model) (\<lambda>b. Inr (\<not> b)))
       else if \<not> is_binary root then Inl AssertionError
       else
         (case first of None \<Rightarrow> Inl AttributeError
          | Some f \<Rightarrow> and_then (evaluate f model) (\<lambda>first_value.
              (case second of None \<Rightarrow> Inl AttributeError
               | Some g \<Rightarrow> and_then (evaluate g model) (\<lambda>second_value.
                   if root = ''&'' then Inr (first_value \<and> second_value)
                   else if root = ''|'' then Inr (first_value \<or> second_value)
                   else if root = ''->'' then Inr (\<not> first_value \<or> second_value)
                   else if root = ''+'' then Inr (first_value \<noteq> second_value)
                   else if root = ''<->'' then Inr (first_value = second_value)
                   else if root = ''-&'' then Inr (\<not> (first_value \<and> second_value))
                   else if root = ''-|'' then Inr (\<not> (first_value \<or> second_value))
                   else Inl ValueError))))))))"

text \<open>
  \<open>itertools.product([False, True], repeat=n)\<close>: all tuples of length \<open>n\<close>, the
  rightmost element advancing first.
\<close>

fun product_repeat :: "'a list \<Rightarrow> nat \<Rightarrow> 'a list list" where
  "product_repeat pool 0 = [[]]"
| "product_repeat pool (Suc n) =
     concat (map (\<lambda>x. map (\<lambda>t. x # t) (product_repeat pool n)) pool)"

text \<open>
  \<open>dict(zip(keys, values))\<close>: the pairs are inserted in order; inserting an existing
  key replaces its value and keeps its position.
\<close>

definition dict_zip :: "'k list \<Rightarrow> 'v list \<Rightarrow> ('k \<times> 'v) list" where
  "dict_zip keys vals = fold (\<lambda>(k, v) d. AList.update k v d) (zip keys vals) []"

text \<open>\<open>all_models\<close>: the generator's models, as the list that iterating it produces.\<close>

definition all_models :: "string list \<Rightarrow> error + Model list" where
  "all_models vars =
     and_then (assert_variables vars) (\<lambda>_.
       Inr (map (\<lambda>vals. dict_zip vars vals) (product_repeat [False, True] (length vars))))"

text \<open>\<open>truth_values\<close>, as the list that iterating the generator to its end produces.\<close>

fun truth_values :: "Formula \<Rightarrow> Model list \<Rightarrow> error + bool list" where
  "truth_values formula [] = Inr []"
| "truth_values formula (model # models) =
     and_then (evaluate formula model) (\<lambda>b.
       and_then (truth_values formula models) (\<lambda>bs. Inr (b # bs)))"

text \<open>
  \<open>all(truth_values(formula, models))\<close> and \<open>any(truth_values(formula, models))\<close>: the
  generator is consumed one model at a time and the loop stops at the first deciding value.
\<close>

fun all_truth_values :: "Formula \<Rightarrow> Model list \<Rightarrow> error + bool" where
  "all_truth_values formula [] = Inr True"
| "all_truth_values formula (model # models) =
     and_then (evaluate formula model) (\<lambda>b.
       if \<not> b then Inr False else all_truth_values formula models)"

fun any_truth_values :: "Formula \<Rightarrow> Model list \<Rightarrow> error + bool" where
  "any_truth_values formula [] = Inr False"
| "any_truth_values formula (model # models) =
     and_then (evaluate formula model) (\<lambda>b.
       if b then Inr True else any_truth_values formula models)"

text \<open>\<open>is_tautology\<close>, \<open>is_contradiction\<close> and \<open>is_satisfiable\<close>.\<close>

definition is_tautology :: "Formula \<Rightarrow> error + bool" where
  "is_tautology formula =
     and_then (variables formula) (\<lambda>vs.
     and_then (all_models (sorted_list_of_set vs)) (\<lambda>models.
       all_truth_values formula models))"

definition is_contradiction :: "Formula \<Rightarrow> error + bool" where
  "is_contradiction formula =
     and_then (variables formula) (\<lambda>vs.
     and_then (all_models (sorted_list_of_set vs)) (\<lambda>models.
     and_then (any_truth_values formula models) (\<lambda>b. Inr (\<not> b))))"

definition is_satisfiable :: "Formula \<Rightarrow> error + bool" where
  "is_satisfiable formula =
     and_then (variables formula) (\<lambda>vs.
     and_then (all_models (sorted_list_of_set vs)) (\<lambda>models.
       any_truth_values formula models))"

text \<open>
  Nested constructor calls: \<open>Formula(root)\<close>, \<open>Formula(root, first)\<close> and
  \<open>Formula(root, first, second)\<close> with argument expressions that may raise, evaluated
  from left to right before \<open>__init__\<close> runs.
\<close>

definition new_atom :: "string \<Rightarrow> error + Formula" where
  "new_atom root = Formula_init root None None"

definition new_unary :: "string \<Rightarrow> error + Formula \<Rightarrow> error + Formula" where
  "new_unary root first = and_then first (\<lambda>a. Formula_init root (Some a) None)"

definition new_binary :: "string \<Rightarrow> error + Formula \<Rightarrow> error + Formula \<Rightarrow> error + Formula" where
  "new_binary root first second =
     and_then first (\<lambda>a. and_then second (\<lambda>b. Formula_init root (Some a) (Some b)))"

text \<open>
  The loop of \<open>_synthesize_for_model\<close> over \<open>sorted(model.keys())\<close>, and the one of
  \<open>_synthesize_for_all_except_model\<close>.
\<close>

fun model_literals :: "Model \<Rightarrow> string list \<Rightarrow> error + Formula list" where
  "model_literals model [] = Inr []"
| "model_literals model (variable # rest) =
     and_then (getitem model variable) (\<lambda>b.
     and_then (if b then new_atom variable else new_unary ''~'' (new_atom variable)) (\<lambda>literal.
     and_then (model_literals model rest) (\<lambda>literals. Inr (literal # literals))))"

fun except_model_literals :: "Model \<Rightarrow> string list \<Rightarrow> error + Formula list" where
  "except_model_literals model [] = Inr []"
| "except_model_literals model (variable # rest) =
     and_then (getitem model variable) (\<lambda>b.
     and_then (if b then new_unary ''~'' (new_atom variable) else new_atom variable) (\<lambda>literal.
     and_then (except_model_literals model rest) (\<lambda>literals. Inr (literal # literals))))"

text \<open>
  The loops \<open>for literal in literals[1:]: formula = Formula(op, formula, literal)\<close> of the
  synthesis functions, for the operator \<open>op\<close>.
\<close>

fun join_formulas :: "string \<Rightarrow> Formula \<Rightarrow> Formula list \<Rightarrow> error + Formula" where
  "join_formulas op formula [] = Inr formula"
| "join_formulas op formula (literal # rest) =
     and_then (Formula_init op (Some formula) (Some literal)) (\<lambda>formula'.
       join_formulas op formula' rest)"

text \<open>\<open>_synthesize_for_model\<close>.\<close>

definition synthesize_for_model :: "Model \<Rightarrow> error + Formula" where
  "synthesize_for_model model =
     and_then (is_model model) (\<lambda>ok.
     if \<not> ok then Inl AssertionError
     else if \<not> length (map fst model) > 0 then Inl AssertionError
     else and_then (model_literals model (sort (map fst model))) (\<lambda>literals.
       case literals of [] \<Rightarrow> Inl IndexError
       | formula # rest \<Rightarrow> join_formulas ''&'' formula rest))"

text \<open>The loop of \<open>synthesize\<close> over \<open>zip(models, values)\<close> that collects the clauses.\<close>

fun synthesize_clauses :: "(Model \<times> bool) list \<Rightarrow> error + Formula list" where
  "synthesize_clauses [] = Inr []"
| "synthesize_clauses ((model, val) # rest) =
     (if val then
        and_then (synthesize_for_model model) (\<lambda>clause.
        and_then (synthesize_clauses rest) (\<lambda>clauses. Inr (clause # clauses)))
      else synthesize_clauses rest)"

text \<open>\<open>synthesize\<close>.\<close>

definition synthesize :: "string list \<Rightarrow> bool list \<Rightarrow> error + Formula" where
  "synthesize vars vals =
     (if \<not> length vars > 0 then Inl AssertionError
      else and_then (all_models vars) (\<lambda>models.
           and_then (synthesize_clauses (zip models vals)) (\<lambda>clauses.
             case clauses of
               [] \<Rightarrow> (let first_var = hd vars in
                      new_binary ''&'' (new_atom first_var)
                        (new_unary ''~'' (new_atom first_var)))
             | formula # rest \<Rightarrow> join_formulas ''|'' formula rest)))"

text \<open>\<open>_synthesize_for_all_except_model\<close>.\<close>

definition synthesize_for_all_except_model :: "Model \<Rightarrow> error + Formula" where
  "synthesize_for_all_except_model model =
     and_then (is_model model) (\<lambda>ok.
     if \<not> ok then Inl AssertionError
     else if \<not> length (map fst model) > 0 then Inl AssertionError
     else and_then (except_model_literals model (sort (map fst model))) (\<lambda>literals.
       case literals of [] \<Rightarrow> Inl IndexError
       | formula # rest \<Rightarrow> join_formulas ''|'' formula rest))"

fun synthesize_cnf_clauses :: "(Model \<times> bool) list \<Rightarrow> error + Formula list" where
  "synthesize_cnf_clauses [] = Inr []"
| "synthesize_cnf_clauses ((model, val) # rest) =
     (if \<not> val then
        and_then (synthesize_for_all_except_model model) (\<lambda>clause.
        and_then (synthesize_cnf_clauses rest) (\<lambda>clauses. Inr (clause # clauses)))
      else synthesize_cnf_clauses rest)"

text \<open>\<open>synthesize_cnf\<close>.\<close>

definition synthesize_cnf :: "string list \<Rightarrow> bool list \<Rightarrow> error + Formula" where
  "synthesize_cnf vars vals =
     (if \<not> length vars > 0 then Inl AssertionError
      else and_then (all_models vars) (\<lambda>models.
           and_then (synthesize_cnf_clauses (zip models vals)) (\<lambda>clauses.
             case clauses of
               [] \<Rightarrow> (let first_var = hd vars in
                      new_binary ''|'' (new_atom first_var)
                        (new_unary ''~'' (new_atom first_var)))
             | formula # rest \<Rightarrow> join_formulas ''&'' formula rest)))"

section \<open>Operator-basis converters (propositions/operators.py)\<close>

text \<open>\<open>to_not_and_or\<close>.\<close>

fun to_not_and_or :: "Formula \<Rightarrow> error + Formula" where
  "to_not_and_or (Formula root first second) =
     and_then (is_variable root) (\<lambda>v.
       if v then new_atom root
       else if is_constant root then
         and_then (new_atom ''p'') (\<lambda>p.
           if root = ''T'' then new_binary ''|'' (Inr p) (new_unary ''~'' (Inr p))
           else new_binary ''&'' (Inr p) (new_unary ''~'' (Inr p)))
       else if is_unary root then
         (case first of None \<Rightarrow> Inl AttributeError
          | Some f \<Rightarrow> new_unary ''~'' (to_not_and_or f))
       else if \<not> is_binary root then Inl AssertionError
       else
         (case first of None \<Rightarrow> Inl AttributeError
          | Some f \<Rightarrow> and_then (to_not_and_or f) (\<lambda>a.
              (case second of None \<Rightarrow> Inl AttributeError
               | Some g \<Rightarrow> and_then (to_not_and_or g) (\<lambda>b.
                   if root = ''&'' \<or> root = ''|'' then new_binary root (Inr a) (Inr b)
                   else if root = ''->'' then
                     new_binary ''|'' (new_unary ''~'' (Inr a)) (Inr b)
                   else if root = ''<->'' then
                     new_binary ''|''
                       (new_binary ''&'' (Inr a) (Inr b))
                       (new_binary ''&'' (new_unary ''~'' (Inr a)) (new_unary ''~'' (Inr b)))
                   else if root = ''+'' then
                     new_binary ''|''
                       (new_binary ''&'' (Inr a) (new_unary ''~'' (Inr b)))
                       (new_binary ''&'' (new_unary ''~'' (Inr a)) (Inr b))
                   else if root = ''-&'' then
                     new_unary ''~'' (new_binary ''&'' (Inr a) (Inr b))
                   else if root = ''-|'' then
                     new_unary ''~'' (new_binary ''|'' (Inr a) (Inr b))
                   else Inl ValueError)))))"

text \<open>
  The measure of the local \<open>convert\<close> functions: a constant counts more than any formula
  that a converter puts in its place.
\<close>

fun convert_measure :: "Formula \<Rightarrow> nat" where
  "convert_measure (Formula root first second) =
     (if is_constant root then 10 else 1) +
     (case first of None \<Rightarrow> 0 | Some f \<Rightarrow> convert_measure f) +
     (case second of None \<Rightarrow> 0 | Some g \<Rightarrow> convert_measure g)"

lemma to_not_and_or_constant:
  "is_constant root \<Longrightarrow> to_not_and_or (Formula root first second) = Inr g
     \<Longrightarrow> convert_measure g = 4"
  by (auto simp: is_constant_def is_variable_def new_atom_def new_unary_def new_binary_def
      Formula_init_def str_isdecimal_def is_unary_def is_binary_def split: if_splits)

text \<open>The local function \<open>convert\<close> of \<open>to_not_and\<close>, and \<open>to_not_and\<close>.\<close>

function to_not_and_convert :: "Formula \<Rightarrow> error + Formula" where
  "to_not_and_convert (Formula root first second) =
     and_then (is_variable root) (\<lambda>v.
       if v then new_atom root
       else if is_unary root then
         (case first of None \<Rightarrow> Inl AttributeError
          | Some f \<Rightarrow> new_unary ''~'' (to_not_and_convert f))
       else if is_binary root \<and> root = ''&'' then
         (case first of None \<Rightarrow> Inl AttributeError
          | Some f \<Rightarrow> and_then (to_not_and_convert f) (\<lambda>a.
              (case second of None \<Rightarrow> Inl AttributeError
               | Some g \<Rightarrow> and_then (to_not_and_convert g) (\<lambda>b.
                   new_binary ''&'' (Inr a) (Inr b)))))
       else if is_binary root \<and> root = ''|'' then
         (case first of None \<Rightarrow> Inl AttributeError
          | Some f \<Rightarrow> and_then (to_not_and_convert f) (\<lambda>left.
              (case second of None \<Rightarrow> Inl AttributeError
               | Some g \<Rightarrow> and_then (to_not_and_convert g) (\<lambda>right.
                   new_unary ''~''
                     (new_binary ''&'' (new_unary ''~'' (Inr left))
                        (new_unary ''~'' (Inr right)))))))
       else if is_constant root then
         and_then (to_not_and_or (Formula root first second)) (\<lambda>g. to_not_and_convert g)
       else Inl AssertionError)"
  by pat_completeness auto
termination
  by (relation "measure convert_measure")
     (auto simp del: to_not_and_or.simps dest!: to_not_and_or_constant)

definition to_not_and :: "Formula \<Rightarrow> error + Formula" where
  "to_not_and formula = and_then (to_not_and_or formula) (\<lambda>g. to_not_and_convert g)"

lemma to_not_and_constant:
  "is_constant root \<Longrightarrow> to_not_and (Formula root first second) = Inr g
     \<Longrightarrow> convert_measure g < 10"
  by (auto simp: to_not_and_def is_constant_def is_variable_def new_atom_def new_unary_def
      new_binary_def Formula_init_def str_isdecimal_def is_unary_def is_binary_def
      split: if_splits)

text \<open>The local function \<open>convert\<close> of \<open>to_nand\<close>, and \<open>to_nand\<close>.\<close>

function to_nand_convert :: "Formula \<Rightarrow> error + Formula" where
  "to_nand_convert (Formula root first second) =
     and_then (is_variable root) (\<lambda>v.
       if v then new_atom root
       else if is_unary root then
         (case first of None \<Rightarrow> Inl AttributeError
          | Some f \<Rightarrow> and_then (to_nand_convert f) (\<lambda>inner.
              new_binary ''-&'' (Inr inner) (Inr inner)))
       else if is_binary root \<and> root = ''&'' then
         (case first of None \<Rightarrow> Inl AttributeError
          | Some f \<Rightarrow> and_then (to_nand_convert f) (\<lambda>left.
              (case second of None \<Rightarrow> Inl AttributeError
               | Some g \<Rightarrow> and_then (to_nand_convert g) (\<lambda>right.
                   and_then (new_binary ''-&'' (Inr left) (Inr right)) (\<lambda>nand.
                     new_binary ''-&'' (Inr nand) (Inr nand))))))
       else if is_constant root then
         and_then (to_not_and (Formula root first second)) (\<lambda>g. to_nand_convert g)
       else Inl AssertionError)"
  by pat_completeness auto
termination
  by (relation "measure convert_measure")
     (auto simp del: to_not_and_or.simps to_not_and_convert.simps dest!: to_not_and_constant)

definition to_nand :: "Formula \<Rightarrow> error + Formula" where
  "to_nand formula = and_then (to_not_and formula) (\<lambda>g. to_nand_convert g)"

text \<open>The local function \<open>convert\<close> of \<open>to_implies_not\<close>, and \<open>to_implies_not\<close>.\<close>

function to_implies_not_convert :: "Formula \<Rightarrow> error + Formula" where
  "to_implies_not_convert (Formula root first second) =
     and_then (is_variable root) (\<lambda>v.
       if v then new_atom root
       else if is_unary root then
         (case first of None \<Rightarrow> Inl AttributeError
          | Some f \<Rightarrow> new_unary ''~'' (to_implies_not_convert f))
       else if is_binary root \<and> root = ''&'' then
         (case first of None \<Rightarrow> Inl AttributeError
          | Some f \<Rightarrow> and_then (to_implies_not_convert f) (\<lambda>left.
              (case second of None \<Rightarrow> Inl AttributeError
               | Some g \<Rightarrow> and_then (to_implies_not_convert g) (\<lambda>right.
                   new_unary ''~''
                     (new_binary ''->'' (Inr left) (new_unary ''~'' (Inr right)))))))
       else if is_binary root \<and> root = ''|'' then
         (case first of None \<Rightarrow> Inl AttributeError
          | Some f \<Rightarrow> and_then (to_implies_not_convert f) (\<lambda>left.
              (case second of None \<Rightarrow> Inl AttributeError
               | Some g \<Rightarrow> and_then (to_implies_not_convert g) (\<lambda>right.
                   new_binary ''->'' (new_unary ''~'' (Inr left)) (Inr right)))))
       else if is_constant root then
         and_then (to_not_and_or (Formula root first second)) (\<lambda>g. to_implies_not_convert g)
       else Inl AssertionError)"
  by pat_completeness auto
termination
  by (relation "measure convert_measure")
     (auto simp del: to_not_and_or.simps dest!: to_not_and_or_constant)

definition to_implies_not :: "Formula \<Rightarrow> error + Formula" where
  "to_implies_not formula = and_then (to_not_and_or formula) (\<lambda>g. to_implies_not_convert g)"

text \<open>The local function \<open>convert\<close> of \<open>to_implies_false\<close>, and \<open>to_implies_false\<close>.\<close>

fun to_implies_false_convert :: "Formula \<Rightarrow> error + Formula" where
  "to_implies_false_convert (Formula root first second) =
     and_then (is_variable root) (\<lambda>v.
       if v then new_atom root
       else if is_constant root then
         (if root = ''F'' then new_atom ''F''
          else new_binary ''->'' (new_atom ''F'') (new_atom ''F''))
       else if is_unary root then
         (case first of None \<Rightarrow> Inl AttributeError
          | Some f \<Rightarrow> and_then (to_implies_false_convert f) (\<lambda>inner.
              new_binary ''->'' (Inr inner) (new_atom ''F'')))
       else if is_binary root \<and> root = ''->'' then
         (case first of None \<Rightarrow> Inl AttributeError
          | Some f \<Rightarrow> and_then (to_implies_false_convert f) (\<lambda>a.
              (case second of None \<Rightarrow> Inl AttributeError
               | Some g \<Rightarrow> and_then (to_implies_false_convert g) (\<lambda>b.
                   new_binary ''->'' (Inr a) (Inr b)))))
       else Inl AssertionError)"

definition to_implies_false :: "Formula \<Rightarrow> error + Formula" where
  "to_implies_false formula =
     and_then (to_implies_not formula) (\<lambda>g. to_implies_false_convert g)"

section \<open>Basic facts about tokens and constructed formulas\<close>

abbreviation variable_name :: "string \<Rightarrow> bool" where
  "variable_name r \<equiv> is_variable r = Inr True"

lemma is_binary_iff:
  "is_binary r \<longleftrightarrow> r = ''&'' \<or> r = ''|'' \<or> r = ''->'' \<or> r = ''+'' \<or> r = ''<->''
     \<or> r = ''-&'' \<or> r = ''-|''"
  by (auto simp: is_binary_def)

lemma is_variable_nonempty: "r \<noteq> [] \<Longrightarrow> \<exists>b. is_variable r = Inr b"
  by (cases r) (auto simp: is_variable_def)

lemma variable_name_iff:
  "variable_name r \<longleftrightarrow>
     (\<exists>c cs. r = c # cs \<and> CHR ''p'' \<le> c \<and> c \<le> CHR ''z'' \<and> list_all isdecimal_char cs)"
  by (cases r) (auto simp: is_variable_def str_isdecimal_def)

lemma is_variable_constant [simp]: "is_constant r \<Longrightarrow> is_variable r = Inr False"
  by (auto simp: is_constant_def is_variable_def)

lemma is_variable_unary [simp]: "is_variable ''~'' = Inr False"
  by (simp add: is_variable_def)

lemma is_variable_binary [simp]: "is_binary r \<Longrightarrow> is_variable r = Inr False"
  by (auto simp: is_binary_iff is_variable_def)

lemma variable_not_constant: "variable_name r \<Longrightarrow> \<not> is_constant r"
  by (auto simp: is_constant_def is_variable_def)

lemma variable_not_unary: "variable_name r \<Longrightarrow> \<not> is_unary r"
  by (auto simp: is_unary_def is_variable_def)

lemma variable_not_binary: "variable_name r \<Longrightarrow> \<not> is_binary r"
  by (auto simp: is_binary_iff is_variable_def)

lemma binary_not_constant [simp]: "is_binary r \<Longrightarrow> \<not> is_constant r"
  by (auto simp: is_binary_iff is_constant_def)

lemma binary_not_unary [simp]: "is_binary r \<Longrightarrow> \<not> is_unary r"
  by (auto simp: is_binary_iff is_unary_def)

lemma constant_not_unary [simp]: "is_constant r \<Longrightarrow> \<not> is_unary r"
  by (auto simp: is_constant_def is_unary_def)

lemma unary_facts [simp]:
  "is_unary ''~''" "\<not> is_constant ''~''" "\<not> is_binary ''~''"
  by (simp_all add: is_unary_def is_constant_def is_binary_def)

lemma Formula_init_variable [simp]:
  "variable_name r \<Longrightarrow> Formula_init r None None = Inr (Atom r)"
  by (simp add: Formula_init_def)

lemma Formula_init_constant [simp]:
  "is_constant r \<Longrightarrow> Formula_init r None None = Inr (Atom r)"
  by (simp add: Formula_init_def)

lemma Formula_init_unary [simp]: "Formula_init ''~'' (Some a) None = Inr (Neg a)"
  by (simp add: Formula_init_def)

lemma Formula_init_binary [simp]:
  "is_binary r \<Longrightarrow> Formula_init r (Some a) (Some b) = Inr (Binary r a b)"
  by (simp add: Formula_init_def)

lemma new_atom_simps [simp]:
  "variable_name r \<Longrightarrow> new_atom r = Inr (Atom r)"
  "is_constant r \<Longrightarrow> new_atom r = Inr (Atom r)"
  by (simp_all add: new_atom_def)

lemma new_unary_simp [simp]: "new_unary ''~'' (Inr a) = Inr (Neg a)"
  by (simp add: new_unary_def)

lemma new_binary_simp [simp]:
  "is_binary r \<Longrightarrow> new_binary r (Inr a) (Inr b) = Inr (Binary r a b)"
  by (simp add: new_binary_def)

lemma constructed_iff:
  "constructed (Formula r a b) \<longleftrightarrow>
     (variable_name r \<or> is_constant r) \<and> a = None \<and> b = None
     \<or> r = ''~'' \<and> (\<exists>f. a = Some f \<and> constructed f) \<and> b = None
     \<or> is_binary r \<and> (\<exists>f g. a = Some f \<and> b = Some g \<and> constructed f \<and> constructed g)"
proof (cases "is_variable r")
  case (Inl e)
  then have "r = []" by (cases r) (auto simp: is_variable_def)
  with Inl show ?thesis
    by (auto simp: Formula_init_def is_constant_def is_binary_def)
next
  case (Inr v)
  then show ?thesis
    by (cases a; cases b)
       (auto simp: Formula_init_def is_unary_def split: if_splits)
qed

lemma constructed_Atom [simp]:
  "constructed (Atom r) \<longleftrightarrow> variable_name r \<or> is_constant r"
  by (auto simp: constructed_iff simp del: constructed.simps)

lemma constructed_Neg [simp]: "constructed (Neg a) \<longleftrightarrow> constructed a"
  by (auto simp: constructed_iff simp del: constructed.simps)

lemma constructed_Binary [simp]:
  "constructed (Binary r a b) \<longleftrightarrow> is_binary r \<and> constructed a \<and> constructed b"
  by (auto simp: constructed_iff simp del: constructed.simps)

declare constructed.simps [simp del]

lemma constructed_induct [consumes 1, case_names Variable Constant Neg Binary]:
  assumes "constructed f"
    and "\<And>r. variable_name r \<Longrightarrow> P (Atom r)"
    and "\<And>r. is_constant r \<Longrightarrow> P (Atom r)"
    and "\<And>a. constructed a \<Longrightarrow> P a \<Longrightarrow> P (Neg a)"
    and "\<And>r a b. is_binary r \<Longrightarrow> constructed a \<Longrightarrow> constructed b \<Longrightarrow> P a \<Longrightarrow> P b
           \<Longrightarrow> P (Binary r a b)"
  shows "P f"
  using assms(1)
proof (induction f)
  case (Formula r a b)
  from Formula.prems consider
    "(variable_name r \<or> is_constant r) \<and> a = None \<and> b = None"
    | f where "r = ''~''" "a = Some f" "constructed f" "b = None"
    | f g where "is_binary r" "a = Some f" "b = Some g" "constructed f" "constructed g"
    by (auto simp: constructed_iff)
  then show ?case
  proof cases
    case 1
    with assms(2,3) show ?thesis by auto
  next
    case 2
    with Formula.IH(1) [of f] assms(4) show ?thesis by simp
  next
    case 3
    with Formula.IH(1) [of f] Formula.IH(2) [of g] assms(5) show ?thesis by simp
  qed
qed

lemma constructed_cases [consumes 1, case_names Variable Constant Neg Binary]:
  assumes "constructed f"
  obtains r where "f = Atom r" "variable_name r"
  | r where "f = Atom r" "is_constant r"
  | a where "f = Neg a" "constructed a"
  | r a b where "f = Binary r a b" "is_binary r" "constructed a" "constructed b"
  using assms by (cases f) (auto simp: constructed_iff)

subsection \<open>The tree functions on the three shapes\<close>

lemma repr_simps [simp]:
  "variable_name r \<Longrightarrow> repr (Atom r) = Inr r"
  "is_constant r \<Longrightarrow> repr (Atom r) = Inr r"
  "repr (Neg a) = and_then (repr a) (\<lambda>s. Inr (''~'' @ s))"
  "is_binary r \<Longrightarrow> repr (Binary r a b) =
     and_then (repr a) (\<lambda>s1. and_then (repr b) (\<lambda>s2. Inr (''('' @ s1 @ r @ s2 @ '')'')))"
  by simp_all

lemma polish_simps [simp]:
  "variable_name r \<Longrightarrow> polish (Atom r) = Inr r"
  "is_constant r \<Longrightarrow> polish (Atom r) = Inr r"
  "polish (Neg a) = and_then (polish a) (\<lambda>s. Inr (''~'' @ s))"
  "is_binary r \<Longrightarrow> polish (Binary r a b) =
     and_then (polish a) (\<lambda>s1. and_then (polish b) (\<lambda>s2. Inr (r @ s1 @ s2)))"
  by simp_all

lemma variables_simps [simp]:
  "variable_name r \<Longrightarrow> variables (Atom r) = Inr {r}"
  "is_constant r \<Longrightarrow> variables (Atom r) = Inr {}"
  "variables (Neg a) = variables a"
  "is_binary r \<Longrightarrow> variables (Binary r a b) =
     and_then (variables a) (\<lambda>A. and_then (variables b) (\<lambda>B. Inr (A \<union> B)))"
  by simp_all

lemma operators_simps [simp]:
  "variable_name r \<Longrightarrow> operators (Atom r) = Inr {}"
  "is_constant r \<Longrightarrow> operators (Atom r) = Inr {r}"
  "operators (Neg a) = and_then (operators a) (\<lambda>A. Inr ({''~''} \<union> A))"
  "is_binary r \<Longrightarrow> operators (Binary r a b) =
     and_then (operators a) (\<lambda>A. and_then (operators b) (\<lambda>B. Inr ({r} \<union> A \<union> B)))"
  by simp_all

declare repr.simps [simp del] polish.simps [simp del] variables.simps [simp del]
  operators.simps [simp del]

lemma repr_total: "constructed f \<Longrightarrow> \<exists>s. repr f = Inr s"
  by (induction f rule: constructed_induct) auto

lemma polish_total: "constructed f \<Longrightarrow> \<exists>s. polish f = Inr s"
  by (induction f rule: constructed_induct) auto

lemma variables_total: "constructed f \<Longrightarrow> \<exists>V. variables f = Inr V \<and> finite V"
  by (induction f rule: constructed_induct) auto

lemma operators_total: "constructed f \<Longrightarrow> \<exists>ops. operators f = Inr ops"
  by (induction f rule: constructed_induct) auto

section \<open>The parsers: scanning and operator matching\<close>

lemma scan_decimal_takeWhile:
  "index \<le> length string \<Longrightarrow>
     scan_decimal string index = index + length (takeWhile isdecimal_char (drop index string))"
proof (induction string index rule: scan_decimal.induct)
  case (1 string index)
  show ?case
  proof (cases "index < length string \<and> isdecimal_char (string ! index)")
    case True
    then have d: "drop index string = string ! index # drop (Suc index) string"
      by (simp add: Cons_nth_drop_Suc)
    from True "1.IH" have "scan_decimal string (index + 1) =
        index + 1 + length (takeWhile isdecimal_char (drop (index + 1) string))"
      by simp
    with True d show ?thesis
      by (simp add: scan_decimal.simps [of string index])
  next
    case False
    show ?thesis
    proof (cases "index < length string")
      case True
      then have "drop index string = string ! index # drop (Suc index) string"
        by (simp add: Cons_nth_drop_Suc)
      with True False show ?thesis
        by (simp add: scan_decimal.simps [of string index])
    next
      case False
      then show ?thesis
        by (simp add: scan_decimal.simps [of string index])
    qed
  qed
qed

lemma scan_decimal_variable:
  assumes "list_all isdecimal_char ds" and "rest = [] \<or> \<not> isdecimal_char (hd rest)"
  shows "scan_decimal (c # ds @ rest) 1 = Suc (length ds)"
proof -
  have "takeWhile isdecimal_char (ds @ rest) = ds"
    using assms by (cases rest) (auto simp: list_all_iff takeWhile_append2)
  then show ?thesis
    by (simp add: scan_decimal_takeWhile)
qed

lemma parse_variable_name:
  assumes "variable_name r" and "rest = [] \<or> \<not> isdecimal_char (hd rest)"
  shows "parse_variable (r @ rest) = Inr (Some (Atom r, rest))"
proof -
  from assms(1) obtain c ds where r: "r = c # ds" and c: "CHR ''p'' \<le> c" "c \<le> CHR ''z''"
    and ds: "list_all isdecimal_char ds"
    by (auto simp: variable_name_iff)
  have "scan_decimal (c # ds @ rest) 1 = Suc (length ds)"
    using ds assms(2) by (rule scan_decimal_variable)
  with r c assms(1) show ?thesis
    by (simp add: parse_variable_def)
qed

lemma parse_variable_other:
  "\<not> (CHR ''p'' \<le> c \<and> c \<le> CHR ''z'') \<Longrightarrow> parse_variable (c # cs) = Inr None"
  by (auto simp: parse_variable_def)

text \<open>The variable branch never raises, and what it returns is a variable name.\<close>

lemma parse_variable_cases:
  "parse_variable (c # cs) = Inr None \<and> \<not> (CHR ''p'' \<le> c \<and> c \<le> CHR ''z'')
   \<or> (\<exists>v rest. parse_variable (c # cs) = Inr (Some (Atom v, rest)) \<and> variable_name v
         \<and> c # cs = v @ rest \<and> CHR ''p'' \<le> c \<and> c \<le> CHR ''z'')"
proof (cases "CHR ''p'' \<le> c \<and> c \<le> CHR ''z''")
  case False
  then show ?thesis by (auto simp: parse_variable_def)
next
  case True
  define index where "index = scan_decimal (c # cs) 1"
  have index: "index = Suc (length (takeWhile isdecimal_char cs))"
    by (simp add: index_def scan_decimal_takeWhile)
  then have tk: "take index (c # cs) = c # takeWhile isdecimal_char cs"
    by (simp add: take_Suc_Cons) (metis append_eq_conv_conj takeWhile_dropWhile_id)
  have "list_all isdecimal_char (takeWhile isdecimal_char cs)"
    by (auto simp: list_all_iff dest: set_takeWhileD)
  with True tk have v: "variable_name (take index (c # cs))"
    by (auto simp: variable_name_iff)
  with True have "parse_variable (c # cs) =
      Inr (Some (Atom (take index (c # cs)), drop index (c # cs)))"
    by (simp add: parse_variable_def Let_def index_def)
  moreover have "c # cs = take index (c # cs) @ drop index (c # cs)"
    by simp
  ultimately show ?thesis
    using v True by blast
qed

lemma match_operator_longest:
  "match_operator s (min 3 (length s)) =
     (if is_binary (take 3 s) then Some (take 3 s, drop 3 s)
      else if is_binary (take 2 s) then Some (take 2 s, drop 2 s)
      else if is_binary (take 1 s) then Some (take 1 s, drop 1 s)
      else None)"
proof -
  consider "length s = 0" | "length s = 1" | "length s = 2" | "3 \<le> length s"
    by arith
  then show ?thesis
  proof cases
    case 1
    then show ?thesis by (simp add: is_binary_def)
  next
    case 2
    then show ?thesis by (simp add: Let_def)
  next
    case 3
    then show ?thesis by (simp add: Let_def numeral_2_eq_2)
  next
    case 4
    then have "min 3 (length s) = Suc (Suc (Suc 0))" by simp
    then show ?thesis by (simp add: Let_def numeral_3_eq_3 numeral_2_eq_2)
  qed
qed

lemma match_operator_binary:
  assumes "is_binary r"
  shows "match_operator (r @ t) (min 3 (length (r @ t))) = Some (r, t)"
proof -
  from assms consider "r = ''&''" | "r = ''|''" | "r = ''->''" | "r = ''+''" | "r = ''<->''"
    | "r = ''-&''" | "r = ''-|''"
    by (auto simp: is_binary_iff)
  then show ?thesis
    unfolding match_operator_longest
    by cases (simp_all add: is_binary_def)
qed

lemma binary_head: "is_binary r \<Longrightarrow> r \<noteq> [] \<and> \<not> isdecimal_char (hd r)"
  by (auto simp: is_binary_iff isdecimal_char_def)

lemma match_operator_Some:
  "match_operator s n = Some (operator, rest) \<Longrightarrow> is_binary operator \<and> s = operator @ rest"
  by (induction n) (auto simp: Let_def split: if_splits)

section \<open>The infix parser\<close>

lemma parse_prefix_constant:
  "is_constant [c] \<Longrightarrow> parse_prefix (c # cs) = Inr (Some (Atom [c]), cs)"
  by (simp add: parse_prefix.simps)

lemma parse_prefix_variable:
  assumes "variable_name r" and "rest = [] \<or> \<not> isdecimal_char (hd rest)"
  shows "parse_prefix (r @ rest) = Inr (Some (Atom r), rest)"
proof -
  from assms(1) obtain c ds where r: "r = c # ds" and c: "CHR ''p'' \<le> c"
    by (auto simp: variable_name_iff)
  from c have "\<not> is_constant [c]" by (auto simp: is_constant_def)
  with parse_variable_name [OF assms] r show ?thesis
    by (simp add: parse_prefix.simps)
qed

lemma parse_prefix_unary:
  "parse_prefix (CHR ''~'' # cs) =
     and_then (parse_prefix cs) (\<lambda>(formula, remainder).
       case formula of None \<Rightarrow> Inr (None, remainder)
       | Some g \<Rightarrow> Inr (Some (Neg g), remainder))"
  by (simp add: parse_prefix.simps is_constant_def parse_variable_other cong: option.case_cong)

lemma parse_prefix_paren:
  "parse_prefix (CHR ''('' # cs) =
     and_then (parse_prefix cs) (\<lambda>(first, remainder).
       case first of None \<Rightarrow> Inr (None, remainder)
       | Some a \<Rightarrow>
           if remainder = [] then Inr (None, ''Expected binary operator'')
           else
             (case match_operator remainder (min 3 (length remainder)) of
                None \<Rightarrow> Inr (None, ''Expected binary operator'')
              | Some (operator, remainder1) \<Rightarrow>
                  and_then (parse_prefix remainder1) (\<lambda>(second, remainder2).
                    case second of None \<Rightarrow> Inr (None, remainder2)
                    | Some b \<Rightarrow>
                        if remainder2 = [] \<or> hd remainder2 \<noteq> CHR '')''
                        then Inr (None, ''Expected closing parenthesis'')
                        else and_then (Formula_init operator (Some a) (Some b))
                               (\<lambda>f. Inr (Some f, tl remainder2)))))"
  by (simp add: parse_prefix.simps is_constant_def parse_variable_other is_unary_def)

lemma parse_prefix_other:
  assumes "\<not> is_constant [c]" "\<not> (CHR ''p'' \<le> c \<and> c \<le> CHR ''z'')" "c \<noteq> CHR ''~''"
    "c \<noteq> CHR ''(''"
  shows "parse_prefix (c # cs) = Inr (None, ''Invalid formula'')"
  using assms by (simp add: parse_prefix.simps parse_variable_other is_unary_def)

lemma parse_prefix_repr:
  assumes "constructed f"
  shows "repr f = Inr s \<Longrightarrow> rest = [] \<or> \<not> isdecimal_char (hd rest)
           \<Longrightarrow> parse_prefix (s @ rest) = Inr (Some f, rest)"
  using assms
proof (induction f arbitrary: s rest rule: constructed_induct)
  case (Variable r)
  then show ?case by (simp add: parse_prefix_variable)
next
  case (Constant r)
  then show ?case by (auto simp: is_constant_def parse_prefix_constant)
next
  case (Neg a)
  from Neg.prems(1) obtain t where t: "repr a = Inr t" and s: "s = ''~'' @ t"
    by (auto simp: and_then_eq_Inr)
  from Neg.IH [OF t Neg.prems(2)] s show ?case
    by (simp add: parse_prefix_unary)
next
  case (Binary r a b)
  from Binary.prems(1) Binary.hyps(1) obtain s1 s2 where s1: "repr a = Inr s1"
    and s2: "repr b = Inr s2" and s: "s = ''('' @ s1 @ r @ s2 @ '')''"
    by (auto simp: and_then_eq_Inr)
  from Binary.hyps(1) have r: "r \<noteq> []" "\<not> isdecimal_char (hd r)"
    by (simp_all add: binary_head)
  have p1: "parse_prefix (s1 @ (r @ s2 @ '')'' @ rest)) = Inr (Some a, r @ s2 @ '')'' @ rest)"
    using r by (intro Binary.IH(1) [OF s1]) simp
  have m: "match_operator (r @ s2 @ '')'' @ rest) (min 3 (length (r @ s2 @ '')'' @ rest)))
      = Some (r, s2 @ '')'' @ rest)"
    using Binary.hyps(1) by (rule match_operator_binary)
  have p2: "parse_prefix (s2 @ ('')'' @ rest)) = Inr (Some b, '')'' @ rest)"
    by (intro Binary.IH(2) [OF s2]) (simp add: isdecimal_char_def)
  have "parse_prefix (CHR ''('' # s1 @ (r @ s2 @ '')'' @ rest)) = Inr (Some (Binary r a b), rest)"
    unfolding parse_prefix_paren p1
    using r m p2 Binary.hyps(1) by simp
  with s show ?case by simp
qed

section \<open>The polish parser\<close>

lemma polish_parse_prefix_constant:
  "is_constant [c] \<Longrightarrow> polish_parse_prefix (c # cs) = Inr (Some (Atom [c]), cs)"
  by (simp add: polish_parse_prefix.simps)

lemma polish_parse_prefix_variable:
  assumes "variable_name r" and "rest = [] \<or> \<not> isdecimal_char (hd rest)"
  shows "polish_parse_prefix (r @ rest) = Inr (Some (Atom r), rest)"
proof -
  from assms(1) obtain c ds where r: "r = c # ds" and c: "CHR ''p'' \<le> c"
    by (auto simp: variable_name_iff)
  from c have "\<not> is_constant [c]" by (auto simp: is_constant_def)
  with parse_variable_name [OF assms] r show ?thesis
    by (simp add: polish_parse_prefix.simps)
qed

lemma polish_parse_prefix_unary:
  "polish_parse_prefix (CHR ''~'' # cs) =
     and_then (polish_parse_prefix cs) (\<lambda>(formula, remainder).
       case formula of None \<Rightarrow> Inr (None, remainder)
       | Some g \<Rightarrow> Inr (Some (Neg g), remainder))"
  by (simp add: polish_parse_prefix.simps is_constant_def parse_variable_other
      cong: option.case_cong)

lemma polish_parse_prefix_operator:
  assumes "\<not> is_constant [c]" "\<not> (CHR ''p'' \<le> c \<and> c \<le> CHR ''z'')" "c \<noteq> CHR ''~''"
  shows "polish_parse_prefix (c # cs) =
     (case match_operator (c # cs) (min 3 (length (c # cs))) of
        None \<Rightarrow> Inr (None, ''Invalid formula'')
      | Some (operator, remainder) \<Rightarrow>
          and_then (polish_parse_prefix remainder) (\<lambda>(first, remainder1).
            case first of None \<Rightarrow> Inr (None, remainder1)
            | Some a \<Rightarrow>
                and_then (polish_parse_prefix remainder1) (\<lambda>(second, remainder2).
                  case second of None \<Rightarrow> Inr (None, remainder2)
                  | Some b \<Rightarrow>
                      and_then (Formula_init operator (Some a) (Some b))
                        (\<lambda>f. Inr (Some f, remainder2)))))"
  using assms by (simp add: polish_parse_prefix.simps parse_variable_other is_unary_def)

lemma binary_first_char:
  assumes "is_binary r"
  shows "\<exists>c cs. r = c # cs \<and> \<not> is_constant [c] \<and> \<not> (CHR ''p'' \<le> c \<and> c \<le> CHR ''z'')
    \<and> c \<noteq> CHR ''~'' \<and> c \<noteq> CHR ''(''"
proof -
  from assms consider "r = ''&''" | "r = ''|''" | "r = ''->''" | "r = ''+''" | "r = ''<->''"
    | "r = ''-&''" | "r = ''-|''"
    by (auto simp: is_binary_iff)
  then show ?thesis
    by cases (simp_all add: is_constant_def)
qed

lemma variable_char_not_decimal: "CHR ''p'' \<le> c \<Longrightarrow> \<not> isdecimal_char c"
  by (simp add: isdecimal_char_def less_eq_char_def)

lemma polish_head:
  "constructed f \<Longrightarrow> polish f = Inr s \<Longrightarrow> s \<noteq> [] \<and> \<not> isdecimal_char (hd s)"
proof (induction f arbitrary: s rule: constructed_induct)
  case (Variable r)
  then show ?case by (auto simp: variable_name_iff variable_char_not_decimal)
next
  case (Constant r)
  then show ?case by (auto simp: is_constant_def isdecimal_char_def)
next
  case (Neg a)
  then show ?case by (auto simp: and_then_eq_Inr isdecimal_char_def)
next
  case (Binary r a b)
  from Binary.prems Binary.hyps(1) obtain t where "s = r @ t"
    by (auto simp: and_then_eq_Inr)
  with binary_head [OF Binary.hyps(1)] show ?case by simp
qed

lemma polish_parse_prefix_polish:
  assumes "constructed f"
  shows "polish f = Inr s \<Longrightarrow> rest = [] \<or> \<not> isdecimal_char (hd rest)
           \<Longrightarrow> polish_parse_prefix (s @ rest) = Inr (Some f, rest)"
  using assms
proof (induction f arbitrary: s rest rule: constructed_induct)
  case (Variable r)
  then show ?case by (simp add: polish_parse_prefix_variable)
next
  case (Constant r)
  then show ?case by (auto simp: is_constant_def polish_parse_prefix_constant)
next
  case (Neg a)
  from Neg.prems(1) obtain t where t: "polish a = Inr t" and s: "s = ''~'' @ t"
    by (auto simp: and_then_eq_Inr)
  from Neg.IH [OF t Neg.prems(2)] s show ?case
    by (simp add: polish_parse_prefix_unary)
next
  case (Binary r a b)
  from Binary.prems(1) Binary.hyps(1) obtain s1 s2 where s1: "polish a = Inr s1"
    and s2: "polish b = Inr s2" and s: "s = r @ s1 @ s2"
    by (auto simp: and_then_eq_Inr)
  from Binary.hyps(1) obtain c cs where r: "r = c # cs" and c: "\<not> is_constant [c]"
    "\<not> (CHR ''p'' \<le> c \<and> c \<le> CHR ''z'')" "c \<noteq> CHR ''~''"
    using binary_first_char by blast
  from polish_head [OF Binary.hyps(3) s2] have h2: "s2 \<noteq> []" "\<not> isdecimal_char (hd s2)"
    by simp_all
  have m: "match_operator (r @ s1 @ s2 @ rest) (min 3 (length (r @ s1 @ s2 @ rest)))
      = Some (r, s1 @ s2 @ rest)"
    using Binary.hyps(1) by (rule match_operator_binary)
  have p1: "polish_parse_prefix (s1 @ (s2 @ rest)) = Inr (Some a, s2 @ rest)"
    using h2 by (intro Binary.IH(1) [OF s1]) simp
  have p2: "polish_parse_prefix (s2 @ rest) = Inr (Some b, rest)"
    using Binary.prems(2) by (intro Binary.IH(2) [OF s2])
  have "polish_parse_prefix (c # cs @ s1 @ s2 @ rest) = Inr (Some (Binary r a b), rest)"
    unfolding polish_parse_prefix_operator [OF c]
    using m p1 p2 Binary.hyps(1) by (simp add: r)
  with s r show ?case by simp
qed

text \<open>Unfolding the parsers and the token classifiers on a literal string.\<close>

lemmas parser_eval =
  parse_def is_formula_def parse_polish_def parse_prefix.simps polish_parse_prefix.simps
  parse_variable_def scan_decimal.simps is_constant_def is_unary_def is_binary_def
  is_variable_def str_isdecimal_def isdecimal_char_def Formula_init_def Let_def
  numeral_3_eq_3 numeral_2_eq_2

lemmas token_eval =
  is_constant_def is_unary_def is_binary_def is_variable_def str_isdecimal_def
  isdecimal_char_def

lemma parse_repr:
  assumes "constructed f" and "repr f = Inr s"
  shows "parse s = Inr f"
  using parse_prefix_repr [OF assms, of "[]"] by (simp add: parse_def is_formula_def)

lemma parse_polish_polish:
  assumes "constructed f" and "polish f = Inr s"
  shows "parse_polish s = Inr f"
  using polish_parse_prefix_polish [OF assms, of "[]"] by (simp add: parse_polish_def)

section \<open>Claim C2: printing and parsing round-trip\<close>

text \<open>
  C2. For every formula \<open>f\<close> built by the constructor, \<open>Formula.parse(str(f)) == f\<close> and
  \<open>Formula.parse_polish(f.polish()) == f\<close>: both calls return, the parsed formula is
  \<open>f\<close> itself, and \<open>__eq__\<close> says so. The infix form prints a variable or constant as
  itself, a negation as the operator followed by its operand, and a binary formula as
  \<open>(\<close>, first operand, operator, second operand, \<open>)\<close>, with nothing in between.
\<close>

theorem parse_round_trip:
  assumes "constructed f"
  shows "and_then (repr f) parse = Inr f
    \<and> and_then (repr f) (\<lambda>s. and_then (parse s) (\<lambda>g. Formula_eq g f)) = Inr True
    \<and> and_then (polish f) parse_polish = Inr f
    \<and> and_then (polish f) (\<lambda>s. and_then (parse_polish s) (\<lambda>g. Formula_eq g f)) = Inr True
    \<and> (\<forall>r. variable_name r \<or> is_constant r \<longrightarrow> repr (Atom r) = Inr r)
    \<and> (\<forall>a s. repr a = Inr s \<longrightarrow> repr (Neg a) = Inr (''~'' @ s))
    \<and> (\<forall>r a b s1 s2. is_binary r \<and> repr a = Inr s1 \<and> repr b = Inr s2 \<longrightarrow>
          repr (Binary r a b) = Inr (''('' @ s1 @ r @ s2 @ '')''))"
proof -
  from assms obtain s where s: "repr f = Inr s"
    using repr_total by blast
  from assms obtain t where t: "polish f = Inr t"
    using polish_total by blast
  have "parse s = Inr f"
    using assms s by (rule parse_repr)
  moreover have "parse_polish t = Inr f"
    using assms t by (rule parse_polish_polish)
  moreover have "Formula_eq f f = Inr True"
    using s by (simp add: Formula_eq_def)
  ultimately show ?thesis
    using s t by auto
qed

theorem parse_round_trip_witness:
  "constructed (Binary ''<->'' (Neg (Atom ''p1'')) (Atom ''T''))
   \<and> repr (Binary ''<->'' (Neg (Atom ''p1'')) (Atom ''T'')) = Inr ''(~p1<->T)''
   \<and> parse ''(~p1<->T)'' = Inr (Binary ''<->'' (Neg (Atom ''p1'')) (Atom ''T''))
   \<and> polish (Binary ''<->'' (Neg (Atom ''p1'')) (Atom ''T'')) = Inr ''<->~p1T''
   \<and> parse_polish ''<->~p1T'' = Inr (Binary ''<->'' (Neg (Atom ''p1'')) (Atom ''T''))"
proof -
  have c: "constructed (Binary ''<->'' (Neg (Atom ''p1'')) (Atom ''T''))"
    by (simp add: token_eval)
  have r: "repr (Binary ''<->'' (Neg (Atom ''p1'')) (Atom ''T'')) = Inr ''(~p1<->T)''"
    by (simp add: token_eval)
  have p: "polish (Binary ''<->'' (Neg (Atom ''p1'')) (Atom ''T'')) = Inr ''<->~p1T''"
    by (simp add: token_eval)
  from parse_round_trip [OF c] show ?thesis
    unfolding r p using c by simp
qed

section \<open>What the infix parser returns on any string\<close>

definition error_messages :: "string set" where
  "error_messages = {''Unexpected end of input'', ''Invalid formula'',
     ''Expected binary operator'', ''Expected closing parenthesis''}"

text \<open>
  The outcome of \<open>_parse_prefix\<close> on \<open>s\<close>: no exception, and either \<open>None\<close> with one of
  the four messages, or a constructed formula whose string representation is the consumed
  prefix of \<open>s\<close>.
\<close>

definition parse_outcome :: "string \<Rightarrow> error + (Formula option \<times> string) \<Rightarrow> bool" where
  "parse_outcome s res =
     (case res of
        Inl e \<Rightarrow> False
      | Inr (None, msg) \<Rightarrow> msg \<in> error_messages
      | Inr (Some f, rest) \<Rightarrow> constructed f \<and> (\<exists>t. repr f = Inr t \<and> s = t @ rest))"

lemma parse_outcome_None [simp]:
  "parse_outcome s (Inr (None, msg)) \<longleftrightarrow> msg \<in> error_messages"
  by (simp add: parse_outcome_def)

lemma parse_outcome_Some [simp]:
  "parse_outcome s (Inr (Some f, rest)) \<longleftrightarrow>
     constructed f \<and> (\<exists>t. repr f = Inr t \<and> s = t @ rest)"
  by (simp add: parse_outcome_def)

lemma parse_outcome_cases:
  assumes "parse_outcome s res"
  obtains msg where "res = Inr (None, msg)" "msg \<in> error_messages"
  | f rest t where "res = Inr (Some f, rest)" "constructed f" "repr f = Inr t" "s = t @ rest"
proof (cases res)
  case (Inl e)
  with assms show ?thesis by (simp add: parse_outcome_def)
next
  case (Inr p)
  obtain a b where p: "p = (a, b)" by (cases p)
  show ?thesis
  proof (cases a)
    case None
    with assms Inr p that(1) show ?thesis by simp
  next
    case (Some f)
    with assms Inr p that(2) show ?thesis by auto
  qed
qed

lemma parse_prefix_outcome: "parse_outcome s (parse_prefix s)"
proof (induction s rule: length_induct)
  case (1 s)
  note IH = "1.IH" [rule_format]
  show ?case
  proof (cases s)
    case Nil
    then show ?thesis by (simp add: parse_prefix.simps error_messages_def)
  next
    case (Cons c cs)
    show ?thesis
    proof (cases "is_constant [c]")
      case True
      with Cons show ?thesis by (simp add: parse_prefix_constant)
    next
      case nc: False
      from parse_variable_cases [of c cs] show ?thesis
      proof (elim disjE conjE exE)
        fix v rest
        assume v: "parse_variable (c # cs) = Inr (Some (Atom v, rest))" "variable_name v"
          "c # cs = v @ rest"
        from nc v(1) have "parse_prefix (c # cs) = Inr (Some (Atom v), rest)"
          by (simp add: parse_prefix.simps)
        with v(2,3) Cons show ?thesis by simp
      next
        assume nv: "parse_variable (c # cs) = Inr None"
          and nvc: "\<not> (CHR ''p'' \<le> c \<and> c \<le> CHR ''z'')"
        consider "c = CHR ''~''" | "c = CHR ''(''" | "c \<noteq> CHR ''~''" "c \<noteq> CHR ''(''"
          by blast
        then show ?thesis
        proof cases
          case 1
          have "parse_outcome cs (parse_prefix cs)"
            using Cons by (intro IH) simp
          then show ?thesis
          proof (cases rule: parse_outcome_cases)
            case (1 msg)
            with \<open>c = CHR ''~''\<close> Cons show ?thesis by (simp add: parse_prefix_unary)
          next
            case (2 f rest t)
            with \<open>c = CHR ''~''\<close> Cons show ?thesis by (simp add: parse_prefix_unary)
          qed
        next
          case 2
          have "parse_outcome cs (parse_prefix cs)"
            using Cons by (intro IH) simp
          then show ?thesis
          proof (cases rule: parse_outcome_cases)
            case (1 msg)
            with \<open>c = CHR ''(''\<close> Cons show ?thesis by (simp add: parse_prefix_paren)
          next
            case first: (2 a rem ta)
            show ?thesis
            proof (cases "match_operator rem (min 3 (length rem))")
              case None
              with first \<open>c = CHR ''(''\<close> Cons show ?thesis
                by (simp add: parse_prefix_paren error_messages_def)
            next
              case (Some p)
              obtain operator rem1 where p: "p = (operator, rem1)" by (cases p)
              from Some p have op: "is_binary operator" "rem = operator @ rem1"
                using match_operator_Some by blast+
              from op have ne: "rem \<noteq> []" by (auto simp: binary_head)
              have "length rem1 < length s"
                using Cons first(4) op(2) by simp
              then have "parse_outcome rem1 (parse_prefix rem1)"
                by (rule IH)
              then show ?thesis
              proof (cases rule: parse_outcome_cases)
                case (1 msg)
                with first Some p ne \<open>c = CHR ''(''\<close> Cons show ?thesis
                  by (simp add: parse_prefix_paren)
              next
                case second: (2 b rem2 tb)
                show ?thesis
                proof (cases "rem2 = [] \<or> hd rem2 \<noteq> CHR '')''")
                  case True
                  with first second Some p ne \<open>c = CHR ''(''\<close> Cons show ?thesis
                    by (auto simp: parse_prefix_paren error_messages_def)
                next
                  case False
                  then have rem2: "rem2 = CHR '')'' # tl rem2" by (cases rem2) auto
                  have res: "parse_prefix s = Inr (Some (Binary operator a b), tl rem2)"
                    using first second Some p ne \<open>c = CHR ''(''\<close> Cons False op(1)
                    by (simp add: parse_prefix_paren)
                  have "s = (''('' @ ta @ operator @ tb @ '')'') @ tl rem2"
                    using Cons \<open>c = CHR ''(''\<close> first(4) op(2) second(4) rem2 by simp
                  with res first(2,3) second(2,3) op(1) show ?thesis
                    by (simp del: append_assoc)
                qed
              qed
            qed
          qed
        next
          case 3
          with nc nvc Cons show ?thesis
            by (simp add: parse_prefix_other error_messages_def)
        qed
      qed
    qed
  qed
qed

section \<open>Claim C9: parse failures are values with a message\<close>

text \<open>
  C9. On every string \<open>_parse_prefix\<close> returns without raising. When it fails, the result is
  \<open>None\<close> with one of four messages, each naming what was expected: the end of the input
  where a formula should start, a character that starts no formula, no binary operator
  after the first operand of a parenthesis, no closing parenthesis after the second operand.
  When it succeeds, the result is a constructed formula and the unparsed rest of the string;
  on the string representation of a formula it succeeds. The first component tells a
  failure from a success.
\<close>

theorem parse_prefix_failures:
  "(\<exists>res. parse_prefix s = Inr res)
   \<and> (\<forall>msg. parse_prefix s = Inr (None, msg) \<longrightarrow>
        msg \<in> {''Unexpected end of input'', ''Invalid formula'',
                ''Expected binary operator'', ''Expected closing parenthesis''})
   \<and> (\<forall>f rest. parse_prefix s = Inr (Some f, rest) \<longrightarrow>
        constructed f \<and> (\<exists>t. repr f = Inr t \<and> s = t @ rest))
   \<and> parse_prefix [] = Inr (None, ''Unexpected end of input'')
   \<and> (\<forall>c cs. \<not> is_constant [c] \<and> \<not> (CHR ''p'' \<le> c \<and> c \<le> CHR ''z'') \<and> c \<noteq> CHR ''~''
          \<and> c \<noteq> CHR ''('' \<longrightarrow>
        parse_prefix (c # cs) = Inr (None, ''Invalid formula''))
   \<and> (\<forall>cs a rest. parse_prefix cs = Inr (Some a, rest)
          \<and> match_operator rest (min 3 (length rest)) = None \<longrightarrow>
        parse_prefix (CHR ''('' # cs) = Inr (None, ''Expected binary operator''))
   \<and> (\<forall>cs a rest operator rest1 b rest2. parse_prefix cs = Inr (Some a, rest)
          \<and> match_operator rest (min 3 (length rest)) = Some (operator, rest1)
          \<and> parse_prefix rest1 = Inr (Some b, rest2)
          \<and> (rest2 = [] \<or> hd rest2 \<noteq> CHR '')'') \<longrightarrow>
        parse_prefix (CHR ''('' # cs) = Inr (None, ''Expected closing parenthesis''))
   \<and> (\<forall>f t. constructed f \<and> repr f = Inr t \<longrightarrow> parse_prefix t = Inr (Some f, []))"
proof -
  have out: "parse_outcome s (parse_prefix s)"
    by (rule parse_prefix_outcome)
  have 1: "\<exists>res. parse_prefix s = Inr res"
    using out by (cases rule: parse_outcome_cases) auto
  have 2: "\<forall>msg. parse_prefix s = Inr (None, msg) \<longrightarrow>
        msg \<in> {''Unexpected end of input'', ''Invalid formula'',
                ''Expected binary operator'', ''Expected closing parenthesis''}"
    using out by (auto simp: error_messages_def)
  have 3: "\<forall>f rest. parse_prefix s = Inr (Some f, rest) \<longrightarrow>
        constructed f \<and> (\<exists>t. repr f = Inr t \<and> s = t @ rest)"
    using out by auto
  have 4: "parse_prefix [] = Inr (None, ''Unexpected end of input'')"
    by (simp add: parse_prefix.simps)
  have 5: "\<forall>c cs. \<not> is_constant [c] \<and> \<not> (CHR ''p'' \<le> c \<and> c \<le> CHR ''z'') \<and> c \<noteq> CHR ''~''
          \<and> c \<noteq> CHR ''('' \<longrightarrow>
        parse_prefix (c # cs) = Inr (None, ''Invalid formula'')"
    by (simp add: parse_prefix_other)
  have 6: "\<forall>cs a rest. parse_prefix cs = Inr (Some a, rest)
          \<and> match_operator rest (min 3 (length rest)) = None \<longrightarrow>
        parse_prefix (CHR ''('' # cs) = Inr (None, ''Expected binary operator'')"
    by (simp add: parse_prefix_paren)
  have 7: "\<forall>cs a rest operator rest1 b rest2. parse_prefix cs = Inr (Some a, rest)
          \<and> match_operator rest (min 3 (length rest)) = Some (operator, rest1)
          \<and> parse_prefix rest1 = Inr (Some b, rest2)
          \<and> (rest2 = [] \<or> hd rest2 \<noteq> CHR '')'') \<longrightarrow>
        parse_prefix (CHR ''('' # cs) = Inr (None, ''Expected closing parenthesis'')"
  proof (intro allI impI, elim conjE)
    fix cs a rest operator rest1 b rest2
    assume a: "parse_prefix cs = Inr (Some a, rest)"
      and m: "match_operator rest (min 3 (length rest)) = Some (operator, rest1)"
      and b: "parse_prefix rest1 = Inr (Some b, rest2)"
      and r: "rest2 = [] \<or> hd rest2 \<noteq> CHR '')''"
    from m have "rest \<noteq> []"
      using match_operator_Some [OF m] by (auto simp: binary_head)
    with a m b r show "parse_prefix (CHR ''('' # cs) = Inr (None, ''Expected closing parenthesis'')"
      by (auto simp: parse_prefix_paren)
  qed
  have 8: "\<forall>f t. constructed f \<and> repr f = Inr t \<longrightarrow> parse_prefix t = Inr (Some f, [])"
    using parse_prefix_repr [where rest = "[]"] by auto
  from 1 2 3 4 5 6 7 8 show ?thesis
    by (intro conjI)
qed

theorem parse_prefix_failures_witness:
  "parse_prefix ''(p|'' = Inr (None, ''Unexpected end of input'')
   \<and> parse_prefix ''#p'' = Inr (None, ''Invalid formula'')
   \<and> parse_prefix ''(p q)'' = Inr (None, ''Expected binary operator'')
   \<and> parse_prefix ''(p&q]'' = Inr (None, ''Expected closing parenthesis'')
   \<and> parse_prefix ''(p&q)r'' = Inr (Some (Binary ''&'' (Atom ''p'') (Atom ''q'')), ''r'')
   \<and> constructed (Binary ''&'' (Atom ''p'') (Atom ''q''))
   \<and> repr (Binary ''&'' (Atom ''p'') (Atom ''q'')) = Inr ''(p&q)''
   \<and> parse_prefix ''(p&q)'' = Inr (Some (Binary ''&'' (Atom ''p'') (Atom ''q'')), [])"
proof -
  have p: "parse_prefix ''p q)'' = Inr (Some (Atom ''p''), '' q)'')"
    "parse_prefix ''p&q]'' = Inr (Some (Atom ''p''), ''&q]'')"
    "parse_prefix ''q]'' = Inr (Some (Atom ''q''), '']'')"
    "parse_prefix ''(p&q)r'' = Inr (Some (Binary ''&'' (Atom ''p'') (Atom ''q'')), ''r'')"
    "parse_prefix ''(p|'' = Inr (None, ''Unexpected end of input'')"
    by (simp_all add: parser_eval)
  have m: "match_operator '' q)'' (min 3 (length '' q)'')) = None"
    "match_operator ''&q]'' (min 3 (length ''&q]'')) = Some (''&'', ''q]'')"
    by (simp_all add: is_binary_def numeral_3_eq_3)
  have c: "constructed (Binary ''&'' (Atom ''p'') (Atom ''q''))"
    "repr (Binary ''&'' (Atom ''p'') (Atom ''q'')) = Inr ''(p&q)''"
    by (simp_all add: token_eval)
  note all = parse_prefix_failures [of "''(p&q)r''"]
  note rest4 = all [THEN conjunct2, THEN conjunct2, THEN conjunct2, THEN conjunct2]
  note invalid = rest4 [THEN conjunct1, rule_format]
  note no_operator = rest4 [THEN conjunct2, THEN conjunct1, rule_format]
  note no_paren = rest4 [THEN conjunct2, THEN conjunct2, THEN conjunct1, rule_format]
  note well_formed = rest4 [THEN conjunct2, THEN conjunct2, THEN conjunct2, rule_format]
  have "parse_prefix ''#p'' = Inr (None, ''Invalid formula'')"
    by (rule invalid) (simp add: is_constant_def)
  moreover have "parse_prefix ''(p q)'' = Inr (None, ''Expected binary operator'')"
    using p(1) m(1) by (intro no_operator conjI)
  moreover have "parse_prefix ''(p&q]'' = Inr (None, ''Expected closing parenthesis'')"
    by (rule no_paren, intro conjI, rule p(2), rule m(2), rule p(3)) simp
  moreover have "parse_prefix ''(p&q)'' = Inr (Some (Binary ''&'' (Atom ''p'') (Atom ''q'')), [])"
    using c by (intro well_formed conjI)
  ultimately show ?thesis
    using p(4,5) c by simp
qed

section \<open>Claim C6: the binary operator is matched longest first\<close>

text \<open>
  C6. In both parsers the operator loop, started at \<open>min(3, len(remainder))\<close>, returns the
  three-character candidate if it is a binary operator, else the two-character one, else
  the one-character one, against the set \<open>&\<close>, \<open>|\<close>, \<open>->\<close>, \<open>+\<close>, \<open><->\<close>, \<open>-&\<close>, \<open>-|\<close>; a string
  that starts with a binary operator gives exactly that operator, whatever follows. The
  infix parser builds the compound from the operator matched after the first operand, the
  polish parser from the operator matched at the start. So \<open><->\<close> and \<open>->\<close> are each one
  token: \<open>(p<->q)\<close> parses to a formula with root \<open><->\<close>.
\<close>

theorem operator_longest_match:
  "match_operator s (min 3 (length s)) =
     (if is_binary (take 3 s) then Some (take 3 s, drop 3 s)
      else if is_binary (take 2 s) then Some (take 2 s, drop 2 s)
      else if is_binary (take 1 s) then Some (take 1 s, drop 1 s)
      else None)
   \<and> (is_binary s \<longleftrightarrow> s \<in> {''&'', ''|'', ''->'', ''+'', ''<->'', ''-&'', ''-|''})
   \<and> (\<forall>t. is_binary s \<longrightarrow> match_operator (s @ t) (min 3 (length (s @ t))) = Some (s, t))
   \<and> (\<forall>cs a rest operator rest1 b rest2. parse_prefix cs = Inr (Some a, rest)
          \<and> match_operator rest (min 3 (length rest)) = Some (operator, rest1)
          \<and> parse_prefix rest1 = Inr (Some b, CHR '')'' # rest2) \<longrightarrow>
        parse_prefix (CHR ''('' # cs) = Inr (Some (Binary operator a b), rest2))
   \<and> (\<forall>c cs operator rest a rest1 b rest2.
          \<not> is_constant [c] \<and> \<not> (CHR ''p'' \<le> c \<and> c \<le> CHR ''z'') \<and> c \<noteq> CHR ''~''
          \<and> match_operator (c # cs) (min 3 (length (c # cs))) = Some (operator, rest)
          \<and> polish_parse_prefix rest = Inr (Some a, rest1)
          \<and> polish_parse_prefix rest1 = Inr (Some b, rest2) \<longrightarrow>
        polish_parse_prefix (c # cs) = Inr (Some (Binary operator a b), rest2))
   \<and> parse ''(p<->q)'' = Inr (Binary ''<->'' (Atom ''p'') (Atom ''q''))
   \<and> parse ''(p->q)'' = Inr (Binary ''->'' (Atom ''p'') (Atom ''q''))
   \<and> parse_polish ''<->pq'' = Inr (Binary ''<->'' (Atom ''p'') (Atom ''q''))
   \<and> parse_polish ''->pq'' = Inr (Binary ''->'' (Atom ''p'') (Atom ''q''))"
proof -
  have 1: "match_operator s (min 3 (length s)) =
     (if is_binary (take 3 s) then Some (take 3 s, drop 3 s)
      else if is_binary (take 2 s) then Some (take 2 s, drop 2 s)
      else if is_binary (take 1 s) then Some (take 1 s, drop 1 s)
      else None)"
    by (rule match_operator_longest)
  have 2: "is_binary s \<longleftrightarrow> s \<in> {''&'', ''|'', ''->'', ''+'', ''<->'', ''-&'', ''-|''}"
    by (simp add: is_binary_def)
  have 3: "\<forall>t. is_binary s \<longrightarrow> match_operator (s @ t) (min 3 (length (s @ t))) = Some (s, t)"
    using match_operator_binary by blast
  have 4: "\<forall>cs a rest operator rest1 b rest2. parse_prefix cs = Inr (Some a, rest)
          \<and> match_operator rest (min 3 (length rest)) = Some (operator, rest1)
          \<and> parse_prefix rest1 = Inr (Some b, CHR '')'' # rest2) \<longrightarrow>
        parse_prefix (CHR ''('' # cs) = Inr (Some (Binary operator a b), rest2)"
  proof (intro allI impI, elim conjE)
    fix cs a rest operator rest1 b rest2
    assume a: "parse_prefix cs = Inr (Some a, rest)"
      and m: "match_operator rest (min 3 (length rest)) = Some (operator, rest1)"
      and b: "parse_prefix rest1 = Inr (Some b, CHR '')'' # rest2)"
    from match_operator_Some [OF m] have "is_binary operator" "rest \<noteq> []"
      by (auto simp: binary_head)
    with a m b show "parse_prefix (CHR ''('' # cs) = Inr (Some (Binary operator a b), rest2)"
      by (simp add: parse_prefix_paren)
  qed
  have 5: "\<forall>c cs operator rest a rest1 b rest2.
          \<not> is_constant [c] \<and> \<not> (CHR ''p'' \<le> c \<and> c \<le> CHR ''z'') \<and> c \<noteq> CHR ''~''
          \<and> match_operator (c # cs) (min 3 (length (c # cs))) = Some (operator, rest)
          \<and> polish_parse_prefix rest = Inr (Some a, rest1)
          \<and> polish_parse_prefix rest1 = Inr (Some b, rest2) \<longrightarrow>
        polish_parse_prefix (c # cs) = Inr (Some (Binary operator a b), rest2)"
  proof (intro allI impI, elim conjE)
    fix c cs operator rest a rest1 b rest2
    assume c: "\<not> is_constant [c]" "\<not> (CHR ''p'' \<le> c \<and> c \<le> CHR ''z'')" "c \<noteq> CHR ''~''"
      and m: "match_operator (c # cs) (min 3 (length (c # cs))) = Some (operator, rest)"
      and a: "polish_parse_prefix rest = Inr (Some a, rest1)"
      and b: "polish_parse_prefix rest1 = Inr (Some b, rest2)"
    from match_operator_Some [OF m] have "is_binary operator"
      by simp
    with m a b show "polish_parse_prefix (c # cs) = Inr (Some (Binary operator a b), rest2)"
      unfolding polish_parse_prefix_operator [OF c] by simp
  qed
  have 6: "parse ''(p<->q)'' = Inr (Binary ''<->'' (Atom ''p'') (Atom ''q''))"
    "parse ''(p->q)'' = Inr (Binary ''->'' (Atom ''p'') (Atom ''q''))"
    "parse_polish ''<->pq'' = Inr (Binary ''<->'' (Atom ''p'') (Atom ''q''))"
    "parse_polish ''->pq'' = Inr (Binary ''->'' (Atom ''p'') (Atom ''q''))"
    by (simp_all add: parser_eval)
  from 1 2 3 4 5 6 show ?thesis
    by (intro conjI)
qed

theorem operator_longest_match_witness:
  "is_binary ''<->''
   \<and> match_operator ''<->q)'' (min 3 (length ''<->q)'')) = Some (''<->'', ''q)'')
   \<and> parse_prefix ''p<->q)'' = Inr (Some (Atom ''p''), ''<->q)'')
   \<and> parse_prefix ''q)'' = Inr (Some (Atom ''q''), '')'')
   \<and> parse_prefix ''(p<->q)'' = Inr (Some (Binary ''<->'' (Atom ''p'') (Atom ''q'')), [])
   \<and> polish_parse_prefix ''pq'' = Inr (Some (Atom ''p''), ''q'')
   \<and> polish_parse_prefix ''q'' = Inr (Some (Atom ''q''), [])
   \<and> polish_parse_prefix ''<->pq'' = Inr (Some (Binary ''<->'' (Atom ''p'') (Atom ''q'')), [])"
proof -
  note all = operator_longest_match [of "''<->''"]
  note rest2 = all [THEN conjunct2, THEN conjunct2]
  note prefix = rest2 [THEN conjunct1, rule_format]
  note paren_case = rest2 [THEN conjunct2, THEN conjunct1, rule_format]
  note polish_case = rest2 [THEN conjunct2, THEN conjunct2, THEN conjunct1, rule_format]
  have b: "is_binary ''<->''"
    by (simp add: is_binary_def)
  have m: "match_operator ''<->q)'' (min 3 (length ''<->q)'')) = Some (''<->'', ''q)'')"
    using prefix [OF b, of "''q)''"] by simp
  have m': "match_operator ''<->pq'' (min 3 (length ''<->pq'')) = Some (''<->'', ''pq'')"
    using prefix [OF b, of "''pq''"] by simp
  have p: "parse_prefix ''p<->q)'' = Inr (Some (Atom ''p''), ''<->q)'')"
    "parse_prefix ''q)'' = Inr (Some (Atom ''q''), '')'')"
    "polish_parse_prefix ''pq'' = Inr (Some (Atom ''p''), ''q'')"
    "polish_parse_prefix ''q'' = Inr (Some (Atom ''q''), [])"
    by (simp_all add: parser_eval)
  have i: "parse_prefix ''(p<->q)'' = Inr (Some (Binary ''<->'' (Atom ''p'') (Atom ''q'')), [])"
    by (rule paren_case, intro conjI, rule p(1), rule m, rule p(2))
  have q: "polish_parse_prefix ''<->pq'' = Inr (Some (Binary ''<->'' (Atom ''p'') (Atom ''q'')), [])"
    by (rule polish_case, intro conjI, simp add: is_constant_def, simp, simp,
        rule m', rule p(3), rule p(4))
  from b m p i q show ?thesis
    by (intro conjI)
qed

section \<open>Substitution of variables\<close>

lemma assert_variables_iff:
  "assert_variables ks = Inr () \<longleftrightarrow> (\<forall>k \<in> set ks. variable_name k)"
proof (induction ks)
  case Nil
  then show ?case by simp
next
  case (Cons k ks)
  show ?case
  proof (cases "is_variable k")
    case (Inl e)
    then show ?thesis by simp
  next
    case (Inr v)
    with Cons show ?thesis by (cases v) auto
  qed
qed

lemma substitute_variables_simps:
  assumes "\<forall>k \<in> set (map fst m). variable_name k"
  shows "variable_name v \<Longrightarrow> map_of m v = Some g \<Longrightarrow> substitute_variables (Atom v) m = Inr g"
    and "variable_name v \<Longrightarrow> map_of m v = None \<Longrightarrow>
          substitute_variables (Atom v) m = Inr (Atom v)"
    and "is_constant c \<Longrightarrow> substitute_variables (Atom c) m = Inr (Atom c)"
    and "substitute_variables (Neg a) m =
          and_then (substitute_variables a m) (\<lambda>a'. Inr (Neg a'))"
    and "is_binary r \<Longrightarrow> substitute_variables (Binary r a b) m =
          and_then (substitute_variables a m) (\<lambda>a'.
          and_then (substitute_variables b m) (\<lambda>b'. Inr (Binary r a' b')))"
proof -
  from assms have ok: "assert_variables (map fst m) = Inr ()"
    by (simp only: assert_variables_iff)
  show "variable_name v \<Longrightarrow> map_of m v = Some g \<Longrightarrow> substitute_variables (Atom v) m = Inr g"
    using ok by simp
  show "variable_name v \<Longrightarrow> map_of m v = None \<Longrightarrow>
          substitute_variables (Atom v) m = Inr (Atom v)"
    using ok by simp
  show "is_constant c \<Longrightarrow> substitute_variables (Atom c) m = Inr (Atom c)"
    using ok by simp
  show "substitute_variables (Neg a) m =
          and_then (substitute_variables a m) (\<lambda>a'. Inr (Neg a'))"
    using ok by simp
  show "is_binary r \<Longrightarrow> substitute_variables (Binary r a b) m =
          and_then (substitute_variables a m) (\<lambda>a'.
          and_then (substitute_variables b m) (\<lambda>b'. Inr (Binary r a' b')))"
    using ok by simp
qed

declare substitute_variables.simps [simp del]

lemma substitute_variables_total:
  assumes "constructed f" and keys: "\<forall>k \<in> set (map fst m). variable_name k"
    and vals: "\<forall>t \<in> set (map snd m). constructed t"
  shows "\<exists>g. substitute_variables f m = Inr g \<and> constructed g"
  using assms(1)
proof (induction f rule: constructed_induct)
  case (Variable r)
  show ?case
  proof (cases "map_of m r")
    case None
    with Variable keys show ?thesis by (simp add: substitute_variables_simps)
  next
    case (Some g)
    then have "g \<in> set (map snd m)"
      by (auto dest: map_of_SomeD intro: rev_image_eqI)
    with vals have "constructed g" by blast
    with Some Variable keys show ?thesis by (simp add: substitute_variables_simps)
  qed
next
  case (Constant r)
  with keys show ?case by (simp add: substitute_variables_simps)
next
  case (Neg a)
  with keys show ?case by (auto simp: substitute_variables_simps)
next
  case (Binary r a b)
  with keys show ?case by (auto simp: substitute_variables_simps)
qed

text \<open>Substituting with the empty map changes nothing.\<close>

lemma substitute_variables_empty:
  "constructed f \<Longrightarrow> substitute_variables f [] = Inr f"
  by (induction f rule: constructed_induct) (simp_all add: substitute_variables_simps)

section \<open>Claim C7: variable substitution is one simultaneous pass\<close>

text \<open>
  C7. For a substitution map whose keys are variable names, \<open>substitute_variables\<close>
  replaces a mapped variable by its formula as it stands in the map (the variables of that
  formula are not looked up again), leaves an unmapped variable and a constant as they are,
  and rebuilds a negation and a binary formula with the same root from the substituted
  operands. On a constructed formula, with constructed formulas in the map, it returns a
  constructed formula. In particular \<open>((p->p)|r)\<close> with \<open>p\<close> mapped to \<open>(q&r)\<close> and \<open>r\<close> to
  \<open>p\<close> gives \<open>(((q&r)->(q&r))|p)\<close>.
\<close>

theorem substitute_variables_single_pass:
  assumes "\<forall>k \<in> set (map fst m). variable_name k"
  shows "(\<forall>v g. variable_name v \<and> map_of m v = Some g \<longrightarrow>
            substitute_variables (Atom v) m = Inr g)
    \<and> (\<forall>v. variable_name v \<and> map_of m v = None \<longrightarrow>
            substitute_variables (Atom v) m = Inr (Atom v))
    \<and> (\<forall>c. is_constant c \<longrightarrow> substitute_variables (Atom c) m = Inr (Atom c))
    \<and> (\<forall>a. substitute_variables (Neg a) m =
            and_then (substitute_variables a m) (\<lambda>a'. Inr (Neg a')))
    \<and> (\<forall>r a b. is_binary r \<longrightarrow>
            substitute_variables (Binary r a b) m =
              and_then (substitute_variables a m) (\<lambda>a'.
              and_then (substitute_variables b m) (\<lambda>b'. Inr (Binary r a' b'))))
    \<and> (\<forall>f. constructed f \<and> (\<forall>t \<in> set (map snd m). constructed t) \<longrightarrow>
            (\<exists>g. substitute_variables f m = Inr g \<and> constructed g))
    \<and> and_then (parse ''((p->p)|r)'') (\<lambda>f.
        and_then (parse ''(q&r)'') (\<lambda>g.
        and_then (parse ''p'') (\<lambda>h.
          substitute_variables f [(''p'', g), (''r'', h)])))
       = parse ''(((q&r)->(q&r))|p)''
    \<and> parse ''(((q&r)->(q&r))|p)'' =
        Inr (Binary ''|'' (Binary ''->'' (Binary ''&'' (Atom ''q'') (Atom ''r''))
                                         (Binary ''&'' (Atom ''q'') (Atom ''r'')))
                          (Atom ''p''))"
proof -
  note eqs = substitute_variables_simps [OF assms]
  have total: "\<forall>f. constructed f \<and> (\<forall>t \<in> set (map snd m). constructed t) \<longrightarrow>
            (\<exists>g. substitute_variables f m = Inr g \<and> constructed g)"
    using substitute_variables_total [OF _ assms] by blast
  have p: "parse ''((p->p)|r)'' =
      Inr (Binary ''|'' (Binary ''->'' (Atom ''p'') (Atom ''p'')) (Atom ''r''))"
    "parse ''(q&r)'' = Inr (Binary ''&'' (Atom ''q'') (Atom ''r''))"
    "parse ''p'' = Inr (Atom ''p'')"
    "parse ''(((q&r)->(q&r))|p)'' =
        Inr (Binary ''|'' (Binary ''->'' (Binary ''&'' (Atom ''q'') (Atom ''r''))
                                         (Binary ''&'' (Atom ''q'') (Atom ''r'')))
                          (Atom ''p''))"
    by (simp_all add: parser_eval)
  have ex: "and_then (parse ''((p->p)|r)'') (\<lambda>f.
        and_then (parse ''(q&r)'') (\<lambda>g.
        and_then (parse ''p'') (\<lambda>h.
          substitute_variables f [(''p'', g), (''r'', h)])))
       = parse ''(((q&r)->(q&r))|p)''"
    unfolding p by (simp add: substitute_variables.simps token_eval Formula_init_def)
  from eqs total ex p(4) show ?thesis
    by (intro conjI) blast+
qed

theorem substitute_variables_single_pass_witness:
  "variable_name ''p'' \<and> variable_name ''r'' \<and> variable_name ''q''
   \<and> substitute_variables (Atom ''p'')
        [(''p'', Binary ''&'' (Atom ''q'') (Atom ''r'')), (''r'', Atom ''p'')]
       = Inr (Binary ''&'' (Atom ''q'') (Atom ''r''))
   \<and> substitute_variables (Atom ''q'')
        [(''p'', Binary ''&'' (Atom ''q'') (Atom ''r'')), (''r'', Atom ''p'')]
       = Inr (Atom ''q'')
   \<and> substitute_variables (Atom ''T'')
        [(''p'', Binary ''&'' (Atom ''q'') (Atom ''r'')), (''r'', Atom ''p'')]
       = Inr (Atom ''T'')
   \<and> substitute_variables (Binary ''|'' (Binary ''->'' (Atom ''p'') (Atom ''p'')) (Atom ''r''))
        [(''p'', Binary ''&'' (Atom ''q'') (Atom ''r'')), (''r'', Atom ''p'')]
       = Inr (Binary ''|'' (Binary ''->'' (Binary ''&'' (Atom ''q'') (Atom ''r''))
                                          (Binary ''&'' (Atom ''q'') (Atom ''r'')))
                           (Atom ''p''))"
proof -
  have v: "variable_name ''p''" "variable_name ''r''" "variable_name ''q''"
    by (simp_all add: token_eval)
  have k: "\<forall>k \<in> set (map fst
      [(''p'', Binary ''&'' (Atom ''q'') (Atom ''r'')), (''r'', Atom ''p'')]). variable_name k"
    using v by simp
  have b: "is_binary ''|''" "is_binary ''->''" "is_constant ''T''"
    by (simp_all add: token_eval)
  note all = substitute_variables_single_pass [OF k]
  note mapped = all [THEN conjunct1, rule_format]
  note unmapped = all [THEN conjunct2, THEN conjunct1, rule_format]
  note const_case = all [THEN conjunct2, THEN conjunct2, THEN conjunct1, rule_format]
  note binary = all [THEN conjunct2, THEN conjunct2, THEN conjunct2, THEN conjunct2,
      THEN conjunct1, rule_format]
  have 1: "substitute_variables (Atom ''p'')
        [(''p'', Binary ''&'' (Atom ''q'') (Atom ''r'')), (''r'', Atom ''p'')]
       = Inr (Binary ''&'' (Atom ''q'') (Atom ''r''))"
    by (rule mapped) (simp add: v)
  have 2: "substitute_variables (Atom ''r'')
        [(''p'', Binary ''&'' (Atom ''q'') (Atom ''r'')), (''r'', Atom ''p'')]
       = Inr (Atom ''p'')"
    by (rule mapped) (simp add: v)
  have 3: "substitute_variables (Atom ''q'')
        [(''p'', Binary ''&'' (Atom ''q'') (Atom ''r'')), (''r'', Atom ''p'')]
       = Inr (Atom ''q'')"
    by (rule unmapped) (simp add: v)
  have 4: "substitute_variables (Atom ''T'')
        [(''p'', Binary ''&'' (Atom ''q'') (Atom ''r'')), (''r'', Atom ''p'')]
       = Inr (Atom ''T'')"
    by (rule const_case) (rule b)
  have 5: "substitute_variables (Binary ''|'' (Binary ''->'' (Atom ''p'') (Atom ''p'')) (Atom ''r''))
        [(''p'', Binary ''&'' (Atom ''q'') (Atom ''r'')), (''r'', Atom ''p'')]
       = Inr (Binary ''|'' (Binary ''->'' (Binary ''&'' (Atom ''q'') (Atom ''r''))
                                          (Binary ''&'' (Atom ''q'') (Atom ''r'')))
                           (Atom ''p''))"
    by (simp only: binary [OF b(1)] binary [OF b(2)] 1 2 and_then_Inr)
  from v 1 3 4 5 show ?thesis
    by (intro conjI)
qed

section \<open>Substitution of operators\<close>

text \<open>
  The maps that pass the assertions of \<open>substitute_operators\<close>: every key is a constant or
  an operator, and the variables of its template are among \<open>p\<close> and \<open>q\<close>.
\<close>

definition operator_map :: "(string \<times> Formula) list \<Rightarrow> bool" where
  "operator_map m =
     (\<forall>k \<in> set (map fst m).
        (is_constant k \<or> is_unary k \<or> is_binary k) \<and>
        (\<exists>t V. map_of m k = Some t \<and> variables t = Inr V \<and> V \<subseteq> {''p'', ''q''}))"

lemma assert_operators_ok:
  assumes "\<forall>k \<in> set ks.
        (is_constant k \<or> is_unary k \<or> is_binary k) \<and>
        (\<exists>t V. map_of m k = Some t \<and> variables t = Inr V \<and> V \<subseteq> {''p'', ''q''})"
  shows "assert_operators m ks = Inr ()"
  using assms
proof (induction ks)
  case Nil
  then show ?case by simp
next
  case (Cons k ks)
  from Cons.prems obtain t V where "is_constant k \<or> is_unary k \<or> is_binary k"
    "map_of m k = Some t" "variables t = Inr V" "V \<subseteq> {''p'', ''q''}"
    by auto
  moreover from Cons have "assert_operators m ks = Inr ()" by simp
  ultimately show ?case by simp
qed

lemma substitute_operators_simps:
  assumes "operator_map m"
  shows "variable_name v \<Longrightarrow> substitute_operators (Atom v) m = Inr (Atom v)"
    and "is_constant c \<Longrightarrow> substitute_operators (Atom c) m =
          (case map_of m c of Some template \<Rightarrow> Inr template | None \<Rightarrow> Inr (Atom c))"
    and "substitute_operators (Neg a) m =
          and_then (substitute_operators a m) (\<lambda>a'.
            case map_of m ''~'' of
              Some template \<Rightarrow> substitute_variables template [(''p'', a')]
            | None \<Rightarrow> Inr (Neg a'))"
    and "is_binary r \<Longrightarrow> substitute_operators (Binary r a b) m =
          and_then (substitute_operators a m) (\<lambda>a'.
          and_then (substitute_operators b m) (\<lambda>b'.
            case map_of m r of
              Some template \<Rightarrow> substitute_variables template [(''p'', a'), (''q'', b')]
            | None \<Rightarrow> Inr (Binary r a' b')))"
proof -
  from assms have ok: "assert_operators m (map fst m) = Inr ()"
    unfolding operator_map_def by (rule assert_operators_ok)
  show "variable_name v \<Longrightarrow> substitute_operators (Atom v) m = Inr (Atom v)"
    using ok by simp
  show "is_constant c \<Longrightarrow> substitute_operators (Atom c) m =
          (case map_of m c of Some template \<Rightarrow> Inr template | None \<Rightarrow> Inr (Atom c))"
    using ok by (simp split: option.splits)
  show "substitute_operators (Neg a) m =
          and_then (substitute_operators a m) (\<lambda>a'.
            case map_of m ''~'' of
              Some template \<Rightarrow> substitute_variables template [(''p'', a')]
            | None \<Rightarrow> Inr (Neg a'))"
    using ok by (simp cong: option.case_cong)
  show "is_binary r \<Longrightarrow> substitute_operators (Binary r a b) m =
          and_then (substitute_operators a m) (\<lambda>a'.
          and_then (substitute_operators b m) (\<lambda>b'.
            case map_of m r of
              Some template \<Rightarrow> substitute_variables template [(''p'', a'), (''q'', b')]
            | None \<Rightarrow> Inr (Binary r a' b')))"
    using ok by (simp cong: option.case_cong)
qed

declare substitute_operators.simps [simp del]

lemma variable_name_p_q [simp]: "variable_name ''p''" "variable_name ''q''"
  by (simp_all add: token_eval)

lemma substitute_operators_total:
  assumes "constructed f" and m: "operator_map m"
    and vals: "\<forall>t \<in> set (map snd m). constructed t"
  shows "\<exists>g. substitute_operators f m = Inr g \<and> constructed g"
  using assms(1)
proof (induction f rule: constructed_induct)
  case (Variable r)
  with m show ?case by (simp add: substitute_operators_simps)
next
  case (Constant r)
  show ?case
  proof (cases "map_of m r")
    case None
    with Constant m show ?thesis by (simp add: substitute_operators_simps)
  next
    case (Some t)
    then have "t \<in> set (map snd m)"
      by (auto dest: map_of_SomeD intro: rev_image_eqI)
    with vals have "constructed t" by blast
    with Some Constant m show ?thesis by (simp add: substitute_operators_simps)
  qed
next
  case (Neg a)
  then obtain a' where a': "substitute_operators a m = Inr a'" "constructed a'"
    by blast
  show ?case
  proof (cases "map_of m ''~''")
    case None
    with a' m show ?thesis by (simp add: substitute_operators_simps)
  next
    case (Some t)
    then have "t \<in> set (map snd m)"
      by (auto dest: map_of_SomeD intro: rev_image_eqI)
    with vals have "constructed t" by blast
    then have "\<exists>g. substitute_variables t [(''p'', a')] = Inr g \<and> constructed g"
      using a'(2) by (intro substitute_variables_total) simp_all
    with Some a' m show ?thesis by (simp add: substitute_operators_simps)
  qed
next
  case (Binary r a b)
  then obtain a' b' where a': "substitute_operators a m = Inr a'" "constructed a'"
    and b': "substitute_operators b m = Inr b'" "constructed b'"
    by blast
  show ?case
  proof (cases "map_of m r")
    case None
    with a' b' m Binary.hyps(1) show ?thesis by (simp add: substitute_operators_simps)
  next
    case (Some t)
    then have "t \<in> set (map snd m)"
      by (auto dest: map_of_SomeD intro: rev_image_eqI)
    with vals have "constructed t" by blast
    then have "\<exists>g. substitute_variables t [(''p'', a'), (''q'', b')] = Inr g \<and> constructed g"
      using a'(2) b'(2) by (intro substitute_variables_total) simp_all
    with Some a' b' m Binary.hyps(1) show ?thesis by (simp add: substitute_operators_simps)
  qed
qed

section \<open>Claim C8: operator substitution instantiates templates\<close>

text \<open>
  C8. For a map from constants and operators to templates over \<open>p\<close> and \<open>q\<close>,
  \<open>substitute_operators\<close> leaves a variable as it is, replaces a mapped constant by its
  template, replaces a mapped negation by its template with \<open>p\<close> substituted by the
  substituted operand, and a mapped binary operator by its template with \<open>p\<close> and \<open>q\<close>
  substituted by the substituted first and second operands; an unmapped token keeps its
  root over the substituted operands. On a constructed formula, with constructed templates,
  it returns a constructed formula. In particular \<open>((x&y)&~z)\<close> with \<open>&\<close> mapped to
  \<open>~(~p|~q)\<close> gives \<open>~(~~(~x|~y)|~~z)\<close>.
\<close>

theorem substitute_operators_templates:
  assumes "operator_map m"
  shows "(\<forall>v. variable_name v \<longrightarrow> substitute_operators (Atom v) m = Inr (Atom v))
    \<and> (\<forall>c t. is_constant c \<and> map_of m c = Some t \<longrightarrow>
          substitute_operators (Atom c) m = Inr t)
    \<and> (\<forall>c. is_constant c \<and> map_of m c = None \<longrightarrow>
          substitute_operators (Atom c) m = Inr (Atom c))
    \<and> (\<forall>a a' t. substitute_operators a m = Inr a' \<and> map_of m ''~'' = Some t \<longrightarrow>
          substitute_operators (Neg a) m = substitute_variables t [(''p'', a')])
    \<and> (\<forall>a a'. substitute_operators a m = Inr a' \<and> map_of m ''~'' = None \<longrightarrow>
          substitute_operators (Neg a) m = Inr (Neg a'))
    \<and> (\<forall>r a b a' b' t. is_binary r \<and> substitute_operators a m = Inr a'
          \<and> substitute_operators b m = Inr b' \<and> map_of m r = Some t \<longrightarrow>
          substitute_operators (Binary r a b) m =
            substitute_variables t [(''p'', a'), (''q'', b')])
    \<and> (\<forall>r a b a' b'. is_binary r \<and> substitute_operators a m = Inr a'
          \<and> substitute_operators b m = Inr b' \<and> map_of m r = None \<longrightarrow>
          substitute_operators (Binary r a b) m = Inr (Binary r a' b'))
    \<and> (\<forall>f. constructed f \<and> (\<forall>t \<in> set (map snd m). constructed t) \<longrightarrow>
          (\<exists>g. substitute_operators f m = Inr g \<and> constructed g))
    \<and> and_then (parse ''((x&y)&~z)'') (\<lambda>f.
        and_then (parse ''~(~p|~q)'') (\<lambda>t. substitute_operators f [(''&'', t)]))
       = parse ''~(~~(~x|~y)|~~z)''
    \<and> parse ''~(~~(~x|~y)|~~z)'' =
        Inr (Neg (Binary ''|'' (Neg (Neg (Binary ''|'' (Neg (Atom ''x'')) (Neg (Atom ''y'')))))
                               (Neg (Neg (Atom ''z'')))))"
proof -
  note eqs = substitute_operators_simps [OF assms]
  have total: "\<forall>f. constructed f \<and> (\<forall>t \<in> set (map snd m). constructed t) \<longrightarrow>
          (\<exists>g. substitute_operators f m = Inr g \<and> constructed g)"
    using substitute_operators_total [OF _ assms] by blast
  have p: "parse ''((x&y)&~z)'' =
      Inr (Binary ''&'' (Binary ''&'' (Atom ''x'') (Atom ''y'')) (Neg (Atom ''z'')))"
    "parse ''~(~p|~q)'' = Inr (Neg (Binary ''|'' (Neg (Atom ''p'')) (Neg (Atom ''q''))))"
    "parse ''~(~~(~x|~y)|~~z)'' =
        Inr (Neg (Binary ''|'' (Neg (Neg (Binary ''|'' (Neg (Atom ''x'')) (Neg (Atom ''y'')))))
                               (Neg (Neg (Atom ''z'')))))"
    by (simp_all add: parser_eval)
  have ex: "and_then (parse ''((x&y)&~z)'') (\<lambda>f.
        and_then (parse ''~(~p|~q)'') (\<lambda>t. substitute_operators f [(''&'', t)]))
       = parse ''~(~~(~x|~y)|~~z)''"
    unfolding p
    by (simp add: substitute_operators.simps substitute_variables.simps variables.simps
        token_eval Formula_init_def)
  show ?thesis
    using total ex p(3) by (intro conjI) (simp_all add: eqs)
qed

theorem substitute_operators_templates_witness:
  "operator_map [(''&'', Neg (Binary ''|'' (Neg (Atom ''p'')) (Neg (Atom ''q''))))]
   \<and> substitute_operators (Atom ''x'')
        [(''&'', Neg (Binary ''|'' (Neg (Atom ''p'')) (Neg (Atom ''q''))))] = Inr (Atom ''x'')
   \<and> substitute_operators (Neg (Atom ''z''))
        [(''&'', Neg (Binary ''|'' (Neg (Atom ''p'')) (Neg (Atom ''q''))))]
       = Inr (Neg (Atom ''z''))
   \<and> substitute_operators (Binary ''&'' (Atom ''x'') (Atom ''y''))
        [(''&'', Neg (Binary ''|'' (Neg (Atom ''p'')) (Neg (Atom ''q''))))]
       = substitute_variables (Neg (Binary ''|'' (Neg (Atom ''p'')) (Neg (Atom ''q''))))
           [(''p'', Atom ''x''), (''q'', Atom ''y'')]
   \<and> substitute_variables (Neg (Binary ''|'' (Neg (Atom ''p'')) (Neg (Atom ''q''))))
           [(''p'', Atom ''x''), (''q'', Atom ''y'')]
       = Inr (Neg (Binary ''|'' (Neg (Atom ''x'')) (Neg (Atom ''y''))))"
proof -
  have b: "is_binary ''&''" "is_binary ''|''"
    by (simp_all add: token_eval)
  have v: "variable_name ''x''" "variable_name ''y''" "variable_name ''z''"
    by (simp_all add: token_eval)
  have m: "operator_map [(''&'', Neg (Binary ''|'' (Neg (Atom ''p'')) (Neg (Atom ''q''))))]"
    using b by (simp add: operator_map_def)
  note all = substitute_operators_templates [OF m]
  note var_case = all [THEN conjunct1, rule_format]
  note rest4 = all [THEN conjunct2, THEN conjunct2, THEN conjunct2, THEN conjunct2]
  note neg_unmapped = rest4 [THEN conjunct1, rule_format]
  note binary_mapped = rest4 [THEN conjunct2, THEN conjunct1, rule_format]
  have 1: "substitute_operators (Atom ''x'')
        [(''&'', Neg (Binary ''|'' (Neg (Atom ''p'')) (Neg (Atom ''q''))))] = Inr (Atom ''x'')"
    "substitute_operators (Atom ''y'')
        [(''&'', Neg (Binary ''|'' (Neg (Atom ''p'')) (Neg (Atom ''q''))))] = Inr (Atom ''y'')"
    "substitute_operators (Atom ''z'')
        [(''&'', Neg (Binary ''|'' (Neg (Atom ''p'')) (Neg (Atom ''q''))))] = Inr (Atom ''z'')"
    by (rule var_case, rule v)+
  have 2: "substitute_operators (Neg (Atom ''z''))
        [(''&'', Neg (Binary ''|'' (Neg (Atom ''p'')) (Neg (Atom ''q''))))]
       = Inr (Neg (Atom ''z''))"
    by (rule neg_unmapped) (simp add: 1)
  have 3: "substitute_operators (Binary ''&'' (Atom ''x'') (Atom ''y''))
        [(''&'', Neg (Binary ''|'' (Neg (Atom ''p'')) (Neg (Atom ''q''))))]
       = substitute_variables (Neg (Binary ''|'' (Neg (Atom ''p'')) (Neg (Atom ''q''))))
           [(''p'', Atom ''x''), (''q'', Atom ''y'')]"
    by (rule binary_mapped) (simp add: 1 b)
  have 4: "substitute_variables (Neg (Binary ''|'' (Neg (Atom ''p'')) (Neg (Atom ''q''))))
           [(''p'', Atom ''x''), (''q'', Atom ''y'')]
       = Inr (Neg (Binary ''|'' (Neg (Atom ''x'')) (Neg (Atom ''y''))))"
    using b by (simp add: substitute_variables_simps)
  from m 1(1) 2 3 4 show ?thesis
    by (intro conjI)
qed

section \<open>Evaluation\<close>

text \<open>
  The standard truth tables, in the words of the specification: \<open>&\<close> is conjunction, \<open>|\<close>
  disjunction, \<open>->\<close> implication, \<open><->\<close> equivalence, \<open>+\<close> exclusive or, \<open>-&\<close> the negated
  conjunction and \<open>-|\<close> the negated disjunction.
\<close>

definition binary_truth_table :: "string \<Rightarrow> bool \<Rightarrow> bool \<Rightarrow> bool" where
  "binary_truth_table operator x y =
     (if operator = ''&'' then x \<and> y
      else if operator = ''|'' then x \<or> y
      else if operator = ''->'' then (x \<longrightarrow> y)
      else if operator = ''<->'' then (x \<longleftrightarrow> y)
      else if operator = ''+'' then (x \<noteq> y)
      else if operator = ''-&'' then \<not> (x \<and> y)
      else \<not> (x \<or> y))"

text \<open>
  The truth value that the specification gives a formula under a valuation of the variable
  names: constants are literal, a variable has its value, \<open>~\<close> negates, a binary operator
  applies its truth table.
\<close>

fun standard_value :: "(string \<Rightarrow> bool) \<Rightarrow> Formula \<Rightarrow> bool" where
  "standard_value val (Formula root first second) =
     (if root = ''T'' then True
      else if root = ''F'' then False
      else if root = ''~'' then
        \<not> (case first of None \<Rightarrow> False | Some f \<Rightarrow> standard_value val f)
      else if is_binary root then
        binary_truth_table root
          (case first of None \<Rightarrow> False | Some f \<Rightarrow> standard_value val f)
          (case second of None \<Rightarrow> False | Some g \<Rightarrow> standard_value val g)
      else val root)"

text \<open>The valuation that a model stands for.\<close>

definition model_valuation :: "Model \<Rightarrow> string \<Rightarrow> bool" where
  "model_valuation model v = (map_of model v = Some True)"

lemma standard_value_variable [simp]:
  assumes "variable_name r"
  shows "standard_value val (Atom r) = val r"
proof -
  from assms have "r \<noteq> ''T''" "r \<noteq> ''F''" "r \<noteq> ''~''" "\<not> is_binary r"
    using variable_not_constant [OF assms] variable_not_unary [OF assms]
      variable_not_binary [OF assms]
    by (auto simp: is_constant_def is_unary_def)
  then show ?thesis by simp
qed

lemma standard_value_constant [simp]:
  "standard_value val (Atom ''T'') = True"
  "standard_value val (Atom ''F'') = False"
  by simp_all

lemma standard_value_Neg [simp]:
  "standard_value val (Neg a) = (\<not> standard_value val a)"
  by simp

lemma standard_value_Binary [simp]:
  assumes "is_binary r"
  shows "standard_value val (Binary r a b) =
     binary_truth_table r (standard_value val a) (standard_value val b)"
proof -
  from assms have "r \<noteq> ''T''" "r \<noteq> ''F''" "r \<noteq> ''~''"
    using binary_not_constant [OF assms] binary_not_unary [OF assms]
    by (auto simp: is_constant_def is_unary_def)
  with assms show ?thesis by simp
qed

declare standard_value.simps [simp del]

lemma is_model_keys_iff:
  "is_model_keys ks = Inr True \<longleftrightarrow> (\<forall>k \<in> set ks. variable_name k)"
proof (induction ks)
  case Nil
  then show ?case by simp
next
  case (Cons k ks)
  show ?case
  proof (cases "is_variable k")
    case (Inl e)
    then show ?thesis by simp
  next
    case (Inr v)
    with Cons show ?thesis by (cases v) auto
  qed
qed

lemma is_model_iff: "is_model m = Inr True \<longleftrightarrow> (\<forall>k \<in> set (map fst m). variable_name k)"
  unfolding is_model_def by (rule is_model_keys_iff)

lemma getitem_model:
  "v \<in> set (map fst m) \<Longrightarrow> getitem m v = Inr (model_valuation m v)"
proof -
  assume "v \<in> set (map fst m)"
  then obtain b where "map_of m v = Some b"
    by (cases "map_of m v") (auto simp: map_of_eq_None_iff)
  then show ?thesis
    by (simp add: getitem_def model_valuation_def)
qed

text \<open>\<open>evaluate\<close> on the shapes of a constructed formula, once its two assertions hold.\<close>

lemma evaluate_Atom_variable:
  assumes "is_model m = Inr True" "variable_name v" "v \<in> set (map fst m)"
  shows "evaluate (Atom v) m = Inr (model_valuation m v)"
  using assms by (simp add: model_variables_def getitem_model variable_not_constant)

lemma evaluate_Atom_constant:
  assumes "is_model m = Inr True" "is_constant c"
  shows "evaluate (Atom c) m = Inr (c = ''T'')"
  using assms by (simp add: model_variables_def)

lemma evaluate_Neg:
  assumes "is_model m = Inr True" "variables a = Inr A" "A \<subseteq> set (map fst m)"
  shows "evaluate (Neg a) m = and_then (evaluate a m) (\<lambda>b. Inr (\<not> b))"
  using assms by (simp add: model_variables_def)

lemma evaluate_Binary:
  assumes "is_model m = Inr True" "is_binary r" "variables a = Inr A" "variables b = Inr B"
    "A \<subseteq> set (map fst m)" "B \<subseteq> set (map fst m)"
  shows "evaluate (Binary r a b) m =
     and_then (evaluate a m) (\<lambda>x. and_then (evaluate b m) (\<lambda>y. Inr (binary_truth_table r x y)))"
proof -
  from assms(2) consider "r = ''&''" | "r = ''|''" | "r = ''->''" | "r = ''+''" | "r = ''<->''"
    | "r = ''-&''" | "r = ''-|''"
    by (auto simp: is_binary_iff)
  then show ?thesis
    using assms
    by cases (simp_all add: model_variables_def binary_truth_table_def)
qed

declare evaluate.simps [simp del]

lemma evaluate_standard:
  assumes "constructed f" and m: "is_model m = Inr True"
  shows "variables f = Inr V \<Longrightarrow> V \<subseteq> set (map fst m)
           \<Longrightarrow> evaluate f m = Inr (standard_value (model_valuation m) f)"
  using assms(1)
proof (induction f arbitrary: V rule: constructed_induct)
  case (Variable r)
  then have "r \<in> set (map fst m)" by auto
  with m Variable show ?case by (simp add: evaluate_Atom_variable)
next
  case (Constant r)
  with m show ?case by (auto simp: evaluate_Atom_constant is_constant_def)
next
  case (Neg a)
  with m show ?case by (simp add: evaluate_Neg)
next
  case (Binary r a b)
  from Binary.prems(1) Binary.hyps(1) obtain A B where A: "variables a = Inr A"
    and B: "variables b = Inr B" and V: "V = A \<union> B"
    by (auto simp: and_then_eq_Inr)
  with Binary.prems(2) have sub: "A \<subseteq> set (map fst m)" "B \<subseteq> set (map fst m)"
    by auto
  from Binary.IH(1) [OF A sub(1)] Binary.IH(2) [OF B sub(2)] show ?case
    by (simp add: evaluate_Binary [OF m Binary.hyps(1) A B sub] Binary.hyps(1))
qed

lemmas evaluate_eval =
  evaluate.simps variables.simps is_model_def model_variables_def getitem_def token_eval

section \<open>Claim C4: evaluation computes the standard truth tables\<close>

text \<open>
  C4. For a constructed formula \<open>f\<close> and a model \<open>m\<close> whose keys are variable names and
  include the variables of \<open>f\<close>, \<open>evaluate(f, m)\<close> returns the truth value that the standard
  truth tables give \<open>f\<close> under \<open>m\<close>: \<open>T\<close> is true and \<open>F\<close> is false, a variable has the value
  \<open>m\<close> gives it, \<open>~\<close> negates, and \<open>&\<close>, \<open>|\<close>, \<open>->\<close>, \<open><->\<close>, \<open>+\<close>, \<open>-&\<close>, \<open>-|\<close> are conjunction,
  disjunction, implication, equivalence, exclusive or, nand and nor. In particular
  \<open>~(p&q76)\<close> is true where \<open>p\<close> is true and \<open>q76\<close> false, and false where both are true.
\<close>

theorem evaluate_truth_tables:
  assumes "constructed f" and "is_model m = Inr True" and "variables f = Inr V"
    and "V \<subseteq> set (map fst m)"
  shows "evaluate f m = Inr (standard_value (model_valuation m) f)
    \<and> (\<forall>v b. map_of m v = Some b \<longrightarrow> model_valuation m v = b)
    \<and> (\<forall>val. standard_value val (Atom ''T'') = True \<and> standard_value val (Atom ''F'') = False)
    \<and> (\<forall>val v. variable_name v \<longrightarrow> standard_value val (Atom v) = val v)
    \<and> (\<forall>val a. standard_value val (Neg a) = (\<not> standard_value val a))
    \<and> (\<forall>val a b.
          standard_value val (Binary ''&'' a b)
            = (standard_value val a \<and> standard_value val b)
        \<and> standard_value val (Binary ''|'' a b)
            = (standard_value val a \<or> standard_value val b)
        \<and> standard_value val (Binary ''->'' a b)
            = (standard_value val a \<longrightarrow> standard_value val b)
        \<and> standard_value val (Binary ''<->'' a b)
            = (standard_value val a \<longleftrightarrow> standard_value val b)
        \<and> standard_value val (Binary ''+'' a b)
            = (standard_value val a \<noteq> standard_value val b)
        \<and> standard_value val (Binary ''-&'' a b)
            = (\<not> (standard_value val a \<and> standard_value val b))
        \<and> standard_value val (Binary ''-|'' a b)
            = (\<not> (standard_value val a \<or> standard_value val b)))
    \<and> and_then (parse ''~(p&q76)'') (\<lambda>g. evaluate g [(''p'', True), (''q76'', False)])
        = Inr True
    \<and> and_then (parse ''~(p&q76)'') (\<lambda>g. evaluate g [(''p'', True), (''q76'', True)])
        = Inr False"
proof -
  have 1: "evaluate f m = Inr (standard_value (model_valuation m) f)"
    using assms by (rule evaluate_standard)
  have 2: "\<forall>v b. map_of m v = Some b \<longrightarrow> model_valuation m v = b"
    by (simp add: model_valuation_def)
  have 3: "\<forall>val. standard_value val (Atom ''T'') = True \<and> standard_value val (Atom ''F'') = False"
    by simp
  have 4: "\<forall>val v. variable_name v \<longrightarrow> standard_value val (Atom v) = val v"
    by simp
  have 5: "\<forall>val a. standard_value val (Neg a) = (\<not> standard_value val a)"
    by simp
  have 6: "\<forall>val a b.
          standard_value val (Binary ''&'' a b)
            = (standard_value val a \<and> standard_value val b)
        \<and> standard_value val (Binary ''|'' a b)
            = (standard_value val a \<or> standard_value val b)
        \<and> standard_value val (Binary ''->'' a b)
            = (standard_value val a \<longrightarrow> standard_value val b)
        \<and> standard_value val (Binary ''<->'' a b)
            = (standard_value val a \<longleftrightarrow> standard_value val b)
        \<and> standard_value val (Binary ''+'' a b)
            = (standard_value val a \<noteq> standard_value val b)
        \<and> standard_value val (Binary ''-&'' a b)
            = (\<not> (standard_value val a \<and> standard_value val b))
        \<and> standard_value val (Binary ''-|'' a b)
            = (\<not> (standard_value val a \<or> standard_value val b))"
    by (simp add: standard_value.simps is_binary_def binary_truth_table_def)
  have p: "parse ''~(p&q76)'' = Inr (Neg (Binary ''&'' (Atom ''p'') (Atom ''q76'')))"
    by (simp add: parser_eval)
  have 7: "and_then (parse ''~(p&q76)'') (\<lambda>g. evaluate g [(''p'', True), (''q76'', False)])
        = Inr True"
    unfolding p by (simp add: evaluate_eval)
  have 8: "and_then (parse ''~(p&q76)'') (\<lambda>g. evaluate g [(''p'', True), (''q76'', True)])
        = Inr False"
    unfolding p by (simp add: evaluate_eval)
  from 1 2 3 4 5 6 7 8 show ?thesis
    by (intro conjI)
qed

theorem evaluate_truth_tables_witness:
  "constructed (Neg (Binary ''&'' (Atom ''p'') (Atom ''q76'')))
   \<and> is_model [(''p'', True), (''q76'', False), (''r'', True)] = Inr True
   \<and> variables (Neg (Binary ''&'' (Atom ''p'') (Atom ''q76''))) = Inr {''p'', ''q76''}
   \<and> {''p'', ''q76''} \<subseteq> set (map fst [(''p'', True), (''q76'', False), (''r'', True)])
   \<and> evaluate (Neg (Binary ''&'' (Atom ''p'') (Atom ''q76'')))
        [(''p'', True), (''q76'', False), (''r'', True)] = Inr True"
proof -
  have v: "variable_name ''q76''" "variable_name ''r''" "is_binary ''&''"
    by (simp_all add: token_eval)
  have c: "constructed (Neg (Binary ''&'' (Atom ''p'') (Atom ''q76'')))"
    using v by simp
  have m: "is_model [(''p'', True), (''q76'', False), (''r'', True)] = Inr True"
    using v by (simp add: is_model_iff)
  have vs: "variables (Neg (Binary ''&'' (Atom ''p'') (Atom ''q76''))) = Inr {''p'', ''q76''}"
    using v by auto
  have sub: "{''p'', ''q76''} \<subseteq> set (map fst [(''p'', True), (''q76'', False), (''r'', True)])"
    by simp
  from evaluate_truth_tables [OF c m vs sub]
  have "evaluate (Neg (Binary ''&'' (Atom ''p'') (Atom ''q76'')))
        [(''p'', True), (''q76'', False), (''r'', True)] = Inr True"
    using v by (simp add: model_valuation_def binary_truth_table_def)
  with c m vs sub show ?thesis
    by (intro conjI)
qed

section \<open>Enumerating models\<close>

lemma update_fresh: "k \<notin> fst ` set d \<Longrightarrow> AList.update k v d = d @ [(k, v)]"
  by (induction d) auto

lemma fold_update_distinct:
  "distinct (map fst d @ ks) \<Longrightarrow>
     fold (\<lambda>(k, v) d. AList.update k v d) (zip ks vals) d = d @ zip ks vals"
proof (induction ks arbitrary: vals d)
  case Nil
  then show ?case by simp
next
  case (Cons k ks)
  show ?case
  proof (cases vals)
    case Nil
    then show ?thesis by simp
  next
    case (Cons v vals')
    from Cons.prems have fresh: "k \<notin> fst ` set d" by auto
    from Cons.prems have "distinct (map fst (d @ [(k, v)]) @ ks)" by auto
    from Cons.IH [OF this] fresh Cons show ?thesis
      by (simp add: update_fresh)
  qed
qed

lemma dict_zip_distinct: "distinct ks \<Longrightarrow> dict_zip ks vals = zip ks vals"
  using fold_update_distinct [of "[]" ks vals] by (simp add: dict_zip_def)

lemma product_repeat_bool:
  "product_repeat [False, True] (Suc n) =
     map (\<lambda>t. False # t) (product_repeat [False, True] n) @
     map (\<lambda>t. True # t) (product_repeat [False, True] n)"
  by simp

declare product_repeat.simps(2) [simp del]

lemma length_product_repeat: "length (product_repeat [False, True] n) = 2 ^ n"
  by (induction n) (simp_all add: product_repeat_bool)

lemma length_product_repeat_elem:
  "t \<in> set (product_repeat [False, True] n) \<Longrightarrow> length t = n"
proof (induction n arbitrary: t)
  case 0
  then show ?case by simp
next
  case (Suc n)
  from Suc.prems obtain b t' where "t = b # t'" "t' \<in> set (product_repeat [False, True] n)"
    by (auto simp: product_repeat_bool)
  with Suc.IH show ?case by simp
qed

lemma bit_add_power:
  fixes a :: nat
  assumes "k < n"
  shows "bit (a + 2 ^ n) k = bit a k"
proof -
  from assms obtain d where "n = Suc (k + d)"
    by (auto dest: less_imp_Suc_add)
  then have n: "n = k + Suc d"
    by simp
  have split: "(2::nat) ^ n = 2 ^ k * 2 ^ Suc d"
    by (simp only: n power_add)
  have "(a + 2 ^ k * 2 ^ Suc d) div 2 ^ k = 2 ^ Suc d + a div 2 ^ k"
    by (rule div_mult_self2) simp
  then have "(a + 2 ^ n) div 2 ^ k = 2 * 2 ^ d + a div 2 ^ k"
    by (simp only: split power_Suc)
  then show ?thesis
    by (simp only: bit_iff_odd) simp
qed

text \<open>
  Tuple number \<open>i\<close> of the product holds the binary digits of \<open>i\<close>, the last position being
  the lowest digit.
\<close>

lemma product_repeat_bit:
  "i < 2 ^ n \<Longrightarrow> j < n \<Longrightarrow> product_repeat [False, True] n ! i ! j = bit i (n - 1 - j)"
proof (induction n arbitrary: i j)
  case 0
  then show ?case by simp
next
  case (Suc n)
  let ?P = "product_repeat [False, True] n"
  have len: "length ?P = 2 ^ n" by (rule length_product_repeat)
  show ?case
  proof (cases "i < 2 ^ n")
    case True
    then have elem: "product_repeat [False, True] (Suc n) ! i = False # ?P ! i"
      by (simp add: product_repeat_bool nth_append len)
    show ?thesis
    proof (cases j)
      case 0
      from True have "\<not> bit i n" by (simp add: bit_iff_odd)
      with elem 0 show ?thesis by simp
    next
      case (Suc j')
      with Suc.prems have "j' < n" by simp
      from Suc.IH [OF True this] elem Suc show ?thesis by simp
    qed
  next
    case False
    define i' where "i' = i - 2 ^ n"
    from False Suc.prems(1) have i': "i' < 2 ^ n" "i = i' + 2 ^ n"
      by (simp_all add: i'_def)
    from False have elem: "product_repeat [False, True] (Suc n) ! i = True # ?P ! i'"
      using i' by (simp add: product_repeat_bool nth_append len)
    show ?thesis
    proof (cases j)
      case 0
      have "(i' + 2 ^ n) div 2 ^ n = 1 + i' div 2 ^ n"
        using div_mult_self2 [of "2 ^ n" i' 1] by simp
      with i' have "i div 2 ^ n = 1" by simp
      then have "bit i n" by (simp add: bit_iff_odd)
      with elem 0 show ?thesis by simp
    next
      case (Suc j')
      with Suc.prems have j': "j' < n" by simp
      then have "bit i (n - 1 - j') = bit i' (n - 1 - j')"
        unfolding i'(2) by (intro bit_add_power) simp
      with Suc.IH [OF i'(1) j'] elem Suc show ?thesis by simp
    qed
  qed
qed

text \<open>The tuples come in strictly increasing lexicographic order, \<open>False\<close> before \<open>True\<close>.\<close>

lemma product_repeat_sorted: "sorted_wrt (<) (product_repeat [False, True] n)"
proof (induction n)
  case 0
  then show ?case by simp
next
  case (Suc n)
  have "sorted_wrt (<) (map (\<lambda>t. b # t) (product_repeat [False, True] n))" for b :: bool
    using Suc by (simp add: sorted_wrt_map)
  then show ?case
    by (auto simp: product_repeat_bool sorted_wrt_append)
qed

lemma all_models_distinct:
  assumes "distinct vs" and "\<forall>v \<in> set vs. variable_name v"
  shows "all_models vs = Inr (map (zip vs) (product_repeat [False, True] (length vs)))"
proof -
  from assms(2) have "assert_variables vs = Inr ()"
    by (simp add: assert_variables_iff)
  with assms(1) show ?thesis
    by (simp add: all_models_def dict_zip_distinct)
qed

lemmas all_models_eval =
  all_models_def dict_zip_def product_repeat.simps token_eval numeral_2_eq_2 numeral_3_eq_3

section \<open>Claim C5: the order of \<open>all_models\<close>\<close>

text \<open>
  C5. For a list \<open>vs\<close> of distinct variable names, \<open>all_models(vs)\<close> yields \<open>2 ^ |vs|\<close>
  models, each with exactly the keys \<open>vs\<close>. Model number \<open>i\<close> (from 0) gives the variable at
  position \<open>j\<close> the binary digit of \<open>i\<close> of weight \<open>2 ^ (|vs| - 1 - j)\<close>, so the last variable
  changes fastest; the tuples of values are strictly increasing in the lexicographic order
  with \<open>False\<close> before \<open>True\<close>. For \<open>p, q\<close> the models are FF, FT, TF, TT.
\<close>

theorem all_models_order:
  assumes "distinct vs" and "\<forall>v \<in> set vs. variable_name v"
  shows "\<exists>ms. all_models vs = Inr ms
    \<and> length ms = 2 ^ length vs
    \<and> (\<forall>m \<in> set ms. map fst m = vs)
    \<and> (\<forall>i < 2 ^ length vs. \<forall>j < length vs.
          map_of (ms ! i) (vs ! j) = Some (bit i (length vs - 1 - j)))
    \<and> sorted_wrt (<) (map (map snd) ms)
    \<and> all_models [''p'', ''q''] =
        Inr [[(''p'', False), (''q'', False)], [(''p'', False), (''q'', True)],
             [(''p'', True), (''q'', False)], [(''p'', True), (''q'', True)]]"
proof -
  let ?P = "product_repeat [False, True] (length vs)"
  let ?ms = "map (zip vs) ?P"
  have ms: "all_models vs = Inr ?ms"
    using assms by (rule all_models_distinct)
  have len: "length ?ms = 2 ^ length vs"
    by (simp add: length_product_repeat)
  have elem: "length t = length vs" if "t \<in> set ?P" for t
    using that by (rule length_product_repeat_elem)
  have keys: "\<forall>m \<in> set ?ms. map fst m = vs"
    using elem by auto
  have bits: "\<forall>i < 2 ^ length vs. \<forall>j < length vs.
          map_of (?ms ! i) (vs ! j) = Some (bit i (length vs - 1 - j))"
  proof (intro allI impI)
    fix i j :: nat
    assume i: "i < 2 ^ length vs" and j: "j < length vs"
    from i have "?P ! i \<in> set ?P"
      by (simp add: length_product_repeat)
    then have l: "length vs = length (?P ! i)"
      using elem by simp
    from i have "?ms ! i = zip vs (?P ! i)"
      by (simp add: length_product_repeat)
    moreover have "map_of (zip vs (?P ! i)) (vs ! j) = Some (?P ! i ! j)"
      using l assms(1) j by (intro map_of_zip_nth) simp_all
    ultimately show "map_of (?ms ! i) (vs ! j) = Some (bit i (length vs - 1 - j))"
      using product_repeat_bit [OF i j] by simp
  qed
  have "map (map snd) ?ms = ?P"
    using elem by (simp add: map_idI)
  then have sorted: "sorted_wrt (<) (map (map snd) ?ms)"
    using product_repeat_sorted by simp
  have ex: "all_models [''p'', ''q''] =
        Inr [[(''p'', False), (''q'', False)], [(''p'', False), (''q'', True)],
             [(''p'', True), (''q'', False)], [(''p'', True), (''q'', True)]]"
    by (simp add: all_models_eval)
  from ms len keys bits sorted ex show ?thesis
    by blast
qed

theorem all_models_order_witness:
  "distinct [''q'', ''p''] \<and> variable_name ''q'' \<and> variable_name ''p''
   \<and> all_models [''q'', ''p''] =
        Inr [[(''q'', False), (''p'', False)], [(''q'', False), (''p'', True)],
             [(''q'', True), (''p'', False)], [(''q'', True), (''p'', True)]]
   \<and> length [[(''q'', False), (''p'', False)], [(''q'', False), (''p'', True)],
             [(''q'', True), (''p'', False)], [(''q'', True), (''p'', True)]]
        = 2 ^ length [''q'', ''p'']
   \<and> map_of [(''q'', True), (''p'', False)] ''q'' = Some (bit (2::nat) 1)
   \<and> map_of [(''q'', True), (''p'', False)] ''p'' = Some (bit (2::nat) 0)"
proof -
  have d: "distinct [''q'', ''p'']"
    by simp
  have v: "\<forall>v \<in> set [''q'', ''p'']. variable_name v"
    by simp
  have e: "all_models [''q'', ''p''] =
        Inr [[(''q'', False), (''p'', False)], [(''q'', False), (''p'', True)],
             [(''q'', True), (''p'', False)], [(''q'', True), (''p'', True)]]"
    by (simp add: all_models_eval)
  from all_models_order [OF d v] e
  have len: "length [[(''q'', False), (''p'', False)], [(''q'', False), (''p'', True)],
             [(''q'', True), (''p'', False)], [(''q'', True), (''p'', True)]]
        = 2 ^ length [''q'', ''p'']"
    and bits: "\<forall>i < 2 ^ length [''q'', ''p'']. \<forall>j < length [''q'', ''p''].
          map_of ([[(''q'', False), (''p'', False)], [(''q'', False), (''p'', True)],
             [(''q'', True), (''p'', False)], [(''q'', True), (''p'', True)]] ! i)
            ([''q'', ''p''] ! j) = Some (bit i (length [''q'', ''p''] - 1 - j))"
    by auto
  from bits [rule_format, of 2 0] have b0: "map_of [(''q'', True), (''p'', False)] ''q''
      = Some (bit (2::nat) 1)"
    by simp
  from bits [rule_format, of 2 1] have b1: "map_of [(''q'', True), (''p'', False)] ''p''
      = Some (bit (2::nat) 0)"
    by simp
  from d e len b0 b1 show ?thesis
    by simp
qed

section \<open>Claim C10: formulas without variables\<close>

text \<open>
  C10. \<open>all_models([])\<close> yields one model, the empty dictionary. So for a constructed
  formula without variables \<open>is_tautology\<close>, \<open>is_contradiction\<close> and \<open>is_satisfiable\<close> return:
  with \<open>b\<close> the value of the formula in the empty model, they are \<open>b\<close>, \<open>not b\<close> and \<open>b\<close>.
  In particular \<open>T\<close> is a tautology, \<open>F\<close> is a contradiction and \<open>F\<close> is not satisfiable.
\<close>

theorem variable_free_classification:
  "all_models [] = Inr [[]]
   \<and> (\<forall>f. constructed f \<and> variables f = Inr {} \<longrightarrow>
         (\<exists>b. evaluate f [] = Inr b \<and> is_tautology f = Inr b
            \<and> is_contradiction f = Inr (\<not> b) \<and> is_satisfiable f = Inr b))
   \<and> is_tautology (Atom ''T'') = Inr True
   \<and> is_contradiction (Atom ''F'') = Inr True
   \<and> is_satisfiable (Atom ''F'') = Inr False"
proof -
  have models: "all_models [] = Inr [[]]"
    by (simp add: all_models_def dict_zip_def)
  have general: "\<exists>b. evaluate f [] = Inr b \<and> is_tautology f = Inr b
            \<and> is_contradiction f = Inr (\<not> b) \<and> is_satisfiable f = Inr b"
    if f: "constructed f" "variables f = Inr {}" for f
  proof -
    have "is_model [] = Inr True"
      by (simp add: is_model_def)
    from evaluate_standard [OF f(1) this f(2)]
    have "evaluate f [] = Inr (standard_value (model_valuation []) f)"
      by simp
    with f(2) models show ?thesis
      by (simp add: is_tautology_def is_contradiction_def is_satisfiable_def)
  qed
  have c: "constructed (Atom ''T'')" "variables (Atom ''T'') = Inr {}"
    "constructed (Atom ''F'')" "variables (Atom ''F'') = Inr {}"
    by (simp_all add: is_constant_def)
  have e: "evaluate (Atom ''T'') [] = Inr True" "evaluate (Atom ''F'') [] = Inr False"
    by (simp_all add: evaluate_eval)
  from general [OF c(1,2)] general [OF c(3,4)] e
  have "is_tautology (Atom ''T'') = Inr True" "is_contradiction (Atom ''F'') = Inr True"
    "is_satisfiable (Atom ''F'') = Inr False"
    by auto
  with models general show ?thesis
    by blast
qed

theorem variable_free_classification_witness:
  "constructed (Binary ''->'' (Atom ''F'') (Neg (Atom ''T'')))
   \<and> variables (Binary ''->'' (Atom ''F'') (Neg (Atom ''T''))) = Inr {}
   \<and> evaluate (Binary ''->'' (Atom ''F'') (Neg (Atom ''T''))) [] = Inr True
   \<and> is_tautology (Binary ''->'' (Atom ''F'') (Neg (Atom ''T''))) = Inr True
   \<and> is_contradiction (Binary ''->'' (Atom ''F'') (Neg (Atom ''T''))) = Inr False
   \<and> is_satisfiable (Binary ''->'' (Atom ''F'') (Neg (Atom ''T''))) = Inr True"
proof -
  have t: "is_binary ''->''" "is_constant ''F''" "is_constant ''T''"
    by (simp_all add: token_eval)
  have c: "constructed (Binary ''->'' (Atom ''F'') (Neg (Atom ''T'')))"
    using t by simp
  have v: "variables (Binary ''->'' (Atom ''F'') (Neg (Atom ''T''))) = Inr {}"
    using t by simp
  have e: "evaluate (Binary ''->'' (Atom ''F'') (Neg (Atom ''T''))) [] = Inr True"
    by (simp add: evaluate_eval)
  from variable_free_classification c v
  have "\<exists>b. evaluate (Binary ''->'' (Atom ''F'') (Neg (Atom ''T''))) [] = Inr b
      \<and> is_tautology (Binary ''->'' (Atom ''F'') (Neg (Atom ''T''))) = Inr b
      \<and> is_contradiction (Binary ''->'' (Atom ''F'') (Neg (Atom ''T''))) = Inr (\<not> b)
      \<and> is_satisfiable (Binary ''->'' (Atom ''F'') (Neg (Atom ''T''))) = Inr b"
    by blast
  with e c v show ?thesis
    by auto
qed

section \<open>The converters preserve truth values\<close>

text \<open>
  The sets that \<open>variables\<close> and \<open>operators\<close> return on a constructed formula, as total
  functions for use in the proofs below.
\<close>

definition vars_of :: "Formula \<Rightarrow> string set" where
  "vars_of f = (case variables f of Inl e \<Rightarrow> {} | Inr V \<Rightarrow> V)"

definition ops_of :: "Formula \<Rightarrow> string set" where
  "ops_of f = (case operators f of Inl e \<Rightarrow> {} | Inr ops \<Rightarrow> ops)"

lemma variables_vars_of: "constructed f \<Longrightarrow> variables f = Inr (vars_of f)"
  using variables_total [of f] by (auto simp: vars_of_def)

lemma operators_ops_of:
  assumes "constructed f"
  shows "operators f = Inr (ops_of f)"
proof -
  from assms obtain S where "operators f = Inr S"
    using operators_total by blast
  then show ?thesis
    by (simp add: ops_of_def)
qed

lemma vars_of_simps [simp]:
  "variable_name r \<Longrightarrow> vars_of (Atom r) = {r}"
  "is_constant r \<Longrightarrow> vars_of (Atom r) = {}"
  "vars_of (Neg a) = vars_of a"
  by (simp_all add: vars_of_def)

lemma vars_of_Binary [simp]:
  assumes "is_binary r" "constructed a" "constructed b"
  shows "vars_of (Binary r a b) = vars_of a \<union> vars_of b"
proof -
  have "variables (Binary r a b) = Inr (vars_of a \<union> vars_of b)"
    using assms(1) variables_vars_of [OF assms(2)] variables_vars_of [OF assms(3)] by simp
  then show ?thesis
    by (subst vars_of_def) simp
qed

lemma ops_of_Atom [simp]:
  "variable_name r \<Longrightarrow> ops_of (Atom r) = {}"
  "is_constant r \<Longrightarrow> ops_of (Atom r) = {r}"
  by (simp_all add: ops_of_def)

lemma ops_of_Neg [simp]:
  assumes "constructed a"
  shows "ops_of (Neg a) = insert ''~'' (ops_of a)"
proof -
  have "operators (Neg a) = Inr (insert ''~'' (ops_of a))"
    using operators_ops_of [OF assms] by simp
  then show ?thesis
    by (subst ops_of_def) simp
qed

lemma ops_of_Binary [simp]:
  assumes "is_binary r" "constructed a" "constructed b"
  shows "ops_of (Binary r a b) = insert r (ops_of a \<union> ops_of b)"
proof -
  have "operators (Binary r a b) = Inr (insert r (ops_of a \<union> ops_of b))"
    using assms(1) operators_ops_of [OF assms(2)] operators_ops_of [OF assms(3)] by simp
  then show ?thesis
    by (subst ops_of_def) simp
qed

text \<open>A constructed formula over a set of operators and constants.\<close>

definition over_basis :: "string set \<Rightarrow> Formula \<Rightarrow> bool" where
  "over_basis S f = (constructed f \<and> ops_of f \<subseteq> S)"

lemma binary_tokens [simp]:
  "is_binary ''&''" "is_binary ''|''" "is_binary ''->''" "is_binary ''+''" "is_binary ''<->''"
  "is_binary ''-&''" "is_binary ''-|''"
  by (simp_all add: is_binary_def)

lemma constant_tokens [simp]: "is_constant ''T''" "is_constant ''F''"
  by (simp_all add: is_constant_def)

lemma btt_simps [simp]:
  "binary_truth_table ''&'' x y = (x \<and> y)"
  "binary_truth_table ''|'' x y = (x \<or> y)"
  "binary_truth_table ''->'' x y = (x \<longrightarrow> y)"
  "binary_truth_table ''<->'' x y = (x \<longleftrightarrow> y)"
  "binary_truth_table ''+'' x y = (x \<noteq> y)"
  "binary_truth_table ''-&'' x y = (\<not> (x \<and> y))"
  "binary_truth_table ''-|'' x y = (\<not> (x \<or> y))"
  by (simp_all add: binary_truth_table_def)

subsection \<open>\<open>to_not_and_or\<close>\<close>

lemma to_not_and_or_simps:
  "variable_name r \<Longrightarrow> to_not_and_or (Atom r) = Inr (Atom r)"
  "to_not_and_or (Atom ''T'') = Inr (Binary ''|'' (Atom ''p'') (Neg (Atom ''p'')))"
  "to_not_and_or (Atom ''F'') = Inr (Binary ''&'' (Atom ''p'') (Neg (Atom ''p'')))"
  "to_not_and_or (Neg a) = and_then (to_not_and_or a) (\<lambda>a'. Inr (Neg a'))"
  by (simp_all add: new_unary_def)

lemma to_not_and_or_binary:
  "to_not_and_or a = Inr a' \<Longrightarrow> to_not_and_or b = Inr b' \<Longrightarrow>
     to_not_and_or (Binary ''&'' a b) = Inr (Binary ''&'' a' b')
   \<and> to_not_and_or (Binary ''|'' a b) = Inr (Binary ''|'' a' b')
   \<and> to_not_and_or (Binary ''->'' a b) = Inr (Binary ''|'' (Neg a') b')
   \<and> to_not_and_or (Binary ''<->'' a b) =
       Inr (Binary ''|'' (Binary ''&'' a' b') (Binary ''&'' (Neg a') (Neg b')))
   \<and> to_not_and_or (Binary ''+'' a b) =
       Inr (Binary ''|'' (Binary ''&'' a' (Neg b')) (Binary ''&'' (Neg a') b'))
   \<and> to_not_and_or (Binary ''-&'' a b) = Inr (Neg (Binary ''&'' a' b'))
   \<and> to_not_and_or (Binary ''-|'' a b) = Inr (Neg (Binary ''|'' a' b'))"
  by simp

declare to_not_and_or.simps [simp del]

text \<open>
  What every converter is shown to return on \<open>f\<close>: a formula \<open>g\<close> over the basis \<open>S\<close> with
  the truth value of \<open>f\<close> under every valuation, whose variables are those of \<open>f\<close> and,
  if \<open>f\<close> holds a constant, possibly \<open>p\<close>.
\<close>

definition converted :: "string set \<Rightarrow> Formula \<Rightarrow> Formula \<Rightarrow> bool" where
  "converted S f g =
     (over_basis S g
      \<and> vars_of g \<subseteq> vars_of f \<union> {''p''}
      \<and> (''T'' \<notin> ops_of f \<and> ''F'' \<notin> ops_of f \<longrightarrow> vars_of g \<subseteq> vars_of f)
      \<and> (\<forall>val. standard_value val g = standard_value val f))"

lemma to_not_and_or_converted:
  assumes "constructed f"
  shows "\<exists>g. to_not_and_or f = Inr g \<and> converted {''~'', ''&'', ''|''} f g"
  using assms
proof (induction f rule: constructed_induct)
  case (Variable r)
  then show ?case
    by (simp add: to_not_and_or_simps converted_def over_basis_def)
next
  case (Constant r)
  then consider "r = ''T''" | "r = ''F''" by (auto simp: is_constant_def)
  then show ?case
    by cases (simp_all add: to_not_and_or_simps converted_def over_basis_def)
next
  case (Neg a)
  then obtain a' where a': "to_not_and_or a = Inr a'" "converted {''~'', ''&'', ''|''} a a'"
    by blast
  with Neg.hyps show ?case
    by (auto simp: to_not_and_or_simps converted_def over_basis_def)
next
  case (Binary r a b)
  then obtain a' b' where a': "to_not_and_or a = Inr a'" "converted {''~'', ''&'', ''|''} a a'"
    and b': "to_not_and_or b = Inr b'" "converted {''~'', ''&'', ''|''} b b'"
    by blast
  from a'(2) b'(2) have c: "constructed a'" "constructed b'"
    by (simp_all add: converted_def over_basis_def)
  note eqs = to_not_and_or_binary [OF a'(1) b'(1)]
  from Binary.hyps(1) consider "r = ''&''" | "r = ''|''" | "r = ''->''" | "r = ''+''"
    | "r = ''<->''" | "r = ''-&''" | "r = ''-|''"
    by (auto simp: is_binary_iff)
  then show ?case
  proof cases
    case 1
    with eqs a'(2) b'(2) Binary.hyps(2,3) c show ?thesis
      by (auto simp: converted_def over_basis_def)
  next
    case 2
    with eqs a'(2) b'(2) Binary.hyps(2,3) c show ?thesis
      by (auto simp: converted_def over_basis_def)
  next
    case 3
    with eqs a'(2) b'(2) Binary.hyps(2,3) c show ?thesis
      by (auto simp: converted_def over_basis_def)
  next
    case 4
    with eqs a'(2) b'(2) Binary.hyps(2,3) c show ?thesis
      by (auto simp: converted_def over_basis_def)
  next
    case 5
    with eqs a'(2) b'(2) Binary.hyps(2,3) c show ?thesis
      by (auto simp: converted_def over_basis_def)
  next
    case 6
    with eqs a'(2) b'(2) Binary.hyps(2,3) c show ?thesis
      by (auto simp: converted_def over_basis_def)
  next
    case 7
    with eqs a'(2) b'(2) Binary.hyps(2,3) c show ?thesis
      by (auto simp: converted_def over_basis_def)
  qed
qed

subsection \<open>The local \<open>convert\<close> functions\<close>

text \<open>
  What a \<open>convert\<close> function is shown to return on \<open>g\<close>: a formula \<open>h\<close> over the basis
  \<open>S\<close> with the variables of \<open>g\<close> and its truth value under every valuation.
\<close>

definition rewritten :: "string set \<Rightarrow> Formula \<Rightarrow> Formula \<Rightarrow> bool" where
  "rewritten S g h =
     (over_basis S h \<and> vars_of h = vars_of g
      \<and> (\<forall>val. standard_value val h = standard_value val g))"

lemma converted_rewritten:
  "converted S f g \<Longrightarrow> rewritten S' g h \<Longrightarrow> converted S' f h"
  by (simp add: converted_def rewritten_def)

lemma to_not_and_convert_simps:
  "variable_name r \<Longrightarrow> to_not_and_convert (Atom r) = Inr (Atom r)"
  "to_not_and_convert (Neg a) = and_then (to_not_and_convert a) (\<lambda>a'. Inr (Neg a'))"
  "to_not_and_convert (Binary ''&'' a b) =
     and_then (to_not_and_convert a) (\<lambda>a'.
     and_then (to_not_and_convert b) (\<lambda>b'. Inr (Binary ''&'' a' b')))"
  "to_not_and_convert (Binary ''|'' a b) =
     and_then (to_not_and_convert a) (\<lambda>a'.
     and_then (to_not_and_convert b) (\<lambda>b'. Inr (Neg (Binary ''&'' (Neg a') (Neg b')))))"
  by (simp_all add: new_unary_def)

declare to_not_and_convert.simps [simp del]

lemma to_not_and_convert_rewritten:
  assumes "constructed g"
  shows "ops_of g \<subseteq> {''~'', ''&'', ''|''}
    \<Longrightarrow> \<exists>h. to_not_and_convert g = Inr h \<and> rewritten {''~'', ''&''} g h"
  using assms
proof (induction g rule: constructed_induct)
  case (Variable r)
  then show ?case
    by (simp add: to_not_and_convert_simps rewritten_def over_basis_def)
next
  case (Constant r)
  then show ?case by (auto simp: is_constant_def)
next
  case (Neg a)
  then obtain a' where "to_not_and_convert a = Inr a'" "rewritten {''~'', ''&''} a a'"
    by auto
  with Neg.hyps show ?case
    by (auto simp: to_not_and_convert_simps rewritten_def over_basis_def)
next
  case (Binary r a b)
  from Binary.prems Binary.hyps have sub: "ops_of a \<subseteq> {''~'', ''&'', ''|''}"
    "ops_of b \<subseteq> {''~'', ''&'', ''|''}" and r: "r = ''&'' \<or> r = ''|''"
    by auto
  from Binary.IH(1) [OF sub(1)] Binary.IH(2) [OF sub(2)] obtain a' b' where
    a': "to_not_and_convert a = Inr a'" "rewritten {''~'', ''&''} a a'" and
    b': "to_not_and_convert b = Inr b'" "rewritten {''~'', ''&''} b b'"
    by blast
  from a'(2) b'(2) have c: "constructed a'" "constructed b'"
    by (simp_all add: rewritten_def over_basis_def)
  from r show ?case
  proof
    assume "r = ''&''"
    with a' b' c Binary.hyps(2,3) show ?thesis
      by (auto simp: to_not_and_convert_simps rewritten_def over_basis_def)
  next
    assume "r = ''|''"
    with a' b' c Binary.hyps(2,3) show ?thesis
      by (auto simp: to_not_and_convert_simps rewritten_def over_basis_def)
  qed
qed

lemma to_nand_convert_simps:
  "variable_name r \<Longrightarrow> to_nand_convert (Atom r) = Inr (Atom r)"
  "to_nand_convert (Neg a) =
     and_then (to_nand_convert a) (\<lambda>inner. Inr (Binary ''-&'' inner inner))"
  "to_nand_convert (Binary ''&'' a b) =
     and_then (to_nand_convert a) (\<lambda>left.
     and_then (to_nand_convert b) (\<lambda>right.
       Inr (Binary ''-&'' (Binary ''-&'' left right) (Binary ''-&'' left right))))"
  by simp_all

declare to_nand_convert.simps [simp del]

lemma to_nand_convert_rewritten:
  assumes "constructed g"
  shows "ops_of g \<subseteq> {''~'', ''&''}
    \<Longrightarrow> \<exists>h. to_nand_convert g = Inr h \<and> rewritten {''-&''} g h"
  using assms
proof (induction g rule: constructed_induct)
  case (Variable r)
  then show ?case
    by (simp add: to_nand_convert_simps rewritten_def over_basis_def)
next
  case (Constant r)
  then show ?case by (auto simp: is_constant_def)
next
  case (Neg a)
  then obtain a' where "to_nand_convert a = Inr a'" "rewritten {''-&''} a a'"
    by auto
  with Neg.hyps show ?case
    by (auto simp: to_nand_convert_simps rewritten_def over_basis_def)
next
  case (Binary r a b)
  from Binary.prems Binary.hyps have sub: "ops_of a \<subseteq> {''~'', ''&''}"
    "ops_of b \<subseteq> {''~'', ''&''}" and r: "r = ''&''"
    by auto
  from Binary.IH(1) [OF sub(1)] Binary.IH(2) [OF sub(2)] obtain a' b' where
    a': "to_nand_convert a = Inr a'" "rewritten {''-&''} a a'" and
    b': "to_nand_convert b = Inr b'" "rewritten {''-&''} b b'"
    by blast
  from a'(2) b'(2) have c: "constructed a'" "constructed b'"
    by (simp_all add: rewritten_def over_basis_def)
  with r a' b' Binary.hyps(2,3) show ?case
    by (auto simp: to_nand_convert_simps rewritten_def over_basis_def)
qed

lemma to_implies_not_convert_simps:
  "variable_name r \<Longrightarrow> to_implies_not_convert (Atom r) = Inr (Atom r)"
  "to_implies_not_convert (Neg a) =
     and_then (to_implies_not_convert a) (\<lambda>a'. Inr (Neg a'))"
  "to_implies_not_convert (Binary ''&'' a b) =
     and_then (to_implies_not_convert a) (\<lambda>left.
     and_then (to_implies_not_convert b) (\<lambda>right.
       Inr (Neg (Binary ''->'' left (Neg right)))))"
  "to_implies_not_convert (Binary ''|'' a b) =
     and_then (to_implies_not_convert a) (\<lambda>left.
     and_then (to_implies_not_convert b) (\<lambda>right.
       Inr (Binary ''->'' (Neg left) right)))"
  by (simp_all add: new_unary_def)

declare to_implies_not_convert.simps [simp del]

lemma to_implies_not_convert_rewritten:
  assumes "constructed g"
  shows "ops_of g \<subseteq> {''~'', ''&'', ''|''}
    \<Longrightarrow> \<exists>h. to_implies_not_convert g = Inr h \<and> rewritten {''->'', ''~''} g h"
  using assms
proof (induction g rule: constructed_induct)
  case (Variable r)
  then show ?case
    by (simp add: to_implies_not_convert_simps rewritten_def over_basis_def)
next
  case (Constant r)
  then show ?case by (auto simp: is_constant_def)
next
  case (Neg a)
  then obtain a' where "to_implies_not_convert a = Inr a'" "rewritten {''->'', ''~''} a a'"
    by auto
  with Neg.hyps show ?case
    by (auto simp: to_implies_not_convert_simps rewritten_def over_basis_def)
next
  case (Binary r a b)
  from Binary.prems Binary.hyps have sub: "ops_of a \<subseteq> {''~'', ''&'', ''|''}"
    "ops_of b \<subseteq> {''~'', ''&'', ''|''}" and r: "r = ''&'' \<or> r = ''|''"
    by auto
  from Binary.IH(1) [OF sub(1)] Binary.IH(2) [OF sub(2)] obtain a' b' where
    a': "to_implies_not_convert a = Inr a'" "rewritten {''->'', ''~''} a a'" and
    b': "to_implies_not_convert b = Inr b'" "rewritten {''->'', ''~''} b b'"
    by blast
  from a'(2) b'(2) have c: "constructed a'" "constructed b'"
    by (simp_all add: rewritten_def over_basis_def)
  from r show ?case
  proof
    assume "r = ''&''"
    with a' b' c Binary.hyps(2,3) show ?thesis
      by (auto simp: to_implies_not_convert_simps rewritten_def over_basis_def)
  next
    assume "r = ''|''"
    with a' b' c Binary.hyps(2,3) show ?thesis
      by (auto simp: to_implies_not_convert_simps rewritten_def over_basis_def)
  qed
qed

lemma to_implies_false_convert_simps:
  "variable_name r \<Longrightarrow> to_implies_false_convert (Atom r) = Inr (Atom r)"
  "to_implies_false_convert (Neg a) =
     and_then (to_implies_false_convert a) (\<lambda>inner. Inr (Binary ''->'' inner (Atom ''F'')))"
  "to_implies_false_convert (Binary ''->'' a b) =
     and_then (to_implies_false_convert a) (\<lambda>a'.
     and_then (to_implies_false_convert b) (\<lambda>b'. Inr (Binary ''->'' a' b')))"
  by (simp_all add: new_binary_def)

declare to_implies_false_convert.simps [simp del]

lemma to_implies_false_convert_rewritten:
  assumes "constructed g"
  shows "ops_of g \<subseteq> {''->'', ''~''}
    \<Longrightarrow> \<exists>h. to_implies_false_convert g = Inr h \<and> rewritten {''->'', ''F''} g h"
  using assms
proof (induction g rule: constructed_induct)
  case (Variable r)
  then show ?case
    by (simp add: to_implies_false_convert_simps rewritten_def over_basis_def)
next
  case (Constant r)
  then show ?case by (auto simp: is_constant_def)
next
  case (Neg a)
  then obtain a' where "to_implies_false_convert a = Inr a'" "rewritten {''->'', ''F''} a a'"
    by auto
  with Neg.hyps show ?case
    by (auto simp: to_implies_false_convert_simps rewritten_def over_basis_def)
next
  case (Binary r a b)
  from Binary.prems Binary.hyps have sub: "ops_of a \<subseteq> {''->'', ''~''}"
    "ops_of b \<subseteq> {''->'', ''~''}" and r: "r = ''->''"
    by auto
  from Binary.IH(1) [OF sub(1)] Binary.IH(2) [OF sub(2)] obtain a' b' where
    a': "to_implies_false_convert a = Inr a'" "rewritten {''->'', ''F''} a a'" and
    b': "to_implies_false_convert b = Inr b'" "rewritten {''->'', ''F''} b b'"
    by blast
  from a'(2) b'(2) have c: "constructed a'" "constructed b'"
    by (simp_all add: rewritten_def over_basis_def)
  with r a' b' Binary.hyps(2,3) show ?case
    by (auto simp: to_implies_false_convert_simps rewritten_def over_basis_def)
qed

subsection \<open>The five converters\<close>

lemma to_not_and_converted:
  assumes "constructed f"
  shows "\<exists>g. to_not_and f = Inr g \<and> converted {''~'', ''&''} f g"
proof -
  from to_not_and_or_converted [OF assms] obtain g where
    g: "to_not_and_or f = Inr g" "converted {''~'', ''&'', ''|''} f g"
    by blast
  then have "constructed g" "ops_of g \<subseteq> {''~'', ''&'', ''|''}"
    by (simp_all add: converted_def over_basis_def)
  from to_not_and_convert_rewritten [OF this] obtain h where
    "to_not_and_convert g = Inr h" "rewritten {''~'', ''&''} g h"
    by blast
  with g show ?thesis
    by (auto simp: to_not_and_def intro: converted_rewritten)
qed

lemma to_nand_converted:
  assumes "constructed f"
  shows "\<exists>g. to_nand f = Inr g \<and> converted {''-&''} f g"
proof -
  from to_not_and_converted [OF assms] obtain g where
    g: "to_not_and f = Inr g" "converted {''~'', ''&''} f g"
    by blast
  then have "constructed g" "ops_of g \<subseteq> {''~'', ''&''}"
    by (simp_all add: converted_def over_basis_def)
  from to_nand_convert_rewritten [OF this] obtain h where
    "to_nand_convert g = Inr h" "rewritten {''-&''} g h"
    by blast
  with g show ?thesis
    by (auto simp: to_nand_def intro: converted_rewritten)
qed

lemma to_implies_not_converted:
  assumes "constructed f"
  shows "\<exists>g. to_implies_not f = Inr g \<and> converted {''->'', ''~''} f g"
proof -
  from to_not_and_or_converted [OF assms] obtain g where
    g: "to_not_and_or f = Inr g" "converted {''~'', ''&'', ''|''} f g"
    by blast
  then have "constructed g" "ops_of g \<subseteq> {''~'', ''&'', ''|''}"
    by (simp_all add: converted_def over_basis_def)
  from to_implies_not_convert_rewritten [OF this] obtain h where
    "to_implies_not_convert g = Inr h" "rewritten {''->'', ''~''} g h"
    by blast
  with g show ?thesis
    by (auto simp: to_implies_not_def intro: converted_rewritten)
qed

lemma to_implies_false_converted:
  assumes "constructed f"
  shows "\<exists>g. to_implies_false f = Inr g \<and> converted {''->'', ''F''} f g"
proof -
  from to_implies_not_converted [OF assms] obtain g where
    g: "to_implies_not f = Inr g" "converted {''->'', ''~''} f g"
    by blast
  then have "constructed g" "ops_of g \<subseteq> {''->'', ''~''}"
    by (simp_all add: converted_def over_basis_def)
  from to_implies_false_convert_rewritten [OF this] obtain h where
    "to_implies_false_convert g = Inr h" "rewritten {''->'', ''F''} g h"
    by blast
  with g show ?thesis
    by (auto simp: to_implies_false_def intro: converted_rewritten)
qed

text \<open>A converted formula evaluates like the original wherever the model covers both.\<close>

lemma converted_evaluate:
  assumes c: "converted S f g" and f: "constructed f" and m: "is_model m = Inr True"
    and V: "vars_of f \<subseteq> set (map fst m)"
    and p: "''T'' \<in> ops_of f \<or> ''F'' \<in> ops_of f \<longrightarrow> ''p'' \<in> set (map fst m)"
  shows "evaluate g m = evaluate f m \<and> operators g = Inr (ops_of g) \<and> ops_of g \<subseteq> S"
proof -
  from c have g: "constructed g" and ops: "ops_of g \<subseteq> S"
    and same: "standard_value (model_valuation m) g = standard_value (model_valuation m) f"
    by (simp_all add: converted_def over_basis_def)
  have "vars_of g \<subseteq> set (map fst m)"
  proof (cases "''T'' \<in> ops_of f \<or> ''F'' \<in> ops_of f")
    case True
    with p have "''p'' \<in> set (map fst m)" by simp
    moreover from c have "vars_of g \<subseteq> vars_of f \<union> {''p''}"
      by (simp add: converted_def)
    ultimately show ?thesis using V by auto
  next
    case False
    with c have "vars_of g \<subseteq> vars_of f"
      by (simp add: converted_def)
    with V show ?thesis by auto
  qed
  from evaluate_standard [OF g m variables_vars_of [OF g] this]
    evaluate_standard [OF f m variables_vars_of [OF f] V] same
  have "evaluate g m = evaluate f m" by simp
  with ops operators_ops_of [OF g] show ?thesis by simp
qed

section \<open>Claim C1: the converters keep the truth table and reach their basis\<close>

text \<open>
  C1, as stated, for a model over the variables of \<open>f\<close>: false. Every converter rewrites a
  constant through the variable \<open>p\<close>, and \<open>evaluate\<close> asserts that the model covers the
  variables of the formula it is given. For \<open>f = T\<close> and the empty model, which is a model
  over the variables of \<open>f\<close>, \<open>evaluate(f, m)\<close> is true and \<open>evaluate(C(f), m)\<close> fails that
  assertion, for each of the five converters.
\<close>

theorem converters_constant_counterexample:
  "constructed (Atom ''T'')
   \<and> is_model [] = Inr True
   \<and> variables (Atom ''T'') = Inr {}
   \<and> evaluate (Atom ''T'') [] = Inr True
   \<and> to_not_and_or (Atom ''T'') = Inr (Binary ''|'' (Atom ''p'') (Neg (Atom ''p'')))
   \<and> and_then (to_not_and_or (Atom ''T'')) (\<lambda>g. evaluate g []) = Inl AssertionError
   \<and> and_then (to_not_and (Atom ''T'')) (\<lambda>g. evaluate g []) = Inl AssertionError
   \<and> and_then (to_nand (Atom ''T'')) (\<lambda>g. evaluate g []) = Inl AssertionError
   \<and> and_then (to_implies_not (Atom ''T'')) (\<lambda>g. evaluate g []) = Inl AssertionError
   \<and> and_then (to_implies_false (Atom ''T'')) (\<lambda>g. evaluate g []) = Inl AssertionError"
proof -
  have 1: "to_not_and_or (Atom ''T'') = Inr (Binary ''|'' (Atom ''p'') (Neg (Atom ''p'')))"
    by (simp add: to_not_and_or_simps)
  have 2: "to_not_and (Atom ''T'') =
      Inr (Neg (Binary ''&'' (Neg (Atom ''p'')) (Neg (Neg (Atom ''p'')))))"
    by (simp add: to_not_and_def 1 to_not_and_convert_simps)
  have 3: "to_nand (Atom ''T'') = Inr
      (Binary ''-&''
        (Binary ''-&''
          (Binary ''-&'' (Binary ''-&'' (Atom ''p'') (Atom ''p''))
             (Binary ''-&'' (Binary ''-&'' (Atom ''p'') (Atom ''p''))
                (Binary ''-&'' (Atom ''p'') (Atom ''p''))))
          (Binary ''-&'' (Binary ''-&'' (Atom ''p'') (Atom ''p''))
             (Binary ''-&'' (Binary ''-&'' (Atom ''p'') (Atom ''p''))
                (Binary ''-&'' (Atom ''p'') (Atom ''p'')))))
        (Binary ''-&''
          (Binary ''-&'' (Binary ''-&'' (Atom ''p'') (Atom ''p''))
             (Binary ''-&'' (Binary ''-&'' (Atom ''p'') (Atom ''p''))
                (Binary ''-&'' (Atom ''p'') (Atom ''p''))))
          (Binary ''-&'' (Binary ''-&'' (Atom ''p'') (Atom ''p''))
             (Binary ''-&'' (Binary ''-&'' (Atom ''p'') (Atom ''p''))
                (Binary ''-&'' (Atom ''p'') (Atom ''p''))))))"
    by (simp add: to_nand_def 2 to_nand_convert_simps)
  have 4: "to_implies_not (Atom ''T'') = Inr (Binary ''->'' (Neg (Atom ''p'')) (Neg (Atom ''p'')))"
    by (simp add: to_implies_not_def 1 to_implies_not_convert_simps)
  have 5: "to_implies_false (Atom ''T'') =
      Inr (Binary ''->'' (Binary ''->'' (Atom ''p'') (Atom ''F''))
                         (Binary ''->'' (Atom ''p'') (Atom ''F'')))"
    by (simp add: to_implies_false_def 4 to_implies_false_convert_simps)
  have e: "evaluate (Atom ''T'') [] = Inr True" "is_model [] = Inr True"
    by (simp_all add: evaluate_eval)
  show ?thesis
    unfolding 1 2 3 4 5 e and_then_Inr
    by (simp add: evaluate.simps [of _ _ _ "[]"] is_model_def model_variables_def)
qed

text \<open>
  C1, amended. For each of the five converters \<open>C\<close>, every constructed formula \<open>f\<close> and
  every model \<open>m\<close> that covers the variables of \<open>f\<close> and, if \<open>f\<close> holds a constant, the
  variable \<open>p\<close>: \<open>evaluate(f, m)\<close> returns, \<open>C(f)\<close> returns, \<open>evaluate(C(f), m)\<close> is
  \<open>evaluate(f, m)\<close>, and the operators of \<open>C(f)\<close> are in the basis of \<open>C\<close>.
\<close>

theorem converters_preserve_evaluation:
  assumes "constructed f" and "is_model m = Inr True"
    and "variables f = Inr V" and "V \<subseteq> set (map fst m)"
    and "operators f = Inr S"
    and "''T'' \<in> S \<or> ''F'' \<in> S \<longrightarrow> ''p'' \<in> set (map fst m)"
  shows "(\<exists>b. evaluate f m = Inr b)
    \<and> (\<exists>g B. to_not_and_or f = Inr g \<and> evaluate g m = evaluate f m
          \<and> operators g = Inr B \<and> B \<subseteq> {''~'', ''&'', ''|''})
    \<and> (\<exists>g B. to_not_and f = Inr g \<and> evaluate g m = evaluate f m
          \<and> operators g = Inr B \<and> B \<subseteq> {''~'', ''&''})
    \<and> (\<exists>g B. to_nand f = Inr g \<and> evaluate g m = evaluate f m
          \<and> operators g = Inr B \<and> B \<subseteq> {''-&''})
    \<and> (\<exists>g B. to_implies_not f = Inr g \<and> evaluate g m = evaluate f m
          \<and> operators g = Inr B \<and> B \<subseteq> {''->'', ''~''})
    \<and> (\<exists>g B. to_implies_false f = Inr g \<and> evaluate g m = evaluate f m
          \<and> operators g = Inr B \<and> B \<subseteq> {''->'', ''F''})"
proof -
  from assms(1,3) have V: "vars_of f = V"
    by (simp add: variables_vars_of)
  from assms(1,5) have S: "ops_of f = S"
    by (simp add: operators_ops_of)
  have cover: "vars_of f \<subseteq> set (map fst m)"
    using V assms(4) by simp
  have p: "''T'' \<in> ops_of f \<or> ''F'' \<in> ops_of f \<longrightarrow> ''p'' \<in> set (map fst m)"
    using S assms(6) by simp
  note ev = converted_evaluate [OF _ assms(1,2) cover p]
  have 0: "\<exists>b. evaluate f m = Inr b"
    using evaluate_standard [OF assms(1-4)] by blast
  have 1: "\<exists>g B. to_not_and_or f = Inr g \<and> evaluate g m = evaluate f m
          \<and> operators g = Inr B \<and> B \<subseteq> {''~'', ''&'', ''|''}"
    using to_not_and_or_converted [OF assms(1)] ev by blast
  have 2: "\<exists>g B. to_not_and f = Inr g \<and> evaluate g m = evaluate f m
          \<and> operators g = Inr B \<and> B \<subseteq> {''~'', ''&''}"
    using to_not_and_converted [OF assms(1)] ev by blast
  have 3: "\<exists>g B. to_nand f = Inr g \<and> evaluate g m = evaluate f m
          \<and> operators g = Inr B \<and> B \<subseteq> {''-&''}"
    using to_nand_converted [OF assms(1)] ev by blast
  have 4: "\<exists>g B. to_implies_not f = Inr g \<and> evaluate g m = evaluate f m
          \<and> operators g = Inr B \<and> B \<subseteq> {''->'', ''~''}"
    using to_implies_not_converted [OF assms(1)] ev by blast
  have 5: "\<exists>g B. to_implies_false f = Inr g \<and> evaluate g m = evaluate f m
          \<and> operators g = Inr B \<and> B \<subseteq> {''->'', ''F''}"
    using to_implies_false_converted [OF assms(1)] ev by blast
  from 0 1 2 3 4 5 show ?thesis
    by (intro conjI)
qed

theorem converters_preserve_evaluation_witness:
  "constructed (Binary ''->'' (Atom ''T'') (Atom ''q''))
   \<and> is_model [(''q'', False), (''p'', True)] = Inr True
   \<and> variables (Binary ''->'' (Atom ''T'') (Atom ''q'')) = Inr {''q''}
   \<and> {''q''} \<subseteq> set (map fst [(''q'', False), (''p'', True)])
   \<and> operators (Binary ''->'' (Atom ''T'') (Atom ''q'')) = Inr {''->'', ''T''}
   \<and> ''p'' \<in> set (map fst [(''q'', False), (''p'', True)])
   \<and> evaluate (Binary ''->'' (Atom ''T'') (Atom ''q'')) [(''q'', False), (''p'', True)]
       = Inr False
   \<and> and_then (to_not_and_or (Binary ''->'' (Atom ''T'') (Atom ''q'')))
        (\<lambda>g. evaluate g [(''q'', False), (''p'', True)]) = Inr False
   \<and> and_then (to_not_and (Binary ''->'' (Atom ''T'') (Atom ''q'')))
        (\<lambda>g. evaluate g [(''q'', False), (''p'', True)]) = Inr False
   \<and> and_then (to_nand (Binary ''->'' (Atom ''T'') (Atom ''q'')))
        (\<lambda>g. evaluate g [(''q'', False), (''p'', True)]) = Inr False
   \<and> and_then (to_implies_not (Binary ''->'' (Atom ''T'') (Atom ''q'')))
        (\<lambda>g. evaluate g [(''q'', False), (''p'', True)]) = Inr False
   \<and> and_then (to_implies_false (Binary ''->'' (Atom ''T'') (Atom ''q'')))
        (\<lambda>g. evaluate g [(''q'', False), (''p'', True)]) = Inr False"
proof -
  let ?f = "Binary ''->'' (Atom ''T'') (Atom ''q'')"
  let ?m = "[(''q'', False), (''p'', True)]"
  have c: "constructed ?f"
    by simp
  have m: "is_model ?m = Inr True"
    by (simp add: is_model_iff)
  have v: "variables ?f = Inr {''q''}"
    by simp
  have sub: "{''q''} \<subseteq> set (map fst ?m)"
    by simp
  have ops: "operators ?f = Inr {''->'', ''T''}"
    by simp
  have p: "''p'' \<in> set (map fst ?m)"
    by simp
  have e: "evaluate ?f ?m = Inr False"
    using evaluate_standard [OF c m v sub] by (simp add: model_valuation_def)
  from converters_preserve_evaluation [OF c m v sub ops] p e
  have "and_then (to_not_and_or ?f) (\<lambda>g. evaluate g ?m) = Inr False"
    "and_then (to_not_and ?f) (\<lambda>g. evaluate g ?m) = Inr False"
    "and_then (to_nand ?f) (\<lambda>g. evaluate g ?m) = Inr False"
    "and_then (to_implies_not ?f) (\<lambda>g. evaluate g ?m) = Inr False"
    "and_then (to_implies_false ?f) (\<lambda>g. evaluate g ?m) = Inr False"
    by auto
  with c m v sub ops p e show ?thesis
    by (intro conjI)
qed

section \<open>Synthesis\<close>

subsection \<open>Joining formulas with one operator\<close>

lemma join_formulas_foldl:
  "is_binary op \<Longrightarrow> join_formulas op f fs = Inr (foldl (Binary op) f fs)"
  by (induction fs arbitrary: f) simp_all

lemma constructed_foldl:
  "is_binary op \<Longrightarrow> constructed f \<Longrightarrow> \<forall>g \<in> set fs. constructed g
     \<Longrightarrow> constructed (foldl (Binary op) f fs)"
  by (induction fs arbitrary: f) simp_all

lemma vars_of_foldl:
  "is_binary op \<Longrightarrow> constructed f \<Longrightarrow> \<forall>g \<in> set fs. constructed g
     \<Longrightarrow> vars_of (foldl (Binary op) f fs) = vars_of f \<union> (\<Union>g \<in> set fs. vars_of g)"
  by (induction fs arbitrary: f) auto

lemma standard_value_foldl_and:
  "standard_value val (foldl (Binary ''&'') f fs) =
     (standard_value val f \<and> (\<forall>g \<in> set fs. standard_value val g))"
  by (induction fs arbitrary: f) auto

lemma standard_value_foldl_or:
  "standard_value val (foldl (Binary ''|'') f fs) =
     (standard_value val f \<or> (\<exists>g \<in> set fs. standard_value val g))"
  by (induction fs arbitrary: f) auto

subsection \<open>The clause of one model\<close>

text \<open>
  The literal that the loops of \<open>_synthesize_for_model\<close> (\<open>positive\<close>) and
  \<open>_synthesize_for_all_except_model\<close> (\<open>\<not> positive\<close>) append for a variable.
\<close>

definition literal_of :: "bool \<Rightarrow> Model \<Rightarrow> string \<Rightarrow> Formula" where
  "literal_of positive m v =
     (if model_valuation m v = positive then Atom v else Neg (Atom v))"

lemma literal_of_facts:
  assumes "variable_name v"
  shows "constructed (literal_of positive m v)"
    and "vars_of (literal_of positive m v) = {v}"
    and "standard_value val (literal_of positive m v) = (val v = (model_valuation m v = positive))"
  using assms by (auto simp: literal_of_def)

lemma model_literals_map:
  assumes "\<forall>k \<in> set ks. variable_name k \<and> k \<in> set (map fst m)"
  shows "model_literals m ks = Inr (map (literal_of True m) ks)"
  using assms
proof (induction ks)
  case Nil
  then show ?case by simp
next
  case (Cons k ks)
  then have "getitem m k = Inr (model_valuation m k)" "variable_name k"
    by (simp_all add: getitem_model)
  with Cons show ?case
    by (simp add: literal_of_def)
qed

lemma except_model_literals_map:
  assumes "\<forall>k \<in> set ks. variable_name k \<and> k \<in> set (map fst m)"
  shows "except_model_literals m ks = Inr (map (literal_of False m) ks)"
  using assms
proof (induction ks)
  case Nil
  then show ?case by simp
next
  case (Cons k ks)
  then have "getitem m k = Inr (model_valuation m k)" "variable_name k"
    by (simp_all add: getitem_model)
  with Cons show ?case
    by (simp add: literal_of_def)
qed

text \<open>The clause of a model: its literals in the order of the sorted keys, joined.\<close>

definition clause_of :: "bool \<Rightarrow> string \<Rightarrow> Model \<Rightarrow> Formula" where
  "clause_of positive op m =
     (case map (literal_of positive m) (sort (map fst m)) of
        [] \<Rightarrow> Atom ''F''
      | formula # rest \<Rightarrow> foldl (Binary op) formula rest)"

lemma synthesize_for_model_clause:
  assumes "is_model m = Inr True" and "m \<noteq> []"
  shows "synthesize_for_model m = Inr (clause_of True ''&'' m)"
proof -
  from assms(1) have "\<forall>k \<in> set (sort (map fst m)). variable_name k \<and> k \<in> set (map fst m)"
    by (simp add: is_model_iff)
  then have "model_literals m (sort (map fst m)) = Inr (map (literal_of True m) (sort (map fst m)))"
    by (rule model_literals_map)
  moreover from assms(2) have "sort (map fst m) \<noteq> []"
    by (metis length_0_conv length_map length_sort)
  ultimately show ?thesis
    using assms
    by (cases "sort (map fst m)")
       (simp_all add: synthesize_for_model_def clause_of_def join_formulas_foldl)
qed

lemma synthesize_for_all_except_model_clause:
  assumes "is_model m = Inr True" and "m \<noteq> []"
  shows "synthesize_for_all_except_model m = Inr (clause_of False ''|'' m)"
proof -
  from assms(1) have "\<forall>k \<in> set (sort (map fst m)). variable_name k \<and> k \<in> set (map fst m)"
    by (simp add: is_model_iff)
  then have "except_model_literals m (sort (map fst m))
      = Inr (map (literal_of False m) (sort (map fst m)))"
    by (rule except_model_literals_map)
  moreover from assms(2) have "sort (map fst m) \<noteq> []"
    by (metis length_0_conv length_map length_sort)
  ultimately show ?thesis
    using assms
    by (cases "sort (map fst m)")
       (simp_all add: synthesize_for_all_except_model_def clause_of_def join_formulas_foldl)
qed

lemma sorted_keys:
  assumes "is_model m = Inr True" and "m \<noteq> []"
  obtains k ks where "sort (map fst m) = k # ks"
    and "set (map fst m) = insert k (set ks)"
    and "variable_name k" and "\<forall>x \<in> set ks. variable_name x"
proof -
  from assms(2) obtain k ks where s: "sort (map fst m) = k # ks"
    by (cases "sort (map fst m)") (auto dest: arg_cong [where f = length])
  then have keys: "set (map fst m) = insert k (set ks)"
    by (metis list.simps(15) set_sort)
  from assms(1) have "\<forall>x \<in> set (map fst m). variable_name x"
    by (simp only: is_model_iff)
  with keys have "variable_name k" "\<forall>x \<in> set ks. variable_name x"
    by blast+
  with s keys that show ?thesis
    by blast
qed

lemma clause_of_facts:
  assumes m: "is_model m = Inr True" "m \<noteq> []" and op: "is_binary op"
  shows "constructed (clause_of positive op m)"
    and "vars_of (clause_of positive op m) = set (map fst m)"
proof -
  from m obtain k ks where s: "sort (map fst m) = k # ks"
    and keys: "set (map fst m) = insert k (set ks)"
    and v: "variable_name k" "\<forall>x \<in> set ks. variable_name x"
    by (rule sorted_keys)
  have c: "clause_of positive op m =
      foldl (Binary op) (literal_of positive m k) (map (literal_of positive m) ks)"
    by (simp add: clause_of_def s)
  show "constructed (clause_of positive op m)"
    unfolding c using v op by (intro constructed_foldl) (auto simp: literal_of_facts)
  have "vars_of (clause_of positive op m) =
      vars_of (literal_of positive m k) \<union> (\<Union>g \<in> set (map (literal_of positive m) ks). vars_of g)"
    unfolding c using v op by (intro vars_of_foldl) (auto simp: literal_of_facts)
  also have "\<dots> = insert k (set ks)"
    using v by (auto simp: literal_of_facts)
  finally show "vars_of (clause_of positive op m) = set (map fst m)"
    using keys by simp
qed

lemma clause_of_and_value:
  assumes m: "is_model m = Inr True" "m \<noteq> []"
  shows "standard_value val (clause_of True ''&'' m) =
     (\<forall>v \<in> set (map fst m). val v = model_valuation m v)"
proof -
  from m obtain k ks where s: "sort (map fst m) = k # ks"
    and keys: "set (map fst m) = insert k (set ks)"
    and v: "variable_name k" "\<forall>x \<in> set ks. variable_name x"
    by (rule sorted_keys)
  have c: "clause_of True ''&'' m =
      foldl (Binary ''&'') (literal_of True m k) (map (literal_of True m) ks)"
    by (simp add: clause_of_def s)
  show ?thesis
    unfolding c standard_value_foldl_and keys using v
    by (auto simp: literal_of_facts)
qed

lemma clause_of_or_value:
  assumes m: "is_model m = Inr True" "m \<noteq> []"
  shows "standard_value val (clause_of False ''|'' m) =
     (\<exists>v \<in> set (map fst m). val v \<noteq> model_valuation m v)"
proof -
  from m obtain k ks where s: "sort (map fst m) = k # ks"
    and keys: "set (map fst m) = insert k (set ks)"
    and v: "variable_name k" "\<forall>x \<in> set ks. variable_name x"
    by (rule sorted_keys)
  have c: "clause_of False ''|'' m =
      foldl (Binary ''|'') (literal_of False m k) (map (literal_of False m) ks)"
    by (simp add: clause_of_def s)
  show ?thesis
    unfolding c standard_value_foldl_or keys using v
    by (auto simp: literal_of_facts)
qed

subsection \<open>The clauses of a truth table\<close>

lemma synthesize_clauses_map:
  assumes "\<forall>m \<in> set (map fst ps). is_model m = Inr True \<and> m \<noteq> []"
  shows "synthesize_clauses ps = Inr (map (clause_of True ''&'') (map fst (filter snd ps)))"
  using assms
proof (induction ps)
  case Nil
  then show ?case by simp
next
  case (Cons p ps)
  obtain m b where p: "p = (m, b)" by (cases p)
  with Cons show ?case
    by (cases b) (simp_all add: synthesize_for_model_clause)
qed

lemma synthesize_cnf_clauses_map:
  assumes "\<forall>m \<in> set (map fst ps). is_model m = Inr True \<and> m \<noteq> []"
  shows "synthesize_cnf_clauses ps =
     Inr (map (clause_of False ''|'') (map fst (filter (\<lambda>p. \<not> snd p) ps)))"
  using assms
proof (induction ps)
  case Nil
  then show ?case by simp
next
  case (Cons p ps)
  obtain m b where p: "p = (m, b)" by (cases p)
  with Cons show ?case
    by (cases b) (simp_all add: synthesize_for_all_except_model_clause)
qed

lemma selected_models:
  assumes "length ms = length vals"
  shows "set (map fst (filter (\<lambda>p. snd p = b) (zip ms vals)))
     = {ms ! j | j. j < length ms \<and> vals ! j = b}"
  using assms by (auto simp: set_zip in_set_conv_nth) force

lemma truth_values_map:
  "\<forall>m \<in> set ms. evaluate f m = Inr (g m) \<Longrightarrow> truth_values f ms = Inr (map g ms)"
  by (induction ms) simp_all

subsection \<open>The models of distinct variables\<close>

lemma model_valuation_zip:
  assumes "distinct vs" "length t = length vs" "k < length vs"
  shows "model_valuation (zip vs t) (vs ! k) = t ! k"
  using assms by (simp add: model_valuation_def map_of_zip_nth)

text \<open>
  Two models of the enumeration that agree on every variable are the same entry of the
  enumeration.
\<close>

lemma models_agree_iff:
  assumes d: "distinct vs" and i: "i < 2 ^ length vs" and j: "j < 2 ^ length vs"
  shows "(\<forall>v \<in> set vs.
            model_valuation (zip vs (product_repeat [False, True] (length vs) ! i)) v
          = model_valuation (zip vs (product_repeat [False, True] (length vs) ! j)) v)
         \<longleftrightarrow> i = j"
proof
  let ?P = "product_repeat [False, True] (length vs)"
  assume agree: "\<forall>v \<in> set vs.
      model_valuation (zip vs (?P ! i)) v = model_valuation (zip vs (?P ! j)) v"
  have li: "length (?P ! i) = length vs" and lj: "length (?P ! j) = length vs"
    using i j by (simp_all add: length_product_repeat length_product_repeat_elem)
  have "?P ! i = ?P ! j"
  proof (rule nth_equalityI)
    show "length (?P ! i) = length (?P ! j)"
      using li lj by simp
  next
    fix k assume "k < length (?P ! i)"
    with li have k: "k < length vs" by simp
    with agree have "model_valuation (zip vs (?P ! i)) (vs ! k)
        = model_valuation (zip vs (?P ! j)) (vs ! k)"
      by simp
    then show "?P ! i ! k = ?P ! j ! k"
      by (simp add: model_valuation_zip [OF d li k] model_valuation_zip [OF d lj k])
  qed
  moreover have "distinct ?P"
    using product_repeat_sorted [of "length vs"] by (simp add: strict_sorted_iff)
  ultimately show "i = j"
    using i j by (simp add: nth_eq_iff_index_eq length_product_repeat)
next
  assume "i = j"
  then show "\<forall>v \<in> set vs.
      model_valuation (zip vs (product_repeat [False, True] (length vs) ! i)) v
    = model_valuation (zip vs (product_repeat [False, True] (length vs) ! j)) v"
    by simp
qed

lemma enumerated_model:
  assumes "vs \<noteq> []" and "\<forall>v \<in> set vs. variable_name v"
    and "m \<in> set (map (zip vs) (product_repeat [False, True] (length vs)))"
  shows "is_model m = Inr True" and "m \<noteq> []" and "map fst m = vs"
proof -
  from assms(3) obtain t where t: "t \<in> set (product_repeat [False, True] (length vs))"
    and m: "m = zip vs t"
    by auto
  from t have "length t = length vs"
    by (rule length_product_repeat_elem)
  with m show keys: "map fst m = vs"
    by simp
  with assms(2) show "is_model m = Inr True"
    by (simp only: is_model_iff)
  from keys assms(1) show "m \<noteq> []"
    by auto
qed

lemma selected_true:
  assumes "length ms = length vals"
  shows "set (map fst (filter snd (zip ms vals))) = {ms ! j | j. j < length ms \<and> vals ! j}"
  using selected_models [OF assms, of True] by simp

lemma selected_false:
  assumes "length ms = length vals"
  shows "set (map fst (filter (\<lambda>p. \<not> snd p) (zip ms vals)))
     = {ms ! j | j. j < length ms \<and> \<not> vals ! j}"
  using selected_models [OF assms, of False] by simp

subsection \<open>\<open>synthesize\<close> has the given truth table\<close>

lemma synthesize_truth_table:
  assumes ne: "vs \<noteq> []" and d: "distinct vs" and v: "\<forall>v \<in> set vs. variable_name v"
    and len: "length vals = 2 ^ length vs"
  shows "\<exists>f. synthesize vs vals = Inr f
    \<and> truth_values f (map (zip vs) (product_repeat [False, True] (length vs))) = Inr vals"
proof -
  let ?P = "product_repeat [False, True] (length vs)"
  let ?ms = "map (zip vs) ?P"
  let ?sel = "map fst (filter snd (zip ?ms vals))"
  let ?clauses = "map (clause_of True ''&'') ?sel"
  define f where "f = (case ?clauses of
      [] \<Rightarrow> Binary ''&'' (Atom (hd vs)) (Neg (Atom (hd vs)))
    | formula # rest \<Rightarrow> foldl (Binary ''|'') formula rest)"
  have ms: "all_models vs = Inr ?ms"
    using d v by (rule all_models_distinct)
  have lms: "length ?ms = length vals"
    using len by (simp add: length_product_repeat)
  note model = enumerated_model [OF ne v]
  have sub: "set ?sel \<subseteq> set ?ms"
    by (auto dest: set_zip_leftD)
  have "\<forall>m \<in> set (map fst (zip ?ms vals)). is_model m = Inr True \<and> m \<noteq> []"
  proof
    fix m assume "m \<in> set (map fst (zip ?ms vals))"
    then obtain b where "(m, b) \<in> set (zip ?ms vals)" by auto
    then have "m \<in> set ?ms" by (rule set_zip_leftD)
    with model(1,2) show "is_model m = Inr True \<and> m \<noteq> []" by blast
  qed
  then have clauses: "synthesize_clauses (zip ?ms vals) = Inr ?clauses"
    by (rule synthesize_clauses_map)
  have hd: "variable_name (hd vs)" "hd vs \<in> set vs"
    using ne v by simp_all
  have syn: "synthesize vs vals = Inr f"
    using ne ms clauses hd(1)
    by (simp add: synthesize_def f_def new_binary_def new_unary_def join_formulas_foldl
        Let_def split: list.splits)
  have cl: "constructed (clause_of True ''&'' m) \<and> vars_of (clause_of True ''&'' m) = set vs
      \<and> (\<forall>val. standard_value val (clause_of True ''&'' m)
            = (\<forall>x \<in> set vs. val x = model_valuation m x))"
    if "m \<in> set ?sel" for m
  proof -
    from that sub have m: "m \<in> set ?ms" by blast
    from clause_of_facts [OF model(1,2) [OF m], of "''&''" True]
      clause_of_and_value [OF model(1,2) [OF m]] model(3) [OF m]
    show ?thesis by simp
  qed
  have f: "constructed f \<and> vars_of f \<subseteq> set vs
      \<and> (\<forall>val. standard_value val f
            = (\<exists>m \<in> set ?sel. \<forall>x \<in> set vs. val x = model_valuation m x))"
  proof (cases ?sel)
    case Nil
    with hd show ?thesis
      by (simp add: f_def)
  next
    case (Cons m0 rest)
    then have f': "f = foldl (Binary ''|'') (clause_of True ''&'' m0)
        (map (clause_of True ''&'') rest)"
      by (simp add: f_def)
    from Cons cl have all: "\<forall>m \<in> set (m0 # rest).
        constructed (clause_of True ''&'' m) \<and> vars_of (clause_of True ''&'' m) = set vs
        \<and> (\<forall>val. standard_value val (clause_of True ''&'' m)
              = (\<forall>x \<in> set vs. val x = model_valuation m x))"
      by simp
    then have 1: "constructed f"
      unfolding f' by (intro constructed_foldl) auto
    from all have "vars_of f = vars_of (clause_of True ''&'' m0)
        \<union> (\<Union>g \<in> set (map (clause_of True ''&'') rest). vars_of g)"
      unfolding f' by (intro vars_of_foldl) auto
    with all have 2: "vars_of f \<subseteq> set vs"
      by auto
    from all have 3: "\<forall>val. standard_value val f
            = (\<exists>m \<in> set (m0 # rest). \<forall>x \<in> set vs. val x = model_valuation m x)"
      unfolding f' standard_value_foldl_or by simp
    from 1 2 3 Cons show ?thesis by simp
  qed
  have sv: "standard_value (model_valuation (?ms ! i)) f = vals ! i"
    if i: "i < 2 ^ length vs" for i
  proof -
    have "standard_value (model_valuation (?ms ! i)) f
        = (\<exists>m \<in> set ?sel. \<forall>x \<in> set vs. model_valuation (?ms ! i) x = model_valuation m x)"
      using f by simp
    also have "\<dots> = (\<exists>j < 2 ^ length vs. vals ! j \<and>
        (\<forall>x \<in> set vs. model_valuation (?ms ! i) x = model_valuation (?ms ! j) x))"
      unfolding selected_true [OF lms] using len lms by auto
    also have "\<dots> = (\<exists>j < 2 ^ length vs. vals ! j \<and> i = j)"
      using models_agree_iff [OF d i] by (simp add: length_product_repeat i cong: conj_cong)
    also have "\<dots> = vals ! i"
      using i by auto
    finally show ?thesis .
  qed
  have "\<forall>m \<in> set ?ms. evaluate f m = Inr (standard_value (model_valuation m) f)"
  proof
    fix m assume m: "m \<in> set ?ms"
    from f model(3) [OF m] have cover: "vars_of f \<subseteq> set (map fst m)"
      by simp
    from f have "variables f = Inr (vars_of f)"
      by (simp add: variables_vars_of)
    from evaluate_standard [OF _ model(1) [OF m] this cover] f
    show "evaluate f m = Inr (standard_value (model_valuation m) f)"
      by simp
  qed
  then have "truth_values f ?ms = Inr (map (\<lambda>m. standard_value (model_valuation m) f) ?ms)"
    by (rule truth_values_map)
  moreover have "map (\<lambda>m. standard_value (model_valuation m) f) ?ms = vals"
  proof (rule nth_equalityI)
    show "length (map (\<lambda>m. standard_value (model_valuation m) f) ?ms) = length vals"
      using lms by simp
  next
    fix i assume "i < length (map (\<lambda>m. standard_value (model_valuation m) f) ?ms)"
    then have i: "i < 2 ^ length vs"
      by (simp add: length_product_repeat)
    from sv [OF i] i
    show "map (\<lambda>m. standard_value (model_valuation m) f) ?ms ! i = vals ! i"
      by (simp add: length_product_repeat)
  qed
  ultimately show ?thesis
    using syn by simp
qed

subsection \<open>\<open>synthesize_cnf\<close> has the given truth table\<close>

lemma ball_selected:
  "(\<forall>m \<in> {xs ! j | j. j < n \<and> P j}. Q m) = (\<forall>j < n. P j \<longrightarrow> Q (xs ! j))"
  by auto

lemma synthesize_cnf_truth_table:
  assumes ne: "vs \<noteq> []" and d: "distinct vs" and v: "\<forall>v \<in> set vs. variable_name v"
    and len: "length vals = 2 ^ length vs"
  shows "\<exists>f. synthesize_cnf vs vals = Inr f
    \<and> truth_values f (map (zip vs) (product_repeat [False, True] (length vs))) = Inr vals"
proof -
  let ?P = "product_repeat [False, True] (length vs)"
  let ?ms = "map (zip vs) ?P"
  let ?sel = "map fst (filter (\<lambda>p. \<not> snd p) (zip ?ms vals))"
  let ?clauses = "map (clause_of False ''|'') ?sel"
  define f where "f = (case ?clauses of
      [] \<Rightarrow> Binary ''|'' (Atom (hd vs)) (Neg (Atom (hd vs)))
    | formula # rest \<Rightarrow> foldl (Binary ''&'') formula rest)"
  have ms: "all_models vs = Inr ?ms"
    using d v by (rule all_models_distinct)
  have lms: "length ?ms = length vals"
    using len by (simp add: length_product_repeat)
  note model = enumerated_model [OF ne v]
  have sub: "set ?sel \<subseteq> set ?ms"
    by (auto dest: set_zip_leftD)
  have "\<forall>m \<in> set (map fst (zip ?ms vals)). is_model m = Inr True \<and> m \<noteq> []"
  proof
    fix m assume "m \<in> set (map fst (zip ?ms vals))"
    then obtain b where "(m, b) \<in> set (zip ?ms vals)" by auto
    then have "m \<in> set ?ms" by (rule set_zip_leftD)
    with model(1,2) show "is_model m = Inr True \<and> m \<noteq> []" by blast
  qed
  then have clauses: "synthesize_cnf_clauses (zip ?ms vals) = Inr ?clauses"
    by (rule synthesize_cnf_clauses_map)
  have hd: "variable_name (hd vs)" "hd vs \<in> set vs"
    using ne v by simp_all
  have syn: "synthesize_cnf vs vals = Inr f"
    using ne ms clauses hd(1)
    by (simp add: synthesize_cnf_def f_def new_binary_def new_unary_def join_formulas_foldl
        Let_def split: list.splits)
  have cl: "constructed (clause_of False ''|'' m) \<and> vars_of (clause_of False ''|'' m) = set vs
      \<and> (\<forall>val. standard_value val (clause_of False ''|'' m)
            = (\<exists>x \<in> set vs. val x \<noteq> model_valuation m x))"
    if "m \<in> set ?sel" for m
  proof -
    from that sub have m: "m \<in> set ?ms" by blast
    from clause_of_facts [OF model(1,2) [OF m], of "''|''" False]
      clause_of_or_value [OF model(1,2) [OF m]] model(3) [OF m]
    show ?thesis by simp
  qed
  have f: "constructed f \<and> vars_of f \<subseteq> set vs
      \<and> (\<forall>val. standard_value val f
            = (\<forall>m \<in> set ?sel. \<exists>x \<in> set vs. val x \<noteq> model_valuation m x))"
  proof (cases ?sel)
    case Nil
    with hd show ?thesis
      by (simp add: f_def)
  next
    case (Cons m0 rest)
    then have f': "f = foldl (Binary ''&'') (clause_of False ''|'' m0)
        (map (clause_of False ''|'') rest)"
      by (simp add: f_def)
    from Cons cl have all: "\<forall>m \<in> set (m0 # rest).
        constructed (clause_of False ''|'' m) \<and> vars_of (clause_of False ''|'' m) = set vs
        \<and> (\<forall>val. standard_value val (clause_of False ''|'' m)
              = (\<exists>x \<in> set vs. val x \<noteq> model_valuation m x))"
      by simp
    then have 1: "constructed f"
      unfolding f' by (intro constructed_foldl) auto
    from all have "vars_of f = vars_of (clause_of False ''|'' m0)
        \<union> (\<Union>g \<in> set (map (clause_of False ''|'') rest). vars_of g)"
      unfolding f' by (intro vars_of_foldl) auto
    with all have 2: "vars_of f \<subseteq> set vs"
      by auto
    from all have 3: "\<forall>val. standard_value val f
            = (\<forall>m \<in> set (m0 # rest). \<exists>x \<in> set vs. val x \<noteq> model_valuation m x)"
      unfolding f' standard_value_foldl_and by simp
    from 1 2 3 Cons show ?thesis by simp
  qed
  have sv: "standard_value (model_valuation (?ms ! i)) f = vals ! i"
    if i: "i < 2 ^ length vs" for i
  proof -
    have "standard_value (model_valuation (?ms ! i)) f
        = (\<forall>m \<in> set ?sel. \<not> (\<forall>x \<in> set vs.
              model_valuation (?ms ! i) x = model_valuation m x))"
      using f by simp
    also have "\<dots> = (\<forall>j < 2 ^ length vs. \<not> vals ! j \<longrightarrow>
        \<not> (\<forall>x \<in> set vs. model_valuation (?ms ! i) x = model_valuation (?ms ! j) x))"
    proof -
      have "length ?ms = 2 ^ length vs"
        by (simp add: length_product_repeat)
      then show ?thesis
        unfolding selected_false [OF lms] by (simp only: ball_selected)
    qed
    also have "\<dots> = (\<forall>j < 2 ^ length vs. \<not> vals ! j \<longrightarrow> i \<noteq> j)"
      using models_agree_iff [OF d i] by (simp add: length_product_repeat i cong: imp_cong)
    also have "\<dots> = vals ! i"
      using i by auto
    finally show ?thesis .
  qed
  have "\<forall>m \<in> set ?ms. evaluate f m = Inr (standard_value (model_valuation m) f)"
  proof
    fix m assume m: "m \<in> set ?ms"
    from f model(3) [OF m] have cover: "vars_of f \<subseteq> set (map fst m)"
      by simp
    from f have "variables f = Inr (vars_of f)"
      by (simp add: variables_vars_of)
    from evaluate_standard [OF _ model(1) [OF m] this cover] f
    show "evaluate f m = Inr (standard_value (model_valuation m) f)"
      by simp
  qed
  then have "truth_values f ?ms = Inr (map (\<lambda>m. standard_value (model_valuation m) f) ?ms)"
    by (rule truth_values_map)
  moreover have "map (\<lambda>m. standard_value (model_valuation m) f) ?ms = vals"
  proof (rule nth_equalityI)
    show "length (map (\<lambda>m. standard_value (model_valuation m) f) ?ms) = length vals"
      using lms by simp
  next
    fix i assume "i < length (map (\<lambda>m. standard_value (model_valuation m) f) ?ms)"
    then have i: "i < 2 ^ length vs"
      by (simp add: length_product_repeat)
    from sv [OF i] i
    show "map (\<lambda>m. standard_value (model_valuation m) f) ?ms ! i = vals ! i"
      by (simp add: length_product_repeat)
  qed
  ultimately show ?thesis
    using syn by simp
qed

subsection \<open>The fixed formulas\<close>

lemma all_models_variables:
  "\<forall>v \<in> set vs. variable_name v \<Longrightarrow> \<exists>ms. all_models vs = Inr ms"
  by (simp add: all_models_def assert_variables_iff [THEN iffD2])

lemma synthesize_clauses_none:
  "\<forall>p \<in> set ps. \<not> snd p \<Longrightarrow> synthesize_clauses ps = Inr []"
  by (induction ps) auto

lemma synthesize_cnf_clauses_none:
  "\<forall>p \<in> set ps. snd p \<Longrightarrow> synthesize_cnf_clauses ps = Inr []"
  by (induction ps) auto

lemma synthesize_no_true:
  assumes "vs \<noteq> []" and "\<forall>v \<in> set vs. variable_name v" and "\<forall>b \<in> set vals. \<not> b"
  shows "synthesize vs vals = Inr (Binary ''&'' (Atom (hd vs)) (Neg (Atom (hd vs))))"
proof -
  from assms(2) obtain ms where ms: "all_models vs = Inr ms"
    using all_models_variables by blast
  from assms(3) have "\<forall>p \<in> set (zip ms vals). \<not> snd p"
    by (auto dest: set_zip_rightD)
  then have "synthesize_clauses (zip ms vals) = Inr []"
    by (rule synthesize_clauses_none)
  moreover from assms(1,2) have "variable_name (hd vs)"
    by simp
  ultimately show ?thesis
    using assms(1) ms by (simp add: synthesize_def Let_def new_binary_def new_unary_def)
qed

lemma synthesize_cnf_no_false:
  assumes "vs \<noteq> []" and "\<forall>v \<in> set vs. variable_name v" and "\<forall>b \<in> set vals. b"
  shows "synthesize_cnf vs vals = Inr (Binary ''|'' (Atom (hd vs)) (Neg (Atom (hd vs))))"
proof -
  from assms(2) obtain ms where ms: "all_models vs = Inr ms"
    using all_models_variables by blast
  from assms(3) have "\<forall>p \<in> set (zip ms vals). snd p"
    by (auto dest: set_zip_rightD)
  then have "synthesize_cnf_clauses (zip ms vals) = Inr []"
    by (rule synthesize_cnf_clauses_none)
  moreover from assms(1,2) have "variable_name (hd vs)"
    by simp
  ultimately show ?thesis
    using assms(1) ms by (simp add: synthesize_cnf_def Let_def new_binary_def new_unary_def)
qed

lemmas synthesize_eval =
  synthesize_def synthesize_cnf_def synthesize_for_model_def
  synthesize_for_all_except_model_def all_models_eval is_model_def getitem_def
  new_atom_def new_unary_def new_binary_def Formula_init_def Let_def

section \<open>Claim C3: synthesis has the given truth table\<close>

text \<open>
  C3, as stated, for every nonempty variable list: false when a name is listed twice.
  \<open>all_models(['p', 'p'])\<close> yields four models over the one variable \<open>p\<close>, two of them
  twice. For the values \<open>True, False, False, False\<close>, \<open>synthesize\<close> returns \<open>~p\<close>, whose
  values in the four models are \<open>True, False, True, False\<close>, and \<open>synthesize_cnf\<close> returns
  \<open>((~p&p)&~p)\<close>, whose values are \<open>False, False, False, False\<close>.
\<close>

theorem synthesize_duplicate_counterexample:
  "[''p'', ''p''] \<noteq> []
   \<and> variable_name ''p''
   \<and> length [True, False, False, False] = 2 ^ length [''p'', ''p'']
   \<and> all_models [''p'', ''p''] =
        Inr [[(''p'', False)], [(''p'', True)], [(''p'', False)], [(''p'', True)]]
   \<and> synthesize [''p'', ''p''] [True, False, False, False] = Inr (Neg (Atom ''p''))
   \<and> truth_values (Neg (Atom ''p''))
        [[(''p'', False)], [(''p'', True)], [(''p'', False)], [(''p'', True)]]
       = Inr [True, False, True, False]
   \<and> synthesize_cnf [''p'', ''p''] [True, False, False, False]
       = Inr (Binary ''&'' (Binary ''&'' (Neg (Atom ''p'')) (Atom ''p'')) (Neg (Atom ''p'')))
   \<and> truth_values (Binary ''&'' (Binary ''&'' (Neg (Atom ''p'')) (Atom ''p'')) (Neg (Atom ''p'')))
        [[(''p'', False)], [(''p'', True)], [(''p'', False)], [(''p'', True)]]
       = Inr [False, False, False, False]
   \<and> [True, False, True, False] \<noteq> [True, False, False, False]
   \<and> [False, False, False, False] \<noteq> [True, False, False, False]"
proof -
  have m: "all_models [''p'', ''p''] =
        Inr [[(''p'', False)], [(''p'', True)], [(''p'', False)], [(''p'', True)]]"
    by (simp add: all_models_eval)
  have s: "synthesize [''p'', ''p''] [True, False, False, False] = Inr (Neg (Atom ''p''))"
    unfolding synthesize_def m by (simp add: synthesize_eval)
  have c: "synthesize_cnf [''p'', ''p''] [True, False, False, False]
       = Inr (Binary ''&'' (Binary ''&'' (Neg (Atom ''p'')) (Atom ''p'')) (Neg (Atom ''p'')))"
    unfolding synthesize_cnf_def m by (simp add: synthesize_eval)
  have t: "truth_values (Neg (Atom ''p''))
        [[(''p'', False)], [(''p'', True)], [(''p'', False)], [(''p'', True)]]
       = Inr [True, False, True, False]"
    by (simp add: evaluate_eval)
  have u: "truth_values
        (Binary ''&'' (Binary ''&'' (Neg (Atom ''p'')) (Atom ''p'')) (Neg (Atom ''p'')))
        [[(''p'', False)], [(''p'', True)], [(''p'', False)], [(''p'', True)]]
       = Inr [False, False, False, False]"
    by (simp add: evaluate_eval)
  from m s c t u show ?thesis
    by simp
qed

text \<open>
  C3, amended. For a nonempty list \<open>vs\<close> of variable names and \<open>2 ^ |vs|\<close> values: if the
  names are distinct, \<open>synthesize\<close> and \<open>synthesize_cnf\<close> return formulas whose truth values
  in the models of \<open>all_models(vs)\<close>, in order, are the given values; if no value is true,
  \<open>synthesize\<close> returns \<open>(v&~v)\<close> for the first variable \<open>v\<close>; if no value is false,
  \<open>synthesize_cnf\<close> returns \<open>(v|~v)\<close>.
\<close>

theorem synthesize_round_trip:
  assumes "vs \<noteq> []" and "\<forall>v \<in> set vs. variable_name v"
    and "length vals = 2 ^ length vs"
  shows "(distinct vs \<longrightarrow>
      (\<exists>f ms. synthesize vs vals = Inr f \<and> all_models vs = Inr ms
         \<and> truth_values f ms = Inr vals))
    \<and> (distinct vs \<longrightarrow>
      (\<exists>f ms. synthesize_cnf vs vals = Inr f \<and> all_models vs = Inr ms
         \<and> truth_values f ms = Inr vals))
    \<and> ((\<forall>b \<in> set vals. \<not> b) \<longrightarrow>
      synthesize vs vals = Inr (Binary ''&'' (Atom (hd vs)) (Neg (Atom (hd vs)))))
    \<and> ((\<forall>b \<in> set vals. b) \<longrightarrow>
      synthesize_cnf vs vals = Inr (Binary ''|'' (Atom (hd vs)) (Neg (Atom (hd vs)))))"
proof (intro conjI impI)
  assume d: "distinct vs"
  from all_models_distinct [OF d assms(2)] synthesize_truth_table [OF assms(1) d assms(2,3)]
  show "\<exists>f ms. synthesize vs vals = Inr f \<and> all_models vs = Inr ms
         \<and> truth_values f ms = Inr vals"
    by blast
next
  assume d: "distinct vs"
  from all_models_distinct [OF d assms(2)] synthesize_cnf_truth_table [OF assms(1) d assms(2,3)]
  show "\<exists>f ms. synthesize_cnf vs vals = Inr f \<and> all_models vs = Inr ms
         \<and> truth_values f ms = Inr vals"
    by blast
next
  assume "\<forall>b \<in> set vals. \<not> b"
  with assms(1,2)
  show "synthesize vs vals = Inr (Binary ''&'' (Atom (hd vs)) (Neg (Atom (hd vs))))"
    by (rule synthesize_no_true)
next
  assume "\<forall>b \<in> set vals. b"
  with assms(1,2)
  show "synthesize_cnf vs vals = Inr (Binary ''|'' (Atom (hd vs)) (Neg (Atom (hd vs))))"
    by (rule synthesize_cnf_no_false)
qed

theorem synthesize_round_trip_witness:
  "[''p'', ''q''] \<noteq> [] \<and> variable_name ''p'' \<and> variable_name ''q''
   \<and> distinct [''p'', ''q'']
   \<and> length [True, True, True, False] = 2 ^ length [''p'', ''q'']
   \<and> all_models [''p'', ''q''] =
        Inr [[(''p'', False), (''q'', False)], [(''p'', False), (''q'', True)],
             [(''p'', True), (''q'', False)], [(''p'', True), (''q'', True)]]
   \<and> synthesize [''p'', ''q''] [True, True, True, False] =
        Inr (Binary ''|''
              (Binary ''|'' (Binary ''&'' (Neg (Atom ''p'')) (Neg (Atom ''q'')))
                            (Binary ''&'' (Neg (Atom ''p'')) (Atom ''q'')))
              (Binary ''&'' (Atom ''p'') (Neg (Atom ''q''))))
   \<and> truth_values
        (Binary ''|''
              (Binary ''|'' (Binary ''&'' (Neg (Atom ''p'')) (Neg (Atom ''q'')))
                            (Binary ''&'' (Neg (Atom ''p'')) (Atom ''q'')))
              (Binary ''&'' (Atom ''p'') (Neg (Atom ''q''))))
        [[(''p'', False), (''q'', False)], [(''p'', False), (''q'', True)],
         [(''p'', True), (''q'', False)], [(''p'', True), (''q'', True)]]
       = Inr [True, True, True, False]
   \<and> synthesize_cnf [''p'', ''q''] [True, True, True, False] =
        Inr (Binary ''|'' (Neg (Atom ''p'')) (Neg (Atom ''q'')))
   \<and> truth_values (Binary ''|'' (Neg (Atom ''p'')) (Neg (Atom ''q'')))
        [[(''p'', False), (''q'', False)], [(''p'', False), (''q'', True)],
         [(''p'', True), (''q'', False)], [(''p'', True), (''q'', True)]]
       = Inr [True, True, True, False]
   \<and> synthesize [''p'', ''q''] [False, False, False, False] =
        Inr (Binary ''&'' (Atom ''p'') (Neg (Atom ''p'')))
   \<and> synthesize_cnf [''p'', ''q''] [True, True, True, True] =
        Inr (Binary ''|'' (Atom ''p'') (Neg (Atom ''p'')))"
proof -
  have ne: "[''p'', ''q''] \<noteq> []" and d: "distinct [''p'', ''q'']"
    by simp_all
  have v: "\<forall>v \<in> set [''p'', ''q'']. variable_name v"
    by simp
  have len: "length [True, True, True, False] = 2 ^ length [''p'', ''q'']"
    "length [False, False, False, False] = 2 ^ length [''p'', ''q'']"
    "length [True, True, True, True] = 2 ^ length [''p'', ''q'']"
    by simp_all
  have m: "all_models [''p'', ''q''] =
        Inr [[(''p'', False), (''q'', False)], [(''p'', False), (''q'', True)],
             [(''p'', True), (''q'', False)], [(''p'', True), (''q'', True)]]"
    by (simp add: all_models_eval)
  have s: "synthesize [''p'', ''q''] [True, True, True, False] =
        Inr (Binary ''|''
              (Binary ''|'' (Binary ''&'' (Neg (Atom ''p'')) (Neg (Atom ''q'')))
                            (Binary ''&'' (Neg (Atom ''p'')) (Atom ''q'')))
              (Binary ''&'' (Atom ''p'') (Neg (Atom ''q''))))"
    unfolding synthesize_def m by (simp add: synthesize_eval)
  have c: "synthesize_cnf [''p'', ''q''] [True, True, True, False] =
        Inr (Binary ''|'' (Neg (Atom ''p'')) (Neg (Atom ''q'')))"
    unfolding synthesize_cnf_def m by (simp add: synthesize_eval)
  note main = synthesize_round_trip [OF ne v len(1)]
  from main [THEN conjunct1] d s m
  have t: "truth_values
        (Binary ''|''
              (Binary ''|'' (Binary ''&'' (Neg (Atom ''p'')) (Neg (Atom ''q'')))
                            (Binary ''&'' (Neg (Atom ''p'')) (Atom ''q'')))
              (Binary ''&'' (Atom ''p'') (Neg (Atom ''q''))))
        [[(''p'', False), (''q'', False)], [(''p'', False), (''q'', True)],
         [(''p'', True), (''q'', False)], [(''p'', True), (''q'', True)]]
       = Inr [True, True, True, False]"
    by auto
  from main [THEN conjunct2, THEN conjunct1] d c m
  have u: "truth_values (Binary ''|'' (Neg (Atom ''p'')) (Neg (Atom ''q'')))
        [[(''p'', False), (''q'', False)], [(''p'', False), (''q'', True)],
         [(''p'', True), (''q'', False)], [(''p'', True), (''q'', True)]]
       = Inr [True, True, True, False]"
    by auto
  from synthesize_round_trip [OF ne v len(2), THEN conjunct2, THEN conjunct2, THEN conjunct1]
  have f: "synthesize [''p'', ''q''] [False, False, False, False] =
        Inr (Binary ''&'' (Atom ''p'') (Neg (Atom ''p'')))"
    by simp
  from synthesize_round_trip [OF ne v len(3), THEN conjunct2, THEN conjunct2, THEN conjunct2]
  have g: "synthesize_cnf [''p'', ''q''] [True, True, True, True] =
        Inr (Binary ''|'' (Atom ''p'') (Neg (Atom ''p'')))"
    by simp
  from ne d len(1) m s t c u f g show ?thesis
    by simp
qed

end
